(* ===== verification/Prelude.thy ===== *)
theory Prelude
  imports Complex_Main "HOL-Library.List_Lexorder" "HOL-Library.Char_ord" "HOL-Library.Multiset"
begin

text \<open>
  Shared vocabulary of the development.

  \<^item> Results: a function of the code that may throw returns \<open>'e + 'a\<close>, \<open>Inl\<close> for the
    thrown error. \<open>ebind\<close> sequences two such calls (an exception skips the rest) and
    \<open>require\<close> is the statement \<open>if (!c) throw e\<close>.
  \<^item> Strings: JavaScript strings as \<open>char list\<close> (one \<open>char\<close> per code unit below 256), with the
    methods the source calls: \<open>trim\<close>, \<open>toUpperCase\<close>, \<open>split\<close>, \<open>join\<close>, \<open>padStart\<close>, \<open>includes\<close>,
    \<open>String(n)\<close>. Case mapping is the ASCII one.
  \<^item> Lists: tables are lists of rows with a key; \<open>find_row\<close> and \<open>update_row\<close> are the lookup and
    the update by key, with the laws every table of the model uses.
\<close>

named_theorems result_simps "how a successful or failed sequence of calls decomposes"

section \<open>Results\<close>

fun ebind :: "'e + 'a \<Rightarrow> ('a \<Rightarrow> 'e + 'b) \<Rightarrow> 'e + 'b" where
  "ebind (Inl e) f = Inl e"
| "ebind (Inr a) f = f a"

definition require :: "bool \<Rightarrow> 'e \<Rightarrow> 'e + unit" where
  "require c e = (if c then Inr () else Inl e)"

lemma ebind_Inr_iff [result_simps]: "ebind m f = Inr b \<longleftrightarrow> (\<exists>a. m = Inr a \<and> f a = Inr b)"
  by (cases m) auto

lemma ebind_Inl_iff [result_simps]:
  "ebind m f = Inl e \<longleftrightarrow> m = Inl e \<or> (\<exists>a. m = Inr a \<and> f a = Inl e)"
  by (cases m) auto

lemma require_Inr_iff [result_simps]: "require c e = Inr u \<longleftrightarrow> c"
  by (simp add: require_def)

lemma require_Inl_iff [result_simps]: "require c e = Inl e' \<longleftrightarrow> \<not> c \<and> e' = e"
  by (auto simp: require_def)

lemma require_simps [simp]:
  "require True e = Inr ()" "require False e = Inl e"
  by (simp_all add: require_def)

lemma ebind_assoc: "ebind (ebind m f) g = ebind m (\<lambda>a. ebind (f a) g)"
  by (cases m) auto

text \<open>A case distinction with one failing branch.\<close>

lemma case_list_Inr [result_simps]:
  "(case xs of [] \<Rightarrow> Inl e | y # ys \<Rightarrow> f y ys) = Inr b \<longleftrightarrow> (\<exists>y ys. xs = y # ys \<and> f y ys = Inr b)"
  "(case xs of [] \<Rightarrow> Inr a | y # ys \<Rightarrow> Inl (g y ys)) = Inr b \<longleftrightarrow> xs = [] \<and> a = b"
  by (cases xs; simp)+

lemma case_option_Inr [result_simps]:
  "(case m of None \<Rightarrow> Inl e | Some y \<Rightarrow> f y) = Inr b \<longleftrightarrow> (\<exists>y. m = Some y \<and> f y = Inr b)"
  by (cases m; simp)

definition is_ok :: "'e + 'a \<Rightarrow> bool" where
  "is_ok r = (case r of Inl _ \<Rightarrow> False | Inr _ \<Rightarrow> True)"

lemma is_ok_simps [simp]: "is_ok (Inr a)" "\<not> is_ok (Inl e)"
  by (simp_all add: is_ok_def)

section \<open>Strings\<close>

definition is_space :: "char \<Rightarrow> bool" where
  "is_space c \<longleftrightarrow> of_char c \<in> {9, 10, 11, 12, 13, 32, 160 :: nat}"

definition js_trim :: "string \<Rightarrow> string" where
  "js_trim s = rev (dropWhile is_space (rev (dropWhile is_space s)))"

definition upper_char :: "char \<Rightarrow> char" where
  "upper_char c = (let n = of_char c :: nat in if 97 \<le> n \<and> n \<le> 122 then char_of (n - 32) else c)"

definition lower_char :: "char \<Rightarrow> char" where
  "lower_char c = (let n = of_char c :: nat in if 65 \<le> n \<and> n \<le> 90 then char_of (n + 32) else c)"

definition toUpperCase :: "string \<Rightarrow> string" where
  "toUpperCase s = map upper_char s"

definition toLowerCase :: "string \<Rightarrow> string" where
  "toLowerCase s = map lower_char s"

text \<open>\<open>s.split(c)\<close> for a one-character separator: always at least one piece.\<close>

fun js_split :: "char \<Rightarrow> string \<Rightarrow> string list" where
  "js_split c [] = [[]]"
| "js_split c (x # xs) =
     (if x = c then [] # js_split c xs
      else case js_split c xs of [] \<Rightarrow> [[x]] | p # ps \<Rightarrow> (x # p) # ps)"

fun js_join :: "string \<Rightarrow> string list \<Rightarrow> string" where
  "js_join sep [] = []"
| "js_join sep [x] = x"
| "js_join sep (x # y # xs) = x @ sep @ js_join sep (y # xs)"

fun starts_with :: "string \<Rightarrow> string \<Rightarrow> bool" where
  "starts_with [] s = True"
| "starts_with (p # ps) [] = False"
| "starts_with (p # ps) (x # xs) = (p = x \<and> starts_with ps xs)"

text \<open>\<open>s.includes(p)\<close>.\<close>

fun js_includes :: "string \<Rightarrow> string \<Rightarrow> bool" where
  "js_includes p [] = (p = [])"
| "js_includes p (x # xs) = (starts_with p (x # xs) \<or> js_includes p xs)"

definition padStart :: "nat \<Rightarrow> char \<Rightarrow> string \<Rightarrow> string" where
  "padStart n c s = replicate (n - length s) c @ s"

definition padEnd :: "nat \<Rightarrow> char \<Rightarrow> string \<Rightarrow> string" where
  "padEnd n c s = s @ replicate (n - length s) c"

text \<open>\<open>JSON.stringify(s)\<close> for a string.\<close>

definition json_escape :: "char \<Rightarrow> string" where
  "json_escape c = (let n = of_char c :: nat; hex = (\<lambda>d. if d < 10 then char_of (48 + d) else char_of (87 + d)) in
     if n = 34 then [CHR 0x5C, CHR 0x22]
     else if n = 92 then [CHR 0x5C, CHR 0x5C]
     else if n = 8 then [CHR 0x5C, CHR ''b''] else if n = 9 then [CHR 0x5C, CHR ''t'']
     else if n = 10 then [CHR 0x5C, CHR ''n''] else if n = 12 then [CHR 0x5C, CHR ''f'']
     else if n = 13 then [CHR 0x5C, CHR ''r'']
     else if n < 32 then CHR 0x5C # ''u00'' @ [hex (n div 16), hex (n mod 16)]
     else [c])"

definition json_string :: "string \<Rightarrow> string" where
  "json_string s = [CHR 0x22] @ concat (map json_escape s) @ [CHR 0x22]"

text \<open>\<open>String(n)\<close> for an integer, and the value of a digit string.\<close>

definition digit_char :: "nat \<Rightarrow> char" where
  "digit_char d = char_of (48 + d)"

definition is_digit :: "char \<Rightarrow> bool" where
  "is_digit c \<longleftrightarrow> 48 \<le> (of_char c :: nat) \<and> (of_char c :: nat) \<le> 57"

definition digit_val :: "char \<Rightarrow> nat" where
  "digit_val c = of_char c - 48"

fun show_nat :: "nat \<Rightarrow> string" where
  "show_nat n = (if n < 10 then [digit_char n] else show_nat (n div 10) @ [digit_char (n mod 10)])"

declare show_nat.simps [simp del]

definition show_int :: "int \<Rightarrow> string" where
  "show_int i = (if i < 0 then CHR ''-'' # show_nat (nat (- i)) else show_nat (nat i))"

definition digits_val :: "string \<Rightarrow> nat" where
  "digits_val s = foldl (\<lambda>v c. 10 * v + digit_val c) 0 s"

lemma digit_char_lt [simp]: "d < 10 \<Longrightarrow> is_digit (digit_char d) \<and> digit_val (digit_char d) = d"
  by (simp add: is_digit_def digit_val_def digit_char_def)

lemma digit_chars [simp]:
  "digit_char 0 = CHR ''0''" "digit_char 1 = CHR ''1''" "digit_char (Suc 0) = CHR ''1''" "digit_char 2 = CHR ''2''"
  "digit_char 3 = CHR ''3''" "digit_char 4 = CHR ''4''" "digit_char 5 = CHR ''5''" "digit_char 6 = CHR ''6''"
  "digit_char 7 = CHR ''7''" "digit_char 8 = CHR ''8''" "digit_char 9 = CHR ''9''"
  by code_simp+

lemma show_nat_digits: "\<forall>c \<in> set (show_nat n). is_digit c"
proof (induction n rule: show_nat.induct)
  case (1 n)
  then show ?case by (subst show_nat.simps) auto
qed

lemma show_nat_nonempty [simp]: "show_nat n \<noteq> []"
  by (subst show_nat.simps) simp

lemma digits_val_snoc: "digits_val (s @ [c]) = 10 * digits_val s + digit_val c"
  by (simp add: digits_val_def)

lemma digits_val_show_nat [simp]: "digits_val (show_nat n) = n"
proof (induction n rule: show_nat.induct)
  case (1 n)
  show ?case
  proof (cases "n < 10")
    case True
    then show ?thesis by (subst show_nat.simps) (simp add: digits_val_def)
  next
    case False
    with "1.IH" show ?thesis by (subst show_nat.simps) (simp add: digits_val_snoc)
  qed
qed

lemma show_nat_inj: "show_nat m = show_nat n \<Longrightarrow> m = n"
  by (metis digits_val_show_nat)

lemma js_split_nonempty [simp]: "js_split c s \<noteq> []"
  by (induction s) (auto split: list.splits)

lemma js_split_join:
  assumes "\<forall>p \<in> set ps. c \<notin> set p" "ps \<noteq> []"
  shows "js_split c (js_join [c] ps) = ps"
proof -
  have one: "js_split c (p @ c # s) = p # js_split c s" if "c \<notin> set p" for p s
    using that by (induction p) auto
  have last: "js_split c p = [p]" if "c \<notin> set p" for p
    using that by (induction p) auto
  show ?thesis using assms
    by (induction "[c]" ps rule: js_join.induct) (auto simp: one last)
qed

section \<open>Tables: lists of rows with a key\<close>

definition find_row :: "('r \<Rightarrow> 'k) \<Rightarrow> 'k \<Rightarrow> 'r list \<Rightarrow> 'r option" where
  "find_row key k rows = find (\<lambda>r. key r = k) rows"

definition update_row :: "('r \<Rightarrow> 'k) \<Rightarrow> 'r \<Rightarrow> 'r list \<Rightarrow> 'r list" where
  "update_row key r rows = map (\<lambda>x. if key x = key r then r else x) rows"

lemma find_row_simps [simp]:
  "find_row key k [] = None"
  "find_row key k (r # rs) = (if key r = k then Some r else find_row key k rs)"
  by (simp_all add: find_row_def)

lemma find_row_key: "find_row key k rows = Some r \<Longrightarrow> key r = k"
  by (induction rows) (auto split: if_splits)

lemma find_row_in: "find_row key k rows = Some r \<Longrightarrow> r \<in> set rows"
  by (induction rows) (auto split: if_splits)

lemma find_row_update [simp]:
  "find_row key k (update_row key r rows) =
     (if k = key r then (if find_row key k rows = None then None else Some r) else find_row key k rows)"
  by (induction rows) (auto simp: update_row_def)

lemma find_row_append:
  "find_row key k (xs @ ys) = (case find_row key k xs of None \<Rightarrow> find_row key k ys | Some r \<Rightarrow> Some r)"
  by (induction xs) auto

lemma map_key_update [simp]: "map key (update_row key r rows) = map key rows"
  by (auto simp: update_row_def)

lemma find_row_None_iff: "find_row key k rows = None \<longleftrightarrow> k \<notin> key ` set rows"
  by (induction rows) auto

lemma find_row_member:
  "distinct (map key rows) \<Longrightarrow> r \<in> set rows \<Longrightarrow> find_row key (key r) rows = Some r"
  by (induction rows) (auto simp: rev_image_eqI)

lemma sum_list_update_row:
  fixes f :: "'r \<Rightarrow> int"
  assumes "distinct (map key rows)" "find_row key (key r) rows = Some old"
  shows "sum_list (map f (update_row key r rows)) = sum_list (map f rows) + f r - f old"
  using assms
proof (induction rows)
  case Nil
  then show ?case by simp
next
  case (Cons x xs)
  show ?case
  proof (cases "key x = key r")
    case True
    moreover have "key x \<notin> key ` set xs" using Cons.prems(1) by simp
    ultimately have "key y \<noteq> key r" if "y \<in> set xs" for y
      using that by (metis image_eqI)
    then have "update_row key r xs = xs"
      by (auto simp: update_row_def intro!: map_idI)
    with True Cons.prems show ?thesis by (simp add: update_row_def)
  next
    case False
    with Cons show ?thesis by (simp add: update_row_def)
  qed
qed

section \<open>JavaScript maps and objects\<close>

text \<open>\<open>m.set(k, v)\<close> or \<open>{ ...m, k: v }\<close> on an association list in insertion order.\<close>

definition map_set :: "'k \<Rightarrow> 'v \<Rightarrow> ('k \<times> 'v) list \<Rightarrow> ('k \<times> 'v) list" where
  "map_set k v m = (if k \<in> fst ` set m then map (\<lambda>(x, y). (x, if x = k then v else y)) m else m @ [(k, v)])"

lemma map_of_map_set: "map_of (map_set k v m) x = (if x = k then Some v else map_of m x)"
proof (cases "k \<in> fst ` set m")
  case True
  have "map_of (map (\<lambda>(x, y). (x, if x = k then v else y)) m) x = map_option (\<lambda>y. if x = k then v else y) (map_of m x)"
    by (induction m) (simp_all split: prod.splits)
  moreover obtain y where "map_of m k = Some y" using True by (metis map_of_eq_None_iff not_None_eq)
  ultimately show ?thesis using True by (cases "x = k") (simp_all add: map_set_def option.map_ident)
next
  case False
  then have "map_of m k = None" by (simp add: map_of_eq_None_iff)
  with False show ?thesis by (auto simp: map_set_def map_add_def split: option.splits)
qed

lemma keys_map_set: "map fst (map_set k v m) = (if k \<in> fst ` set m then map fst m else map fst m @ [k])"
  by (auto simp: map_set_def)

lemma distinct_map_set: "distinct (map fst m) \<Longrightarrow> distinct (map fst (map_set k v m))"
  by (auto simp: keys_map_set)

lemma map_set_set [simp]: "map_set k v (map_set k w m) = map_set k v m"
proof (cases "k \<in> fst ` set m")
  case True
  then have "k \<in> fst ` set (map_set k w m)" by (metis keys_map_set list.set_map)
  with True show ?thesis by (auto simp: map_set_def)
next
  case False
  have "(if x = k then v else y) = y" if "(x, y) \<in> set m" for x y
    using False that by force
  then have "map (\<lambda>(x, y). (x, if x = k then v else y)) m = m" by (auto intro: map_idI)
  with False show ?thesis by (simp add: map_set_def)
qed

lemma map_set_same: "distinct (map fst m) \<Longrightarrow> map_of m k = Some v \<Longrightarrow> map_set k v m = m"
proof -
  assume d: "distinct (map fst m)" and k: "map_of m k = Some v"
  have "y = v" if "(k, y) \<in> set m" for y
    using that d k by (metis map_of_is_SomeI option.inject)
  moreover have "k \<in> fst ` set m" using k by (metis map_of_eq_None_iff option.distinct(1))
  moreover have "map (\<lambda>(x, y). (x, if x = k then v else y)) m = m"
    using calculation(1) by (intro map_idI) auto
  ultimately show ?thesis by (simp add: map_set_def)
qed

section \<open>Splitting\<close>

lemma js_split_append: "js_split c (xs @ c # ys) = js_split c xs @ js_split c ys"
  by (induction xs) (auto split: list.splits)

lemma js_split_single: "c \<notin> set xs \<Longrightarrow> js_split c xs = [xs]"
  by (induction xs) auto

lemma js_join_Cons_Cons: "js_join sep ((x # p) # ps) = x # js_join sep (p # ps)"
  by (cases ps) simp_all

lemma js_join_split [simp]: "js_join [c] (js_split c s) = s"
proof (induction s)
  case (Cons x s)
  then show ?case by (cases "js_split c s") (auto simp: js_join_Cons_Cons)
qed simp

end
