(* ===== verification/DomainErrors.thy ===== *)
theory DomainErrors
  imports Prelude
begin

text \<open>
  Business errors (\<open>src/src/common/errors/domain.errors.ts\<close>) and their translation into HTTP
  responses (\<open>src/src/common/filters/domain-exception.filter.ts\<close>). The five subclasses of
  \<open>DomainError\<close> are the constructors of \<open>error_class\<close>; any other thrown \<open>Error\<close> of the program, of
  a library or of the database is \<open>PlainError\<close> with its message, and the framework's own
  \<open>HttpException\<close> carries a status and a body.
\<close>

datatype error_class =
  NotFound | BusinessRule | InvalidStateTransition | FraudSuspected | DependencyUnavailable

datatype detail = DNum int | DText string | DList "string list"

datatype http_body = TextBody string | ObjectBody "string option"

datatype err =
    DomainError error_class string "(string \<times> detail) list option"
  | HttpException nat http_body
  | PlainError string

abbreviation "NotFoundError m \<equiv> DomainError NotFound m None"
abbreviation "BusinessRuleError m \<equiv> DomainError BusinessRule m None"
abbreviation "InvalidStateTransitionError m \<equiv> DomainError InvalidStateTransition m None"
abbreviation "DependencyUnavailableError m \<equiv> DomainError DependencyUnavailable m None"

fun error_code :: "error_class \<Rightarrow> string" where
  "error_code NotFound = ''NOT_FOUND''"
| "error_code BusinessRule = ''BUSINESS_RULE_VIOLATION''"
| "error_code InvalidStateTransition = ''INVALID_STATE_TRANSITION''"
| "error_code FraudSuspected = ''FRAUD_SUSPECTED''"
| "error_code DependencyUnavailable = ''DEPENDENCY_UNAVAILABLE''"

fun http_status :: "error_class \<Rightarrow> nat" where
  "http_status NotFound = 404"
| "http_status BusinessRule = 422"
| "http_status InvalidStateTransition = 409"
| "http_status FraudSuspected = 403"
| "http_status DependencyUnavailable = 503"

text \<open>\<open>(error as Error).message\<close>.\<close>

fun err_message :: "err \<Rightarrow> string" where
  "err_message (DomainError c m d) = m"
| "err_message (HttpException s b) = (case b of TextBody t \<Rightarrow> t | ObjectBody m \<Rightarrow> (case m of None \<Rightarrow> [] | Some t \<Rightarrow> t))"
| "err_message (PlainError m) = m"

record http_response =
  resp_status :: nat
  resp_error :: string
  resp_message :: "string option"
  resp_details :: "(string \<times> detail) list option"

fun exception_filter :: "err \<Rightarrow> http_response" where
  "exception_filter (DomainError c m d) =
     \<lparr>resp_status = http_status c, resp_error = error_code c, resp_message = Some m, resp_details = d\<rparr>"
| "exception_filter (HttpException s b) =
     \<lparr>resp_status = s, resp_error = ''HTTP_ERROR'',
      resp_message = (case b of TextBody t \<Rightarrow> Some t | ObjectBody m \<Rightarrow> m), resp_details = None\<rparr>"
| "exception_filter (PlainError m) =
     \<lparr>resp_status = 500, resp_error = ''INTERNAL_ERROR'',
      resp_message = Some ''Something went wrong'', resp_details = None\<rparr>"

lemma http_status_inj: "http_status c = http_status d \<longleftrightarrow> c = d"
  by (cases c; cases d) auto

lemma error_code_inj: "error_code c = error_code d \<longleftrightarrow> c = d"
  by (cases c; cases d) auto

lemma http_status_not_500 [simp]: "http_status c \<noteq> 500"
  by (cases c) auto

end
