(* ===== verification/Entities.thy ===== *)
theory Entities
  imports DomainErrors
begin

text \<open>
  The persistent data (\<open>src/src/database/entities/*.ts\<close>, with the constraints of
  \<open>src/src/database/migrations/1726000000000-InitialSchema.ts\<close>) and the interface the services use
  to reach it.

  PostgreSQL and TypeORM are not part of the repository. The calls the services make on an
  \<open>EntityManager\<close> are the fields of the record \<open>entity_manager\<close>, an argument of every service
  operation of the model; what the services rely on is the locale \<open>entity_store\<close>. The record
  \<open>tables\<close> is the schema of the migration read as lists of rows with its primary keys and its
  \<open>CHECK (balance_minor >= 0)\<close>, and \<open>tables_manager\<close> the calls on it; it satisfies the locale.

  Database timestamps are integers in microseconds (the resolution of \<open>timestamptz\<close>), JavaScript
  dates integers in milliseconds.
\<close>

datatype AccountType = SAVINGS | CURRENT | FIXED_DEPOSIT

datatype AccountStatus = PENDING | ACTIVE | FROZEN | CLOSED

datatype LedgerEntryType =
  DEPOSIT | WITHDRAWAL | TRANSFER_IN | TRANSFER_OUT | FEE | INTEREST | REVERSAL

datatype LoanStatus = APPROVED | REJECTED | MANUAL_REVIEW

fun type_name :: "AccountType \<Rightarrow> string" where
  "type_name SAVINGS = ''SAVINGS''"
| "type_name CURRENT = ''CURRENT''"
| "type_name FIXED_DEPOSIT = ''FIXED_DEPOSIT''"

fun status_name :: "AccountStatus \<Rightarrow> string" where
  "status_name PENDING = ''PENDING''"
| "status_name ACTIVE = ''ACTIVE''"
| "status_name FROZEN = ''FROZEN''"
| "status_name CLOSED = ''CLOSED''"

fun loan_status_name :: "LoanStatus \<Rightarrow> string" where
  "loan_status_name APPROVED = ''APPROVED''"
| "loan_status_name REJECTED = ''REJECTED''"
| "loan_status_name MANUAL_REVIEW = ''MANUAL_REVIEW''"

record account =
  acc_id :: string
  accountNumber :: string
  ownerName :: string
  acc_type :: AccountType
  acc_currency :: string
  productCode :: "string option"
  balanceMinor :: int
  dailyWithdrawalLimitMinor :: int
  annualInterestRate :: rat
  acc_status :: AccountStatus
  acc_version :: nat
  acc_createdAt :: int

record ledger_entry =
  entry_id :: string
  entry_accountId :: string
  entry_type :: LedgerEntryType
  entry_amountMinor :: int
  entry_balanceAfterMinor :: int
  entry_reference :: string
  entry_description :: string
  entry_createdAt :: int

text \<open>The columns \<open>manager.insert(LedgerEntryEntity, ...)\<close> supplies; the database fills the rest.\<close>

record new_entry =
  ne_accountId :: string
  ne_type :: LedgerEntryType
  ne_amountMinor :: int
  ne_balanceAfterMinor :: int
  ne_reference :: string
  ne_description :: string

definition entry_of :: "string \<Rightarrow> int \<Rightarrow> new_entry \<Rightarrow> ledger_entry" where
  "entry_of uuid now e =
     \<lparr>entry_id = uuid, entry_accountId = ne_accountId e, entry_type = ne_type e,
      entry_amountMinor = ne_amountMinor e, entry_balanceAfterMinor = ne_balanceAfterMinor e,
      entry_reference = ne_reference e, entry_description = ne_description e, entry_createdAt = now\<rparr>"

lemma entry_of_simps [simp]:
  "entry_id (entry_of u t e) = u" "entry_accountId (entry_of u t e) = ne_accountId e"
  "entry_type (entry_of u t e) = ne_type e" "entry_amountMinor (entry_of u t e) = ne_amountMinor e"
  "entry_balanceAfterMinor (entry_of u t e) = ne_balanceAfterMinor e"
  "entry_reference (entry_of u t e) = ne_reference e"
  "entry_description (entry_of u t e) = ne_description e" "entry_createdAt (entry_of u t e) = t"
  by (simp_all add: entry_of_def)

section \<open>The calls on the entity manager\<close>

text \<open>
  \<open>em_findAccount\<close> is \<open>findOne\<close> by primary key, \<open>em_saveAccount\<close> is \<open>save\<close> of a loaded entity
  (\<open>None\<close>: the database rejects the row and the call throws; otherwise the entity comes back with
  its \<open>@VersionColumn\<close> set to the stored version plus one, whatever version the entity was loaded with), \<open>em_findEntries\<close> is \<open>find\<close> with a \<open>where\<close> on the ledger table,
  \<open>em_insertEntry\<close> the \<open>insert\<close>.
\<close>

record 'db entity_manager =
  em_findAccount :: "'db \<Rightarrow> string \<Rightarrow> account option"
  em_saveAccount :: "'db \<Rightarrow> account \<Rightarrow> ('db \<times> account) option"
  em_findEntries :: "'db \<Rightarrow> (ledger_entry \<Rightarrow> bool) \<Rightarrow> ledger_entry list"
  em_insertEntry :: "'db \<Rightarrow> new_entry \<Rightarrow> 'db"

text \<open>
  What the services rely on. \<open>entries\<close> is the content of the ledger table. A query returns the
  rows that satisfy its condition, in an order the law leaves open.
\<close>

locale entity_store =
  fixes M :: "'db entity_manager"
    and entries :: "'db \<Rightarrow> ledger_entry list"
  assumes find_key: "em_findAccount M db i = Some a \<Longrightarrow> acc_id a = i"
    and save_Some: "em_saveAccount M db a = Some (db', a') \<Longrightarrow> em_findAccount M db (acc_id a) = Some old \<Longrightarrow>
      a' = a\<lparr>acc_version := Suc (acc_version old)\<rparr> \<and> 0 \<le> balanceMinor a \<and> entries db' = entries db \<and>
      em_findAccount M db' = (em_findAccount M db)(acc_id a := Some a')"
    and save_None: "em_saveAccount M db a = None \<Longrightarrow> balanceMinor a < 0"
    and find_entries: "mset (em_findEntries M db P) = mset (filter P (entries db))"
    and insert_entries: "\<exists>u t. entries (em_insertEntry M db e) = entries db @ [entry_of u t e]"
    and insert_accounts: "em_findAccount M (em_insertEntry M db e) = em_findAccount M db"
begin

lemma set_find_entries: "set (em_findEntries M db P) = {e \<in> set (entries db). P e}"
  using find_entries [of db P] by (metis mset_eq_setD set_filter)

lemma find_entries_Nil_iff: "em_findEntries M db P = [] \<longleftrightarrow> (\<forall>e \<in> set (entries db). \<not> P e)"
  using set_find_entries [of db P] by (metis (no_types, lifting) empty_iff empty_set mem_Collect_eq set_empty2 equals0I)

lemma sum_find_entries:
  fixes f :: "ledger_entry \<Rightarrow> int"
  shows "sum_list (map f (em_findEntries M db P)) = sum_list (map f (filter P (entries db)))"
  using find_entries [of db P] by (metis mset_map sum_mset_sum_list)

end

section \<open>The tables of the migration\<close>

record tables =
  accountRows :: "account list"
  entryRows :: "ledger_entry list"
  dbNow :: int
  dbUuids :: "nat \<Rightarrow> string"
  dbUuidCount :: nat

definition tables_save :: "tables \<Rightarrow> account \<Rightarrow> (tables \<times> account) option" where
  "tables_save db a =
     (if balanceMinor a < 0 then None
      else let a' = a\<lparr>acc_version := Suc (case find_row acc_id (acc_id a) (accountRows db) of
                 None \<Rightarrow> acc_version a | Some old \<Rightarrow> acc_version old)\<rparr> in
        Some (db\<lparr>accountRows := update_row acc_id a' (accountRows db)\<rparr>, a'))"

definition tables_insert :: "tables \<Rightarrow> new_entry \<Rightarrow> tables" where
  "tables_insert db e =
     db\<lparr>entryRows := entryRows db @ [entry_of (dbUuids db (dbUuidCount db)) (dbNow db) e],
        dbUuidCount := Suc (dbUuidCount db)\<rparr>"

definition tables_manager :: "tables entity_manager" where
  "tables_manager =
     \<lparr>em_findAccount = (\<lambda>db i. find_row acc_id i (accountRows db)),
      em_saveAccount = tables_save,
      em_findEntries = (\<lambda>db P. sort_key entry_createdAt (filter P (entryRows db))),
      em_insertEntry = tables_insert\<rparr>"

lemma tables_manager_simps [simp]:
  "em_findAccount tables_manager db i = find_row acc_id i (accountRows db)"
  "em_saveAccount tables_manager = tables_save"
  "em_findEntries tables_manager db P = sort_key entry_createdAt (filter P (entryRows db))"
  "em_insertEntry tables_manager = tables_insert"
  by (simp_all add: tables_manager_def)

lemma tables_store: "entity_store tables_manager entryRows"
proof
  fix db db' :: tables and a a' old :: account and i :: string and P e
  show "em_findAccount tables_manager db i = Some a \<Longrightarrow> acc_id a = i"
    by (auto dest: find_row_key)
  show "em_saveAccount tables_manager db a = None \<Longrightarrow> balanceMinor a < 0"
    by (simp add: tables_save_def Let_def split: if_splits)
  show "mset (em_findEntries tables_manager db P) = mset (filter P (entryRows db))"
    by simp
  show "\<exists>u t. entryRows (em_insertEntry tables_manager db e) = entryRows db @ [entry_of u t e]"
    by (auto simp: tables_insert_def)
  show "em_findAccount tables_manager (em_insertEntry tables_manager db e) = em_findAccount tables_manager db"
    by (rule ext) (simp add: tables_insert_def)
  assume "em_saveAccount tables_manager db a = Some (db', a')"
    "em_findAccount tables_manager db (acc_id a) = Some old"
  then show "a' = a\<lparr>acc_version := Suc (acc_version old)\<rparr> \<and> 0 \<le> balanceMinor a \<and> entryRows db' = entryRows db \<and>
      em_findAccount tables_manager db' = (em_findAccount tables_manager db)(acc_id a := Some a')"
    by (auto simp: tables_save_def Let_def fun_eq_iff split: if_splits)
qed

interpretation tdb: entity_store tables_manager entryRows
  by (rule tables_store)

end
