(* ===== verification/AccountState.thy ===== *)
theory AccountState
  imports Entities
begin

text \<open>
  The account lifecycle (\<open>src/src/modules/accounts/domain/account-state.ts\<close>). The state object of the
  code is determined by its status, so a state is an \<open>AccountStatus\<close>; each method of \<open>AccountState\<close>
  is a function with one equation per concrete class, the inherited default being the illegal
  transition. \<open>lifecycle\<close> is the diagram of the source's comment as a step relation, and the
  methods implement exactly it.
\<close>

fun canDeposit :: "AccountStatus \<Rightarrow> bool" where
  "canDeposit PENDING = True"
| "canDeposit ACTIVE = True"
| "canDeposit FROZEN = True"
| "canDeposit CLOSED = False"

fun canWithdraw :: "AccountStatus \<Rightarrow> bool" where
  "canWithdraw ACTIVE = True"
| "canWithdraw _ = False"

definition illegal :: "string \<Rightarrow> AccountStatus \<Rightarrow> err + AccountStatus" where
  "illegal action s =
     Inl (InvalidStateTransitionError (''Cannot '' @ action @ '' an account that is '' @ status_name s))"

definition closeIfEmpty :: "int \<Rightarrow> err + AccountStatus" where
  "closeIfEmpty balance =
     (if balance \<noteq> 0
      then Inl (InvalidStateTransitionError ''Withdraw the remaining balance before closing the account'')
      else Inr CLOSED)"

fun state_activate :: "AccountStatus \<Rightarrow> err + AccountStatus" where
  "state_activate PENDING = Inr ACTIVE"
| "state_activate s = illegal ''activate'' s"

fun state_freeze :: "AccountStatus \<Rightarrow> err + AccountStatus" where
  "state_freeze ACTIVE = Inr FROZEN"
| "state_freeze s = illegal ''freeze'' s"

fun state_unfreeze :: "AccountStatus \<Rightarrow> err + AccountStatus" where
  "state_unfreeze FROZEN = Inr ACTIVE"
| "state_unfreeze s = illegal ''unfreeze'' s"

fun state_close :: "AccountStatus \<Rightarrow> int \<Rightarrow> err + AccountStatus" where
  "state_close CLOSED b = illegal ''close'' CLOSED"
| "state_close s b = closeIfEmpty b"

datatype account_action = Activate | Freeze | Unfreeze | Close

text \<open>The dispatch of \<open>AccountsService.changeStatus\<close> on the requested action.\<close>

fun next_state :: "account_action \<Rightarrow> AccountStatus \<Rightarrow> int \<Rightarrow> err + AccountStatus" where
  "next_state Activate s b = state_activate s"
| "next_state Freeze s b = state_freeze s"
| "next_state Unfreeze s b = state_unfreeze s"
| "next_state Close s b = state_close s b"

section \<open>The diagram\<close>

inductive lifecycle :: "AccountStatus \<Rightarrow> account_action \<Rightarrow> int \<Rightarrow> AccountStatus \<Rightarrow> bool" where
  activate: "lifecycle PENDING Activate b ACTIVE"
| freeze: "lifecycle ACTIVE Freeze b FROZEN"
| unfreeze: "lifecycle FROZEN Unfreeze b ACTIVE"
| close: "s \<noteq> CLOSED \<Longrightarrow> lifecycle s Close 0 CLOSED"

code_pred lifecycle .

inductive_cases lifecycle_from_closed [elim!]: "lifecycle CLOSED a b s"
inductive_cases lifecycle_to_closed: "lifecycle s a b CLOSED"

inductive_simps lifecycle_simps [simp]:
  "lifecycle s Activate b t" "lifecycle s Freeze b t" "lifecycle s Unfreeze b t" "lifecycle s Close b t"

lemma next_state_lifecycle: "next_state a s b = Inr t \<longleftrightarrow> lifecycle s a b t"
  by (cases a; cases s) (auto simp: illegal_def closeIfEmpty_def)

lemma next_state_error:
  "next_state a s b = Inl e \<Longrightarrow> \<exists>m. e = InvalidStateTransitionError m"
  by (cases a; cases s) (auto simp: illegal_def closeIfEmpty_def split: if_splits)

text \<open>A run of the lifecycle: the balance may be anything when each action is taken.\<close>

inductive lifecycle_run :: "AccountStatus \<Rightarrow> account_action list \<Rightarrow> AccountStatus \<Rightarrow> bool" where
  stay: "lifecycle_run s [] s"
| move: "lifecycle s a b t \<Longrightarrow> lifecycle_run t acts u \<Longrightarrow> lifecycle_run s (a # acts) u"

inductive_cases lifecycle_run_Cons: "lifecycle_run s (a # acts) u"

lemma lifecycle_run_closed: "lifecycle_run CLOSED acts u \<Longrightarrow> acts = [] \<and> u = CLOSED"
  by (auto elim: lifecycle_run.cases)

text \<open>An account is pending only before its first activation.\<close>

lemma lifecycle_not_pending: "lifecycle s a b t \<Longrightarrow> t \<noteq> PENDING"
  by (auto elim: lifecycle.cases)

end
