(* ===== verification/Validation.thy ===== *)
theory Validation
  imports AccountState
begin

text \<open>
  The validation chain (\<open>src/src/modules/transactions/validation/transaction-validation.chain.ts\<close>).
  A handler is its \<open>check\<close>; a chain is the list of handlers linked by \<open>setNext\<close>; \<open>validate\<close> runs
  them in order and stops at the first that throws. The amount is a rational, since the first
  handler is what rejects a number that is not an integer.
\<close>

datatype operation = OpDeposit | OpWithdrawal

fun operation_name :: "operation \<Rightarrow> string" where
  "operation_name OpDeposit = ''DEPOSIT''"
| "operation_name OpWithdrawal = ''WITHDRAWAL''"

record validation_context =
  vc_operation :: operation
  vc_amountMinor :: rat
  vc_account :: account
  vc_withdrawnTodayMinor :: int

type_synonym handler = "validation_context \<Rightarrow> err + unit"

definition isInteger :: "rat \<Rightarrow> bool" where
  "isInteger x \<longleftrightarrow> of_int \<lfloor>x\<rfloor> = x"

lemma isInteger_of_int [simp]: "isInteger (of_int n)"
  by (simp add: isInteger_def)

lemma isInteger_numeral [simp]: "isInteger (numeral n)"
  using isInteger_of_int [of "numeral n"] by simp

definition positiveAmount :: handler where
  "positiveAmount c = require (\<not> (\<not> isInteger (vc_amountMinor c) \<or> vc_amountMinor c \<le> 0))
     (BusinessRuleError ''Amount must be a positive whole number of minor units'')"

definition accountStatus :: handler where
  "accountStatus c = (let
     allowed = (case vc_operation c of
         OpDeposit \<Rightarrow> canDeposit (acc_status (vc_account c))
       | OpWithdrawal \<Rightarrow> canWithdraw (acc_status (vc_account c)))
   in require allowed
        (DomainError InvalidStateTransition
           (operation_name (vc_operation c) @ '' is not allowed on a '' @
              status_name (acc_status (vc_account c)) @ '' account'')
           (Some [(''accountId'', DText (acc_id (vc_account c)))])))"

definition sufficientFunds :: handler where
  "sufficientFunds c =
     require (\<not> (vc_operation c = OpWithdrawal \<and> of_int (balanceMinor (vc_account c)) < vc_amountMinor c))
       (DomainError BusinessRule ''Insufficient funds''
          (Some [(''balanceMinor'', DNum (balanceMinor (vc_account c))), (''requestedMinor'', DNum \<lfloor>vc_amountMinor c\<rfloor>)]))"

definition dailyLimit :: handler where
  "dailyLimit c =
     (if vc_operation c \<noteq> OpWithdrawal then Inr ()
      else let limit = dailyWithdrawalLimitMinor (vc_account c) in
        require (\<not> (of_int (vc_withdrawnTodayMinor c) + vc_amountMinor c > of_int limit))
          (DomainError BusinessRule ''Daily withdrawal limit exceeded''
             (Some [(''limitMinor'', DNum limit), (''usedTodayMinor'', DNum (vc_withdrawnTodayMinor c))])))"

fun run_chain :: "handler list \<Rightarrow> handler" where
  "run_chain [] c = Inr ()"
| "run_chain (h # hs) c = ebind (h c) (\<lambda>_. run_chain hs c)"

definition transactionValidationChain :: "handler list" where
  "transactionValidationChain = [positiveAmount, accountStatus, sufficientFunds, dailyLimit]"

text \<open>The check the ledger makes: the default chain on an integer amount.\<close>

definition validate :: "operation \<Rightarrow> int \<Rightarrow> account \<Rightarrow> int \<Rightarrow> err + unit" where
  "validate op amount account withdrawnToday =
     run_chain transactionValidationChain
       \<lparr>vc_operation = op, vc_amountMinor = of_int amount, vc_account = account,
        vc_withdrawnTodayMinor = withdrawnToday\<rparr>"

lemmas handler_defs = positiveAmount_def accountStatus_def sufficientFunds_def dailyLimit_def Let_def

text \<open>A chain accepts exactly what every one of its handlers accepts, and reports the first refusal.\<close>

lemma run_chain_ok_iff: "run_chain hs c = Inr () \<longleftrightarrow> (\<forall>h \<in> set hs. h c = Inr ())"
  by (induction hs) (auto simp: result_simps)

lemma run_chain_error:
  "run_chain hs c = Inl e \<Longrightarrow> \<exists>pre h post. hs = pre @ h # post \<and> (\<forall>g \<in> set pre. g c = Inr ()) \<and> h c = Inl e"
proof (induction hs)
  case Nil
  then show ?case by simp
next
  case (Cons g hs)
  show ?case
  proof (cases "g c")
    case (Inl e')
    with Cons.prems have "g # hs = [] @ g # hs \<and> (\<forall>f \<in> set []. f c = Inr ()) \<and> g c = Inl e" by simp
    then show ?thesis by blast
  next
    case (Inr u)
    with Cons obtain pre h post where "hs = pre @ h # post" "\<forall>f \<in> set pre. f c = Inr ()" "h c = Inl e"
      by auto
    with Inr have "g # hs = (g # pre) @ h # post \<and> (\<forall>f \<in> set (g # pre). f c = Inr ()) \<and> h c = Inl e" by simp
    then show ?thesis by blast
  qed
qed

definition withdrawal_ok :: "int \<Rightarrow> account \<Rightarrow> int \<Rightarrow> bool" where
  "withdrawal_ok amount a used \<longleftrightarrow> 0 < amount \<and> acc_status a = ACTIVE \<and> amount \<le> balanceMinor a \<and>
     used + amount \<le> dailyWithdrawalLimitMinor a"

definition deposit_ok :: "int \<Rightarrow> account \<Rightarrow> bool" where
  "deposit_ok amount a \<longleftrightarrow> 0 < amount \<and> acc_status a \<noteq> CLOSED"

lemma canWithdraw_iff: "canWithdraw s \<longleftrightarrow> s = ACTIVE"
  by (cases s) auto

lemma canDeposit_iff: "canDeposit s \<longleftrightarrow> s \<noteq> CLOSED"
  by (cases s) auto

lemma validate_withdrawal_iff [result_simps]:
  "validate OpWithdrawal amount a used = Inr u \<longleftrightarrow> withdrawal_ok amount a used"
proof -
  have "of_int used + of_int amount \<le> (of_int l :: rat) \<longleftrightarrow> used + amount \<le> l" for l
    by (simp flip: of_int_add)
  then show ?thesis
    by (auto simp: validate_def transactionValidationChain_def result_simps handler_defs
        withdrawal_ok_def canWithdraw_iff not_less not_le)
qed

lemma validate_deposit_iff [result_simps]:
  "validate OpDeposit amount a used = Inr u \<longleftrightarrow> deposit_ok amount a"
  by (auto simp: validate_def transactionValidationChain_def result_simps handler_defs
      deposit_ok_def canDeposit_iff not_less not_le)

lemma validate_accepts:
  "deposit_ok amount a \<Longrightarrow> validate OpDeposit amount a used = Inr ()"
  "withdrawal_ok amount a used \<Longrightarrow> validate OpWithdrawal amount a used = Inr ()"
  by (simp_all add: validate_deposit_iff validate_withdrawal_iff)

end
