(* ===== verification/JSNumber.thy ===== *)
theory JSNumber
  imports Prelude "HOL-Library.Log_Nat"
begin

text \<open>
  JavaScript numbers. Amounts of money are integers in minor units and are modelled as \<open>int\<close>:
  a JavaScript number holds every integer of absolute value up to \<open>2 ^ 53\<close> exactly (\<open>dbl_of_int\<close>).
  Where the code divides or multiplies by a fractional rate the result is rounded to the nearest
  double, ties to even. \<open>dbl\<close> is that rounding, on rationals: 53 significant bits, no subnormal
  numbers and no overflow (the amounts, rates and quotients of the program are far from both).
  Each arithmetic operation of the source on fractional values is one \<open>dbl\<close> in the model.

  The lemmas give what the components need of it: it is exact on integers up to \<open>2 ^ 53\<close>, monotone,
  and off by at most one part in \<open>2 ^ 53\<close>.
\<close>

section \<open>Round half to even\<close>

definition rne :: "rat \<Rightarrow> int" where
  "rne x = (let f = \<lfloor>x\<rfloor>; r = x - of_int f in
     if r < 1 / 2 then f else if r > 1 / 2 then f + 1 else if even f then f else f + 1)"

lemma rne_of_int [simp]: "rne (of_int n) = n"
  by (simp add: rne_def)

lemma rne_bounds: "\<lfloor>x\<rfloor> \<le> rne x" "rne x \<le> \<lfloor>x\<rfloor> + 1"
  by (simp_all add: rne_def Let_def)

lemma rne_error: "\<bar>of_int (rne x) - x\<bar> \<le> 1 / 2"
proof -
  have "of_int \<lfloor>x\<rfloor> \<le> x" "x < of_int \<lfloor>x\<rfloor> + 1" by linarith+
  then show ?thesis by (auto simp: rne_def Let_def)
qed

lemma rne_mono: "x \<le> y \<Longrightarrow> rne x \<le> rne y"
proof -
  assume le: "x \<le> y"
  show ?thesis
  proof (cases "\<lfloor>x\<rfloor> = \<lfloor>y\<rfloor>")
    case True
    with le show ?thesis by (auto simp: rne_def Let_def)
  next
    case False
    with le have "\<lfloor>x\<rfloor> + 1 \<le> \<lfloor>y\<rfloor>"
      using floor_mono [OF le] by linarith
    with rne_bounds(2) [of x] rne_bounds(1) [of y] show ?thesis by linarith
  qed
qed

section \<open>The binary exponent of a positive rational\<close>

definition ilog2 :: "rat \<Rightarrow> int" where
  "ilog2 x = (let n = fst (quotient_of x); d = snd (quotient_of x); k = bitlen n - bitlen d
     in if 0 \<le> k then (if 2 ^ nat k * d \<le> n then k else k - 1)
        else (if d \<le> n * 2 ^ nat (- k) then k else k - 1))"

lemma bitlen_bounds_rat:
  assumes "0 < n"
  shows "2 powi (bitlen n - 1) \<le> (of_int n :: rat)" "(of_int n :: rat) < 2 powi bitlen n"
proof -
  have "2 ^ nat (bitlen n - 1) \<le> n" "n < 2 ^ nat (bitlen n)"
    using bitlen_bounds [OF assms] by auto
  moreover have "1 \<le> bitlen n" using assms by (simp add: bitlen_ge_iff_power)
  moreover have "(of_int (2 ^ nat (bitlen n - 1)) :: rat) = 2 powi (bitlen n - 1)"
    "(of_int (2 ^ nat (bitlen n)) :: rat) = 2 powi bitlen n"
    using \<open>1 \<le> bitlen n\<close> by (simp_all add: power_int_def)
  ultimately show "2 powi (bitlen n - 1) \<le> (of_int n :: rat)" "(of_int n :: rat) < 2 powi bitlen n"
    by (metis of_int_le_iff, metis of_int_less_iff)
qed

lemma quotient_of_pos:
  assumes "0 < x"
  obtains n d where "quotient_of x = (n, d)" "0 < n" "0 < d" "x = of_int n / of_int d"
proof -
  obtain n d where q: "quotient_of x = (n, d)" by (cases "quotient_of x")
  have d: "0 < d" using quotient_of_denom_pos [OF q] .
  have x: "x = of_int n / of_int d" using quotient_of_div [OF q] .
  with assms d have "0 < n" by (simp add: zero_less_divide_iff)
  with q d x that show thesis by blast
qed

lemma ilog2_bounds:
  assumes "0 < x"
  shows "2 powi ilog2 x \<le> x" "x < 2 powi (ilog2 x + 1)"
proof -
  obtain n d where q: "quotient_of x = (n, d)" and n: "0 < n" and d: "0 < d"
    and x: "x = of_int n / of_int d" using quotient_of_pos [OF assms] .
  define k where "k = bitlen n - bitlen d"
  have test: "(if 0 \<le> k then 2 ^ nat k * d \<le> n else d \<le> n * 2 ^ nat (- k)) \<longleftrightarrow> 2 powi k \<le> x"
  proof (cases "0 \<le> k")
    case True
    have "2 powi k \<le> x \<longleftrightarrow> of_int (2 ^ nat k * d) \<le> (of_int n :: rat)"
      using True d by (simp add: x power_int_def pos_le_divide_eq)
    with True show ?thesis by (simp only: of_int_le_iff if_True)
  next
    case False
    have "2 powi k \<le> x \<longleftrightarrow> of_int d \<le> (of_int (n * 2 ^ nat (- k)) :: rat)"
      using False d by (simp add: x power_int_def field_simps)
    with False show ?thesis by (simp only: of_int_le_iff if_False)
  qed
  have log: "ilog2 x = (if 2 powi k \<le> x then k else k - 1)"
    using test by (auto simp: ilog2_def q k_def Let_def split: if_splits)
  have up: "x < 2 powi (k + 1)"
  proof -
    have "of_int n < (2 powi bitlen n :: rat)" using bitlen_bounds_rat(2) [OF n] .
    also have "\<dots> = 2 powi (k + 1) * 2 powi (bitlen d - 1)"
      by (simp add: k_def flip: power_int_add)
    also have "\<dots> \<le> 2 powi (k + 1) * of_int d"
      using bitlen_bounds_rat(1) [OF d] by (simp add: mult_left_mono)
    finally show ?thesis using d by (simp add: x pos_divide_less_eq)
  qed
  have low: "2 powi (k - 1) \<le> x"
  proof -
    have "2 powi (k - 1) * of_int d \<le> (2 powi (k - 1) * 2 powi bitlen d :: rat)"
      using bitlen_bounds_rat(2) [OF d] by (simp add: mult_left_mono)
    also have "\<dots> = 2 powi (bitlen n - 1)"
      by (simp add: k_def flip: power_int_add)
    also have "\<dots> \<le> of_int n" using bitlen_bounds_rat(1) [OF n] .
    finally show ?thesis using d by (simp add: x pos_le_divide_eq)
  qed
  show "2 powi ilog2 x \<le> x" "x < 2 powi (ilog2 x + 1)"
    using up low by (simp_all add: log)
qed

section \<open>Rounding to double precision\<close>

definition ulp :: "rat \<Rightarrow> rat" where
  "ulp x = 2 powi (ilog2 \<bar>x\<bar> - 52)"

definition dbl :: "rat \<Rightarrow> rat" where
  "dbl x = (if x = 0 then 0 else of_int (rne (x / ulp x)) * ulp x)"

lemma ulp_pos [simp]: "0 < ulp x"
  by (simp add: ulp_def)

lemma dbl_0 [simp]: "dbl 0 = 0"
  by (simp add: dbl_def)

lemma ulp_le: "x \<noteq> 0 \<Longrightarrow> ulp x * 2 ^ 52 \<le> \<bar>x\<bar>"
  using ilog2_bounds(1) [of "\<bar>x\<bar>"]
  by (simp add: ulp_def power_int_diff)

lemma ulp_gt: "x \<noteq> 0 \<Longrightarrow> \<bar>x\<bar> < ulp x * 2 ^ 53"
  using ilog2_bounds(2) [of "\<bar>x\<bar>"]
  by (simp add: ulp_def power_int_diff power_int_add)

lemma dbl_error_ulp: "\<bar>dbl x - x\<bar> \<le> ulp x / 2"
proof (cases "x = 0")
  case True
  then show ?thesis by (simp add: less_imp_le)
next
  case False
  have "dbl x - x = (of_int (rne (x / ulp x)) - x / ulp x) * ulp x"
    using False by (simp add: dbl_def field_simps less_imp_neq [OF ulp_pos, symmetric])
  then have "\<bar>dbl x - x\<bar> = \<bar>of_int (rne (x / ulp x)) - x / ulp x\<bar> * ulp x"
    by (simp add: abs_mult less_imp_le)
  also have "\<dots> \<le> 1 / 2 * ulp x"
    by (intro mult_right_mono rne_error) (simp add: less_imp_le)
  finally show ?thesis by simp
qed

text \<open>The relative error is at most one part in \<open>2 ^ 53\<close>.\<close>

lemma dbl_error: "\<bar>dbl x - x\<bar> \<le> \<bar>x\<bar> / 2 ^ 53"
proof (cases "x = 0")
  case True
  then show ?thesis by simp
next
  case False
  have "ulp x / 2 \<le> \<bar>x\<bar> / 2 ^ 53"
    using ulp_le [OF False] by (simp add: field_simps)
  with dbl_error_ulp [of x] show ?thesis by linarith
qed

lemma ilog2_less:
  assumes "0 < x" "x < 2 powi k"
  shows "ilog2 x < k"
proof (rule ccontr)
  assume "\<not> ilog2 x < k"
  then have "(2 powi k :: rat) \<le> 2 powi ilog2 x" by (simp add: power_int_increasing)
  with ilog2_bounds(1) [OF assms(1)] assms(2) show False by linarith
qed

lemma ilog2_mono: "0 < x \<Longrightarrow> x \<le> y \<Longrightarrow> ilog2 x \<le> ilog2 y"
  using ilog2_less [of x "ilog2 y + 1"] ilog2_bounds(2) [of y] by simp

text \<open>Integers up to \<open>2 ^ 53\<close> are doubles.\<close>

lemma dbl_scaled_int:
  assumes "\<bar>n\<bar> < 2 ^ 53" "x = of_int n * 2 powi k"
  shows "dbl x = x"
proof (cases "n = 0")
  case True
  then show ?thesis by (simp add: assms)
next
  case False
  then have x0: "0 < \<bar>x\<bar>" by (simp add: assms)
  have "\<bar>x\<bar> = of_int \<bar>n\<bar> * 2 powi k" by (simp add: assms abs_mult)
  also have "\<dots> < 2 ^ 53 * 2 powi k"
    using assms(1) by (intro mult_strict_right_mono) (simp_all flip: of_int_less_iff [where 'a = rat])
  also have "(2 ^ 53 * 2 powi k :: rat) = 2 powi (53 + k)"
    by (simp add: power_int_add)
  finally have "ilog2 \<bar>x\<bar> < 53 + k" using ilog2_less x0 by blast
  define j where "j = nat (k - (ilog2 \<bar>x\<bar> - 52))"
  have j: "k - (ilog2 \<bar>x\<bar> - 52) = int j"
    using \<open>ilog2 \<bar>x\<bar> < 53 + k\<close> by (simp add: j_def)
  have "x / ulp x = of_int n * 2 powi (k - (ilog2 \<bar>x\<bar> - 52))"
    by (subst power_int_diff) (simp_all add: assms(2) ulp_def)
  also have "\<dots> = of_int (n * 2 ^ j)"
    by (simp add: j)
  finally have q: "x / ulp x = of_int (n * 2 ^ j)" .
  then have "of_int (n * 2 ^ j) * ulp x = x"
    using ulp_pos [of x] by (metis less_irrefl nonzero_eq_divide_eq)
  with q x0 show ?thesis by (simp add: dbl_def del: of_int_mult)
qed

lemma dbl_of_int: "\<bar>n\<bar> \<le> 2 ^ 53 \<Longrightarrow> dbl (of_int n) = of_int n"
proof (cases "\<bar>n\<bar> = 2 ^ 53")
  case True
  then have "of_int n = of_int (sgn n) * (2 powi 53 :: rat)"
    by (auto simp: abs_if sgn_if split: if_splits)
  then show ?thesis by (rule dbl_scaled_int [rotated]) (auto simp: sgn_if)
next
  case False
  assume "\<bar>n\<bar> \<le> 2 ^ 53"
  with False show ?thesis by (intro dbl_scaled_int [where k = 0]) auto
qed

lemma dbl_numeral [simp]: "numeral n \<le> (2 ^ 53 :: int) \<Longrightarrow> dbl (numeral n) = numeral n"
  using dbl_of_int [of "numeral n"] by simp

section \<open>Rounding is monotone\<close>

lemma dbl_nonneg: "0 \<le> x \<Longrightarrow> 0 \<le> dbl x"
  using rne_mono [of 0 "x / ulp x"] rne_of_int [of 0]
  by (simp add: dbl_def less_imp_le divide_nonneg_pos)

lemma rne_minus: "rne (- x) = - rne x"
proof (cases "x = of_int \<lfloor>x\<rfloor>")
  case True
  then show ?thesis by (metis of_int_minus rne_of_int)
next
  case False
  then have "\<lceil>x\<rceil> = \<lfloor>x\<rfloor> + 1" by (simp add: ceiling_altdef)
  then have "\<lfloor>- x\<rfloor> = - \<lfloor>x\<rfloor> - 1" by (simp add: floor_minus)
  then show ?thesis by (auto simp: rne_def Let_def)
qed

lemma dbl_minus: "dbl (- x) = - dbl x"
  by (simp add: dbl_def ulp_def rne_minus flip: minus_divide_left)

lemma dbl_le_next_power:
  assumes "0 < x"
  shows "dbl x \<le> 2 powi (ilog2 x + 1)"
proof -
  have "x / ulp x \<le> of_int (2 ^ 53)"
    using ulp_gt [of x] assms by (simp add: pos_divide_le_eq mult.commute less_imp_le)
  then have "rne (x / ulp x) \<le> 2 ^ 53" by (metis rne_mono rne_of_int)
  then have "of_int (rne (x / ulp x)) \<le> (of_int (2 ^ 53) :: rat)" by (simp only: of_int_le_iff)
  then have "dbl x \<le> of_int (2 ^ 53) * ulp x"
    using assms by (simp add: dbl_def mult_right_mono less_imp_le)
  also have "\<dots> = 2 powi (ilog2 x + 1)"
    using assms by (simp add: ulp_def power_int_diff power_int_add)
  finally show ?thesis .
qed

lemma dbl_ge_power:
  assumes "0 < x"
  shows "2 powi ilog2 x \<le> dbl x"
proof -
  have "of_int (2 ^ 52) \<le> x / ulp x"
    using ulp_le [of x] assms by (simp add: pos_le_divide_eq mult.commute)
  then have "2 ^ 52 \<le> rne (x / ulp x)" by (metis rne_mono rne_of_int)
  then have "(of_int (2 ^ 52) :: rat) \<le> of_int (rne (x / ulp x))" by (simp only: of_int_le_iff)
  then have "of_int (2 ^ 52) * ulp x \<le> dbl x"
    using assms by (simp add: dbl_def mult_right_mono less_imp_le)
  moreover have "of_int (2 ^ 52) * ulp x = 2 powi ilog2 x"
    using assms by (simp add: ulp_def power_int_diff)
  ultimately show ?thesis by simp
qed

lemma dbl_mono_pos:
  assumes "0 < x" "x \<le> y"
  shows "dbl x \<le> dbl y"
proof (cases "ilog2 x = ilog2 y")
  case True
  with assms have u: "ulp x = ulp y" by (simp add: ulp_def)
  have "rne (x / ulp y) \<le> rne (y / ulp y)"
    using assms by (intro rne_mono divide_right_mono) (simp_all add: less_imp_le)
  then show ?thesis using assms
    by (simp add: dbl_def u mult_right_mono less_imp_le)
next
  case False
  with ilog2_mono [OF assms] have "ilog2 x + 1 \<le> ilog2 y" by simp
  then have "(2 powi (ilog2 x + 1) :: rat) \<le> 2 powi ilog2 y" by (intro power_int_increasing) auto
  with dbl_le_next_power [of x] dbl_ge_power [of y] assms show ?thesis by linarith
qed

lemma dbl_mono: "x \<le> y \<Longrightarrow> dbl x \<le> dbl y"
proof -
  assume le: "x \<le> y"
  consider "0 < x" | "x \<le> 0" "0 \<le> y" | "y < 0" by linarith
  then show ?thesis
  proof cases
    case 1
    with le show ?thesis by (simp add: dbl_mono_pos)
  next
    case 2
    then show ?thesis using dbl_nonneg [of y] dbl_nonneg [of "- x"] by (simp add: dbl_minus)
  next
    case 3
    with le have "dbl (- y) \<le> dbl (- x)" by (intro dbl_mono_pos) auto
    then show ?thesis by (simp add: dbl_minus)
  qed
qed

section \<open>Number(s)\<close>

text \<open>
  The numbers a string converts to: ECMAScript's \<open>StringToNumber\<close>, with white space trimmed, the
  empty string as zero, decimal literals with an exponent, the radix prefixes and \<open>Infinity\<close>.
\<close>

datatype jsnum = NaN | PosInf | NegInf | Finite rat

fun num_less :: "jsnum \<Rightarrow> jsnum \<Rightarrow> bool" where
  "num_less (Finite a) (Finite b) = (a < b)"
| "num_less (Finite a) PosInf = True"
| "num_less NegInf (Finite a) = True"
| "num_less NegInf PosInf = True"
| "num_less a b = False"

text \<open>\<open>a <= b\<close> on numbers: false as soon as one of them is NaN.\<close>

definition num_le :: "jsnum \<Rightarrow> jsnum \<Rightarrow> bool" where
  "num_le a b \<longleftrightarrow> a \<noteq> NaN \<and> b \<noteq> NaN \<and> (num_less a b \<or> a = b)"

lemma num_simps [simp]:
  "num_le (Finite a) (Finite b) \<longleftrightarrow> a \<le> b" "\<not> num_less NaN x" "\<not> num_less x NaN"
  "\<not> num_le NaN x" "\<not> num_le x NaN"
  by (auto simp: num_le_def)

definition radix_digit :: "char \<Rightarrow> nat" where
  "radix_digit c = (let n = of_char c :: nat in
     if 48 \<le> n \<and> n \<le> 57 then n - 48 else if 97 \<le> n \<and> n \<le> 102 then n - 87
     else if 65 \<le> n \<and> n \<le> 70 then n - 55 else 99)"

definition radix_number :: "nat \<Rightarrow> string \<Rightarrow> jsnum" where
  "radix_number b s = (if s \<noteq> [] \<and> list_all (\<lambda>c. radix_digit c < b) s
     then Finite (dbl (of_nat (foldl (\<lambda>v c. b * v + radix_digit c) 0 s))) else NaN)"

text \<open>\<open>[+-]? digits\<close> up to the end of the string, as an exponent.\<close>

definition exponent_of :: "string \<Rightarrow> int option" where
  "exponent_of s = (let neg = (take 1 s = ''-''); t = (if take 1 s \<in> {''-'', ''+''} then tl s else s) in
     if t \<noteq> [] \<and> list_all is_digit t
     then Some (if neg then - int (digits_val t) else int (digits_val t)) else None)"

definition decimal_number :: "string \<Rightarrow> jsnum" where
  "decimal_number s = (let
     d1 = takeWhile is_digit s; r1 = dropWhile is_digit s;
     d2 = (if take 1 r1 = ''.'' then takeWhile is_digit (tl r1) else []);
     r2 = (if take 1 r1 = ''.'' then dropWhile is_digit (tl r1) else r1);
     ex = (if r2 = [] then Some 0 else if take 1 r2 \<in> {''e'', ''E''} then exponent_of (tl r2) else None)
   in if d1 @ d2 = [] then NaN
      else case ex of None \<Rightarrow> NaN
        | Some x \<Rightarrow> Finite (dbl (of_nat (digits_val (d1 @ d2)) * 10 powi (x - int (length d2)))))"

fun num_neg :: "jsnum \<Rightarrow> jsnum" where
  "num_neg NaN = NaN"
| "num_neg PosInf = NegInf"
| "num_neg NegInf = PosInf"
| "num_neg (Finite a) = Finite (- a)"

definition js_number :: "string \<Rightarrow> jsnum" where
  "js_number str = (let s = js_trim str; unsigned = (\<lambda>t. if t = ''Infinity'' then PosInf else decimal_number t) in
     if s = [] then Finite 0
     else if take 2 s \<in> {''0x'', ''0X''} then radix_number 16 (drop 2 s)
     else if take 2 s \<in> {''0o'', ''0O''} then radix_number 8 (drop 2 s)
     else if take 2 s \<in> {''0b'', ''0B''} then radix_number 2 (drop 2 s)
     else if take 1 s = ''-'' then num_neg (unsigned (tl s))
     else if take 1 s = ''+'' then unsigned (tl s)
     else unsigned s)"

text \<open>
  \<open>String(x)\<close>: the fewest decimal digits that read back as \<open>x\<close>. For an integer in the safe range those
  are its decimal digits.
\<close>

definition ilog10 :: "rat \<Rightarrow> int" where
  "ilog10 x = (if 1 \<le> x then int (length (show_nat (nat \<lfloor>x\<rfloor>))) - 1
     else - int (length (show_nat (nat (\<lceil>1 / x\<rceil> - 1)))))"

definition shortest_digits :: "rat \<Rightarrow> int \<times> nat \<times> nat" where
  "shortest_digits x = (let n = ilog10 x + 1; digits = (\<lambda>k. nat \<lfloor>x / 10 powi (n - int k) + 1 / 2\<rfloor>);
     k = (case find (\<lambda>k. dbl (of_nat (digits k) * 10 powi (n - int k)) = x) [1..<18] of
       Some k \<Rightarrow> k | None \<Rightarrow> 17)
   in if digits k = 10 ^ k then (n + 1, 1, 1) else (n, k, digits k))"

definition exponent_string :: "int \<Rightarrow> string" where
  "exponent_string e = ''e'' @ (if e < 0 then ''-'' else ''+'') @ show_nat (nat \<bar>e\<bar>)"

definition positive_to_string :: "rat \<Rightarrow> string" where
  "positive_to_string x = (let (n, k, m) = shortest_digits x; s = show_nat m in
     if int k \<le> n \<and> n \<le> 21 then s @ replicate (nat n - k) CHR ''0''
     else if 0 < n \<and> n \<le> 21 then take (nat n) s @ ''.'' @ drop (nat n) s
     else if - 6 < n \<and> n \<le> 0 then ''0.'' @ replicate (nat (- n)) CHR ''0'' @ s
     else if k = 1 then s @ exponent_string (n - 1)
     else take 1 s @ ''.'' @ drop 1 s @ exponent_string (n - 1))"

definition rat_to_string :: "rat \<Rightarrow> string" where
  "rat_to_string x =
     (if of_int \<lfloor>x\<rfloor> = x \<and> \<bar>x\<bar> \<le> 2 ^ 53 then show_int \<lfloor>x\<rfloor>
      else if x < 0 then ''-'' @ positive_to_string (- x) else positive_to_string x)"

fun number_to_string :: "jsnum \<Rightarrow> string" where
  "number_to_string NaN = ''NaN''"
| "number_to_string PosInf = ''Infinity''"
| "number_to_string NegInf = ''-Infinity''"
| "number_to_string (Finite x) = rat_to_string x"

lemma number_to_string_int: "\<bar>n\<bar> \<le> 2 ^ 53 \<Longrightarrow> number_to_string (Finite (of_int n)) = show_int n"
proof -
  assume "\<bar>n\<bar> \<le> 2 ^ 53"
  then have "of_int \<bar>n\<bar> \<le> (of_int (2 ^ 53) :: rat)" by (simp only: of_int_le_iff)
  then show ?thesis by (simp add: rat_to_string_def)
qed

end
