(* ===== verification/Core.thy ===== *)
theory Core
  imports JSNumber DomainErrors
begin

text \<open>
  The core module: the currency flyweights (\<open>src/src/modules/core/currency.flyweight.ts\<close>), the
  reference number generator (\<open>src/src/modules/core/reference-number.singleton.ts\<close>) and the money
  helpers (\<open>src/src/common/utils/money.ts\<close>).

  The registry's pool and the generator's sequence are state, passed in and returned. What an
  operation reads from its environment (the clock, \<open>Math.random\<close>, \<open>randomUUID\<close>) is the record
  \<open>env\<close>. Non-ASCII currency symbols are written as their UTF-8 bytes. \<open>toLocaleString\<close> belongs to
  the platform's internationalisation library and is an argument.
\<close>

section \<open>What an operation reads from its environment\<close>

record env =
  isoNow :: string
  rnd1296 :: nat
  startOfDayUs :: int
  nowMs :: int
  nowHour :: int
  nowDay :: int
  eventIds :: "nat \<Rightarrow> string"

section \<open>Currencies\<close>

record Currency =
  cur_code :: string
  cur_name :: string
  cur_symbol :: string
  cur_decimals :: nat

definition currency_format :: "(rat \<Rightarrow> nat \<Rightarrow> string) \<Rightarrow> Currency \<Rightarrow> int \<Rightarrow> string" where
  "currency_format toLocaleString c amountMinor =
     cur_symbol c @ '' '' @ toLocaleString (dbl (of_int amountMinor / 10 ^ cur_decimals c)) (cur_decimals c)"

definition KNOWN_CURRENCIES :: "(string \<times> string \<times> string \<times> nat) list" where
  "KNOWN_CURRENCIES =
     [(''PKR'', ''Pakistani Rupee'', ''Rs'', 2),
      (''USD'', ''US Dollar'', ''$'', 2),
      (''EUR'', ''Euro'', [CHR 0xE2, CHR 0x82, CHR 0xAC], 2),
      (''GBP'', ''British Pound'', [CHR 0xC2, CHR 0xA3], 2),
      (''AED'', ''UAE Dirham'', ''AED'', 2),
      (''SAR'', ''Saudi Riyal'', ''SAR'', 2)]"

type_synonym currency_pool = "(string \<times> Currency) list"

definition registry_get :: "string \<Rightarrow> currency_pool \<Rightarrow> (err + Currency) \<times> currency_pool" where
  "registry_get code pool = (let key = toUpperCase code in
     case map_of pool key of
       Some cached \<Rightarrow> (Inr cached, pool)
     | None \<Rightarrow>
        (case map_of KNOWN_CURRENCIES key of
           None \<Rightarrow> (Inl (PlainError (''Unsupported currency: '' @ code)), pool)
         | Some (name, symbol, decimals) \<Rightarrow>
             let currency = \<lparr>cur_code = key, cur_name = name, cur_symbol = symbol, cur_decimals = decimals\<rparr>
             in (Inr currency, pool @ [(key, currency)])))"

definition isSupported :: "string \<Rightarrow> bool" where
  "isSupported code \<longleftrightarrow> toUpperCase code \<in> fst ` set KNOWN_CURRENCIES"

definition supportedCodes :: "string list" where
  "supportedCodes = map fst KNOWN_CURRENCIES"

definition sharedInstanceCount :: "currency_pool \<Rightarrow> nat" where
  "sharedInstanceCount pool = length pool"

text \<open>The pool only holds the known definitions, at most once each.\<close>

definition pool_ok :: "currency_pool \<Rightarrow> bool" where
  "pool_ok pool \<longleftrightarrow> distinct (map fst pool) \<and>
     (\<forall>(k, c) \<in> set pool. cur_code c = k \<and> map_of KNOWN_CURRENCIES k = Some (cur_name c, cur_symbol c, cur_decimals c))"

lemma pool_ok_Nil [simp]: "pool_ok []"
  by (simp add: pool_ok_def)

lemma map_of_append_new: "k \<notin> fst ` set xs \<Longrightarrow> map_of (xs @ [(k, v)]) k = Some v"
  by (simp add: map_of_eq_None_iff [symmetric] map_add_Some_iff)

lemma registry_get_pool_ok: "pool_ok pool \<Longrightarrow> pool_ok (snd (registry_get code pool))"
  by (auto simp: registry_get_def pool_ok_def Let_def map_of_eq_None_iff split: option.splits)

lemma registry_get_ok_iff:
  assumes "pool_ok pool"
  shows "is_ok (fst (registry_get code pool)) \<longleftrightarrow> isSupported code"
proof (cases "map_of pool (toUpperCase code)")
  case (Some c)
  then have "(toUpperCase code, c) \<in> set pool" by (rule map_of_SomeD)
  with assms have "map_of KNOWN_CURRENCIES (toUpperCase code) \<noteq> None"
    by (auto simp: pool_ok_def)
  with Some show ?thesis
    by (auto simp: registry_get_def isSupported_def map_of_eq_None_iff)
next
  case None
  then show ?thesis
    by (force simp: registry_get_def isSupported_def Let_def map_of_eq_None_iff
        dest: map_of_SomeD split: option.splits)
qed

lemma registry_get_code:
  assumes "pool_ok pool" "registry_get code pool = (Inr c, pool')"
  shows "cur_code c = toUpperCase code \<and>
    map_of KNOWN_CURRENCIES (toUpperCase code) = Some (cur_name c, cur_symbol c, cur_decimals c) \<and>
    map_of pool' (toUpperCase code) = Some c"
proof (cases "map_of pool (toUpperCase code)")
  case (Some c')
  then have "(toUpperCase code, c') \<in> set pool" by (rule map_of_SomeD)
  with Some assms show ?thesis by (auto simp: registry_get_def pool_ok_def)
next
  case None
  then show ?thesis using assms(2)
    by (auto simp: registry_get_def Let_def map_add_Some_iff split: option.splits)
qed

lemma pool_ok_bound: "pool_ok pool \<Longrightarrow> sharedInstanceCount pool \<le> length KNOWN_CURRENCIES"
proof -
  assume ok: "pool_ok pool"
  then have "set (map fst pool) \<subseteq> fst ` set KNOWN_CURRENCIES"
    by (force simp: pool_ok_def dest!: map_of_SomeD)
  then have "card (set (map fst pool)) \<le> card (fst ` set KNOWN_CURRENCIES)"
    by (intro card_mono) auto
  also have "\<dots> \<le> length KNOWN_CURRENCIES"
    by (metis card_image_le card_length le_trans List.finite_set)
  finally show ?thesis using ok distinct_card [of "map fst pool"]
    by (simp add: pool_ok_def sharedInstanceCount_def)
qed

section \<open>Reference numbers\<close>

record refgen =
  sequence :: nat
  nodeTag :: string

definition is_upper_alnum :: "char \<Rightarrow> bool" where
  "is_upper_alnum c \<longleftrightarrow> is_digit c \<or> (65 \<le> (of_char c :: nat) \<and> (of_char c :: nat) \<le> 90)"

definition make_refgen :: "string option \<Rightarrow> refgen" where
  "make_refgen hostname = (let host = case hostname of None \<Rightarrow> ''local'' | Some h \<Rightarrow> h in
     \<lparr>sequence = 0,
      nodeTag = map (\<lambda>c. if is_upper_alnum c then c else CHR ''X'')
        (toUpperCase (drop (length host - 4) host))\<rparr>)"

definition base36_char :: "nat \<Rightarrow> char" where
  "base36_char d = (if d < 10 then char_of (48 + d) else char_of (87 + d))"

fun show_base36 :: "nat \<Rightarrow> string" where
  "show_base36 n = (if n < 36 then [base36_char n] else show_base36 (n div 36) @ [base36_char (n mod 36)])"

declare show_base36.simps [simp del]

definition next_reference :: "string \<Rightarrow> env \<Rightarrow> refgen \<Rightarrow> string \<times> refgen" where
  "next_reference pfx e g = (let
     g' = g\<lparr>sequence := (sequence g + 1) mod 1000000\<rparr>;
     date = filter (\<lambda>c. c \<noteq> CHR ''-'') (take 10 (isoNow e));
     random = padStart 2 CHR ''0'' (toUpperCase (show_base36 (rnd1296 e)))
   in (pfx @ ''-'' @ date @ ''-'' @ nodeTag g @ ''-'' @ padStart 6 CHR ''0'' (show_nat (sequence g')) @ random, g'))"

lemma length_padStart: "length (padStart n c s) = max n (length s)"
  by (simp add: padStart_def)

lemma length_show_nat: "n < 10 ^ k \<Longrightarrow> 0 < k \<Longrightarrow> length (show_nat n) \<le> k"
proof (induction k arbitrary: n)
  case 0
  then show ?case by simp
next
  case (Suc k)
  show ?case
  proof (cases "n < 10")
    case True
    then show ?thesis by (simp add: show_nat.simps [of n])
  next
    case False
    with Suc.prems have "n div 10 < 10 ^ k" "0 < k" by (auto intro!: Nat.gr0I)
    with Suc.IH show ?thesis using False by (simp add: show_nat.simps [of n])
  qed
qed

lemma digits_val_zeros: "digits_val (replicate k CHR ''0'' @ s) = digits_val s"
  by (induction k) (simp_all add: digits_val_def digit_val_def)

lemma padStart_show_nat_inj:
  "padStart k CHR ''0'' (show_nat m) = padStart k CHR ''0'' (show_nat n) \<Longrightarrow> m = n"
  by (metis digits_val_show_nat digits_val_zeros padStart_def)

lemma length_show_base36: "n < 1296 \<Longrightarrow> length (show_base36 n) \<le> 2"
  by (subst show_base36.simps, subst show_base36.simps) auto

text \<open>The last eight characters of a reference are its sequence number and the random pair.\<close>

lemma next_reference_suffix:
  assumes "rnd1296 e < 1296"
  obtains front r where "fst (next_reference pfx e g) =
      front @ padStart 6 CHR ''0'' (show_nat (sequence (snd (next_reference pfx e g)))) @ r"
    "length r = 2"
proof -
  define r where "r = padStart 2 CHR ''0'' (toUpperCase (show_base36 (rnd1296 e)))"
  have "length r = 2"
    using length_show_base36 [OF assms] by (simp add: r_def length_padStart toUpperCase_def)
  then show thesis
    by (intro that [of "pfx @ ''-'' @ filter (\<lambda>c. c \<noteq> CHR ''-'') (take 10 (isoNow e)) @ ''-'' @ nodeTag g @ ''-''" r])
       (simp_all add: next_reference_def Let_def r_def)
qed

lemma sequence_next: "sequence (snd (next_reference pfx e g)) = (sequence g + 1) mod 1000000"
  by (simp add: next_reference_def Let_def)

lemma nodeTag_next: "nodeTag (snd (next_reference pfx e g)) = nodeTag g"
  by (simp add: next_reference_def Let_def)

lemma reference_neq:
  assumes "rnd1296 e < 1296" "rnd1296 e' < 1296"
    and "sequence (snd (next_reference p e g)) \<noteq> sequence (snd (next_reference p' e' g'))"
  shows "fst (next_reference p e g) \<noteq> fst (next_reference p' e' g')"
proof
  let ?s = "padStart 6 CHR ''0'' (show_nat (sequence (snd (next_reference p e g))))"
  let ?s' = "padStart 6 CHR ''0'' (show_nat (sequence (snd (next_reference p' e' g'))))"
  obtain f r where 1: "fst (next_reference p e g) = f @ ?s @ r" "length r = 2"
    using next_reference_suffix [OF assms(1)] .
  obtain f' r' where 2: "fst (next_reference p' e' g') = f' @ ?s' @ r'" "length r' = 2"
    using next_reference_suffix [OF assms(2)] .
  have len: "length ?s = 6" "length ?s' = 6"
    using length_show_nat [of _ 6] by (simp_all add: length_padStart sequence_next max_absorb1)
  assume "fst (next_reference p e g) = fst (next_reference p' e' g')"
  with 1 2 len have "?s = ?s'" by simp
  then have "sequence (snd (next_reference p e g)) = sequence (snd (next_reference p' e' g'))"
    by (rule padStart_show_nat_inj)
  with assms(3) show False by simp
qed

text \<open>The generator after a list of calls.\<close>

fun references_run :: "refgen \<Rightarrow> (string \<times> env) list \<Rightarrow> string list \<times> refgen" where
  "references_run g [] = ([], g)"
| "references_run g ((p, e) # calls) =
     (let (r, g') = next_reference p e g; (rs, g'') = references_run g' calls in (r # rs, g''))"

section \<open>Money helpers\<close>

text \<open>\<open>Math.round\<close> takes the nearest integer, a tie upwards.\<close>

definition math_round :: "rat \<Rightarrow> int" where
  "math_round x = \<lfloor>x + 1 / 2\<rfloor>"

definition toMinor :: "rat \<Rightarrow> nat \<Rightarrow> int" where
  "toMinor major decimals = math_round (dbl (major * 10 ^ decimals))"

definition toMajor :: "int \<Rightarrow> nat \<Rightarrow> rat" where
  "toMajor minor decimals = dbl (of_int minor / 10 ^ decimals)"

definition percentOf :: "int \<Rightarrow> rat \<Rightarrow> int" where
  "percentOf amountMinor percent = math_round (dbl (dbl (of_int amountMinor * percent) / 100))"

text \<open>\<open>x.toFixed(d)\<close>.\<close>

definition toFixed :: "nat \<Rightarrow> rat \<Rightarrow> string" where
  "toFixed d x = (let n = nat \<lfloor>\<bar>x\<bar> * 10 ^ d + 1 / 2\<rfloor>; s = padStart (Suc d) CHR ''0'' (show_nat n);
       t = (if d = 0 then s else take (length s - d) s @ ''.'' @ drop (length s - d) s)
     in if x < 0 then CHR ''-'' # t else t)"

lemma math_round_mono: "x \<le> y \<Longrightarrow> math_round x \<le> math_round y"
  by (simp add: math_round_def floor_mono)

lemma math_round_near: "\<bar>x - of_int n\<bar> < 1 / 2 \<Longrightarrow> math_round x = n"
  unfolding math_round_def by (intro floor_unique) linarith+

lemma dbl_div_mult_near:
  assumes "\<bar>m\<bar> \<le> 2 ^ 50"
  shows "\<bar>dbl (of_int m / 10 ^ d) * 10 ^ d - of_int m\<bar> \<le> 1 / 8"
proof -
  have "dbl (of_int m / 10 ^ d) * 10 ^ d - of_int m = (dbl (of_int m / 10 ^ d) - of_int m / 10 ^ d) * 10 ^ d"
    by (simp add: field_simps)
  then have "\<bar>dbl (of_int m / 10 ^ d) * 10 ^ d - of_int m\<bar> = \<bar>dbl (of_int m / 10 ^ d) - of_int m / 10 ^ d\<bar> * 10 ^ d"
    by (simp add: abs_mult)
  also have "\<dots> \<le> (\<bar>of_int m / 10 ^ d\<bar> / 2 ^ 53) * 10 ^ d"
    by (intro mult_right_mono dbl_error) simp
  also have "\<dots> = \<bar>of_int m\<bar> / 2 ^ 53" by simp
  also have "\<dots> \<le> 2 ^ 50 / 2 ^ 53"
  proof (intro divide_right_mono)
    have "of_int \<bar>m\<bar> \<le> (of_int (2 ^ 50) :: rat)" using assms by (simp only: of_int_le_iff)
    then show "\<bar>of_int m\<bar> \<le> (2 ^ 50 :: rat)" by simp
  qed simp
  finally show ?thesis by simp
qed

end
