(* ===== verification/Events.thy ===== *)
theory Events
  imports Core
begin

text \<open>
  Domain events (\<open>src/src/modules/messaging/\<close>): the event contracts, topics and partition keys
  (\<open>domain-events.ts\<close>), the in-process bus (\<open>domain-event-bus.observer.ts\<close>), its three observers
  (\<open>observers.ts\<close>), the two publishers (\<open>kafka-event-publisher.adapter.ts\<close>,
  \<open>in-memory-event-publisher.ts\<close>), and the worker that consumes the events
  (\<open>consumers/notification.consumer.ts\<close>, \<open>consumers/notification-message.formatter.ts\<close>).

  A payload is the JSON object the producer builds, an association list in the order of its keys.
  The Joi library is not part of the repository: its checks of a UUID and of an ISO date are the
  fields of the record \<open>joi\<close>, an argument; the schemas themselves are data of the source. The Kafka
  broker accepts or refuses a message (\<open>brokerUp\<close>).
\<close>

section \<open>Event contracts\<close>

datatype EventType =
    ACCOUNT_OPENED | ACCOUNT_STATUS_CHANGED | MONEY_DEPOSITED | MONEY_WITHDRAWN
  | MONEY_TRANSFERRED | TRANSACTION_REVERSED | LOAN_DECIDED | CUSTOMER_ONBOARDED

datatype json = JNull | JNum int | JStr string | JObj "(string \<times> json) list"

type_synonym payload = "(string \<times> json) list"

fun event_name :: "EventType \<Rightarrow> string" where
  "event_name ACCOUNT_OPENED = ''account.opened''"
| "event_name ACCOUNT_STATUS_CHANGED = ''account.status-changed''"
| "event_name MONEY_DEPOSITED = ''transaction.deposited''"
| "event_name MONEY_WITHDRAWN = ''transaction.withdrawn''"
| "event_name MONEY_TRANSFERRED = ''transaction.transferred''"
| "event_name TRANSACTION_REVERSED = ''transaction.reversed''"
| "event_name LOAN_DECIDED = ''loan.decided''"
| "event_name CUSTOMER_ONBOARDED = ''customer.onboarded''"

definition all_event_types :: "EventType list" where
  "all_event_types =
     [ACCOUNT_OPENED, ACCOUNT_STATUS_CHANGED, MONEY_DEPOSITED, MONEY_WITHDRAWN,
      MONEY_TRANSFERRED, TRANSACTION_REVERSED, LOAN_DECIDED, CUSTOMER_ONBOARDED]"

lemma all_event_types_complete: "t \<in> set all_event_types"
  by (cases t) (simp_all add: all_event_types_def)

lemma event_name_inj: "event_name s = event_name t \<longleftrightarrow> s = t"
  by (cases s; cases t) auto

record domain_event =
  eventId :: string
  eventType :: EventType
  occurredAt :: string
  schemaVersion :: int
  payload :: payload

definition createEvent :: "env \<Rightarrow> nat \<Rightarrow> EventType \<Rightarrow> payload \<Rightarrow> domain_event" where
  "createEvent e i t p =
     \<lparr>eventId = eventIds e i, eventType = t, occurredAt = isoNow e, schemaVersion = 1, payload = p\<rparr>"

lemma createEvent_simps [simp]:
  "eventId (createEvent e i t p) = eventIds e i" "eventType (createEvent e i t p) = t"
  "occurredAt (createEvent e i t p) = isoNow e" "schemaVersion (createEvent e i t p) = 1"
  "payload (createEvent e i t p) = p"
  by (simp_all add: createEvent_def)

definition topicFor :: "string \<Rightarrow> string" where
  "topicFor t = ''banking.'' @ hd (js_split CHR ''.'' t) @ ''-events''"

text \<open>\<open>[...new Set(xs)]\<close>: duplicates dropped, first occurrences kept in order.\<close>

definition js_distinct :: "'a list \<Rightarrow> 'a list" where
  "js_distinct xs = rev (remdups (rev xs))"

lemma js_distinct_simps [simp]: "set (js_distinct xs) = set xs" "distinct (js_distinct xs)"
  by (simp_all add: js_distinct_def)

definition ALL_TOPICS :: "string list" where
  "ALL_TOPICS = js_distinct (map (\<lambda>t. topicFor (event_name t)) all_event_types)"

definition DEAD_LETTER_TOPIC :: string where
  "DEAD_LETTER_TOPIC = ''banking.dead-letter''"

fun js_string :: "json \<Rightarrow> string" where
  "js_string JNull = ''null''"
| "js_string (JNum i) = show_int i"
| "js_string (JStr s) = s"
| "js_string (JObj f) = ''[object Object]''"

text \<open>\<open>a ?? b\<close> on an object's fields: an absent or null field is skipped.\<close>

definition js_field :: "string \<Rightarrow> payload \<Rightarrow> json option" where
  "js_field k p = (case map_of p k of Some JNull \<Rightarrow> None | r \<Rightarrow> r)"

definition partitionKeyFor :: "domain_event \<Rightarrow> string" where
  "partitionKeyFor e =
     (case js_field ''accountId'' (payload e) of
        Some v \<Rightarrow> js_string v
      | None \<Rightarrow> (case js_field ''fromAccountId'' (payload e) of
           Some v \<Rightarrow> js_string v
         | None \<Rightarrow> eventId e))"

section \<open>Validation against the contracts\<close>

record joi =
  joi_uuid :: "string \<Rightarrow> bool"
  joi_isoDate :: "string \<Rightarrow> bool"
  joi_castNumber :: "string \<Rightarrow> int option"

text \<open>
  The checks the schemas use. A Joi string is not empty unless the schema allows it; a Joi number is
  a safe integer of the platform here, or a string the library converts to one.
\<close>

fun joi_number :: "joi \<Rightarrow> json \<Rightarrow> int option" where
  "joi_number j (JNum i) = (if \<bar>i\<bar> \<le> 9007199254740991 then Some i else None)"
| "joi_number j (JStr s) = joi_castNumber j s"
| "joi_number j v = None"

datatype rule = Uuid | Text | TextLength nat | Integer | PositiveInteger | MinInteger int

fun rule_ok :: "joi \<Rightarrow> rule \<Rightarrow> json \<Rightarrow> bool" where
  "rule_ok j Uuid (JStr s) = joi_uuid j s"
| "rule_ok j Text (JStr s) = (s \<noteq> [])"
| "rule_ok j (TextLength n) (JStr s) = (s \<noteq> [] \<and> length s = n)"
| "rule_ok j Integer v = (joi_number j v \<noteq> None)"
| "rule_ok j PositiveInteger v = (case joi_number j v of None \<Rightarrow> False | Some i \<Rightarrow> 0 < i)"
| "rule_ok j (MinInteger m) v = (case joi_number j v of None \<Rightarrow> False | Some i \<Rightarrow> m \<le> i)"
| "rule_ok j r v = False"

fun payloadSchema :: "EventType \<Rightarrow> (string \<times> rule) list" where
  "payloadSchema ACCOUNT_OPENED = [(''accountId'', Uuid), (''accountNumber'', Text), (''ownerName'', Text), (''type'', Text), (''currency'', TextLength 3)]"
| "payloadSchema ACCOUNT_STATUS_CHANGED = [(''accountId'', Uuid), (''from'', Text), (''to'', Text)]"
| "payloadSchema MONEY_DEPOSITED = [(''accountId'', Uuid), (''amountMinor'', PositiveInteger), (''balanceAfterMinor'', Integer), (''reference'', Text)]"
| "payloadSchema MONEY_WITHDRAWN = [(''accountId'', Uuid), (''amountMinor'', PositiveInteger), (''balanceAfterMinor'', Integer), (''reference'', Text)]"
| "payloadSchema MONEY_TRANSFERRED = [(''fromAccountId'', Uuid), (''toAccountId'', Uuid), (''amountMinor'', PositiveInteger), (''feeMinor'', MinInteger 0), (''reference'', Text)]"
| "payloadSchema TRANSACTION_REVERSED = [(''accountId'', Uuid), (''originalReference'', Text), (''reference'', Text), (''amountMinor'', Integer)]"
| "payloadSchema LOAN_DECIDED = [(''loanId'', Uuid), (''accountId'', Uuid), (''status'', Text), (''amountMinor'', PositiveInteger)]"
| "payloadSchema CUSTOMER_ONBOARDED = [(''accountId'', Uuid), (''ownerName'', Text), (''initialDepositMinor'', MinInteger 0)]"

text \<open>\<open>Joi.object({...})\<close> with every key required: all keys present and valid, no key unknown.\<close>

definition schema_ok :: "joi \<Rightarrow> (string \<times> rule) list \<Rightarrow> payload \<Rightarrow> bool" where
  "schema_ok j sch p \<longleftrightarrow>
     list_all (\<lambda>(k, r). case map_of p k of None \<Rightarrow> False | Some v \<Rightarrow> rule_ok j r v) sch \<and>
     list_all (\<lambda>(k, v). k \<in> fst ` set sch) p"

definition event_of_name :: "string \<Rightarrow> EventType option" where
  "event_of_name s = find (\<lambda>t. event_name t = s) all_event_types"

lemma event_of_name_event_name [simp]: "event_of_name (event_name t) = Some t"
  by (cases t) (simp_all add: event_of_name_def all_event_types_def)

definition validateEvent :: "joi \<Rightarrow> json \<Rightarrow> bool" where
  "validateEvent j v = (case v of
     JObj f \<Rightarrow>
       (case (map_of f ''eventId'', map_of f ''eventType'', map_of f ''occurredAt'',
              map_of f ''schemaVersion'', map_of f ''payload'') of
          (Some (JStr i), Some (JStr t), Some (JStr o'), Some n, Some (JObj p)) \<Rightarrow>
            joi_uuid j i \<and> joi_isoDate j o' \<and> joi_number j n = Some 1 \<and>
            list_all (\<lambda>(k, v). k \<in> {''eventId'', ''eventType'', ''occurredAt'', ''schemaVersion'', ''payload''}) f \<and>
            (case event_of_name t of None \<Rightarrow> False | Some ty \<Rightarrow> schema_ok j (payloadSchema ty) p)
        | _ \<Rightarrow> False)
   | _ \<Rightarrow> False)"

text \<open>The object \<open>JSON.stringify\<close> serialises.\<close>

definition event_json :: "domain_event \<Rightarrow> json" where
  "event_json e = JObj
     [(''eventId'', JStr (eventId e)), (''eventType'', JStr (event_name (eventType e))),
      (''occurredAt'', JStr (occurredAt e)), (''schemaVersion'', JNum (schemaVersion e)),
      (''payload'', JObj (payload e))]"

lemma validateEvent_event_json:
  "validateEvent j (event_json e) \<longleftrightarrow> joi_uuid j (eventId e) \<and> joi_isoDate j (occurredAt e) \<and>
     schemaVersion e = 1 \<and> schema_ok j (payloadSchema (eventType e)) (payload e)"
  by (auto simp: validateEvent_def event_json_def)

section \<open>The publishers\<close>

record kafka_message =
  km_topic :: string
  km_key :: string
  km_value :: json
  km_headers :: "(string \<times> string) list"

definition kafka_message_of :: "domain_event \<Rightarrow> kafka_message" where
  "kafka_message_of e =
     \<lparr>km_topic = topicFor (event_name (eventType e)), km_key = partitionKeyFor e, km_value = event_json e,
      km_headers = [(''event-type'', event_name (eventType e)), (''schema-version'', show_int (schemaVersion e))]\<rparr>"

text \<open>The state the bus and its observers share.\<close>

record bus_state =
  kafkaEnabled :: bool
  connected :: bool
  brokerUp :: bool
  kafkaSent :: "kafka_message list"
  published :: "domain_event list"
  auditLog :: "domain_event list"
  counts :: "(string \<times> nat) list"
  busErrors :: "(string \<times> string \<times> string) list"

definition kafka_publish :: "domain_event \<Rightarrow> bus_state \<Rightarrow> (err + unit) \<times> bus_state" where
  "kafka_publish e s =
     (if \<not> connected s then (Inl (PlainError ''Kafka producer is not connected yet''), s)
      else if \<not> brokerUp s then (Inl (PlainError ''broker not available''), s)
      else (Inr (), s\<lparr>kafkaSent := kafkaSent s @ [kafka_message_of e]\<rparr>))"

definition in_memory_publish :: "domain_event \<Rightarrow> bus_state \<Rightarrow> (err + unit) \<times> bus_state" where
  "in_memory_publish e s = (Inr (), s\<lparr>published := published s @ [e]\<rparr>)"

definition event_publisher :: "domain_event \<Rightarrow> bus_state \<Rightarrow> (err + unit) \<times> bus_state" where
  "event_publisher e s = (if kafkaEnabled s then kafka_publish e s else in_memory_publish e s)"

end
