(* ===== verification/EventBus.thy ===== *)
theory EventBus
  imports Events
begin

text \<open>
  The bus, its observers and the worker. \<open>publish\<close> runs every interested observer; an observer that
  throws is logged and the others still run, so the call itself never fails. The publisher the
  forwarding observer calls is an interface (\<open>event-publisher.port.ts\<close>): the locale
  \<open>publisher_port\<close>, which the Kafka adapter, the in-memory publisher and the configured choice
  between them all satisfy.
\<close>

section \<open>The publisher port\<close>

definition same_observations :: "bus_state \<Rightarrow> bus_state \<Rightarrow> bool" where
  "same_observations s s' \<longleftrightarrow> auditLog s' = auditLog s \<and> counts s' = counts s \<and> busErrors s' = busErrors s \<and>
     kafkaEnabled s' = kafkaEnabled s \<and> connected s' = connected s \<and> brokerUp s' = brokerUp s"

locale publisher_port =
  fixes pub :: "domain_event \<Rightarrow> bus_state \<Rightarrow> (err + unit) \<times> bus_state"
    and delivered :: "bus_state \<Rightarrow> json list"
  assumes pub_ok: "pub e s = (Inr u, s') \<Longrightarrow> delivered s' = delivered s @ [event_json e] \<and> same_observations s s'"
    and pub_error: "pub e s = (Inl x, s') \<Longrightarrow> s' = s"
    and delivered_frame: "kafkaSent s' = kafkaSent s \<Longrightarrow> published s' = published s \<Longrightarrow>
      kafkaEnabled s' = kafkaEnabled s \<Longrightarrow> delivered s' = delivered s"

definition kafka_delivered :: "bus_state \<Rightarrow> json list" where
  "kafka_delivered s = map km_value (kafkaSent s)"

definition memory_delivered :: "bus_state \<Rightarrow> json list" where
  "memory_delivered s = map event_json (published s)"

definition delivered_events :: "bus_state \<Rightarrow> json list" where
  "delivered_events s = (if kafkaEnabled s then kafka_delivered s else memory_delivered s)"

interpretation kafka_port: publisher_port kafka_publish kafka_delivered
  by unfold_locales
    (auto simp: kafka_publish_def kafka_delivered_def kafka_message_of_def same_observations_def split: if_splits)

interpretation memory_port: publisher_port in_memory_publish memory_delivered
  by unfold_locales (auto simp: in_memory_publish_def memory_delivered_def same_observations_def)

interpretation app_port: publisher_port event_publisher delivered_events
proof
  fix e s u s' x
  show "event_publisher e s = (Inr u, s') \<Longrightarrow>
      delivered_events s' = delivered_events s @ [event_json e] \<and> same_observations s s'"
    using kafka_port.pub_ok [of e s u s'] memory_port.pub_ok [of e s u s']
    by (auto simp: event_publisher_def delivered_events_def same_observations_def split: if_splits)
  show "event_publisher e s = (Inl x, s') \<Longrightarrow> s' = s"
    using kafka_port.pub_error [of e s x s'] memory_port.pub_error [of e s x s']
    by (auto simp: event_publisher_def split: if_splits)
next
  fix s s' :: bus_state
  assume "kafkaSent s' = kafkaSent s" "published s' = published s" "kafkaEnabled s' = kafkaEnabled s"
  then show "delivered_events s' = delivered_events s"
    by (simp add: delivered_events_def kafka_delivered_def memory_delivered_def)
qed

lemma delivered_frames [simp]:
  "delivered_events (s\<lparr>auditLog := a\<rparr>) = delivered_events s"
  "delivered_events (s\<lparr>counts := c\<rparr>) = delivered_events s"
  "delivered_events (s\<lparr>busErrors := b\<rparr>) = delivered_events s"
  by (rule app_port.delivered_frame; simp)+

section \<open>Observers and the bus\<close>

record observer =
  obs_name :: string
  interestedIn :: "domain_event \<Rightarrow> bool"
  onEvent :: "domain_event \<Rightarrow> bus_state \<Rightarrow> (err + unit) \<times> bus_state"

definition count_event :: "string \<Rightarrow> (string \<times> nat) list \<Rightarrow> (string \<times> nat) list" where
  "count_event k cs = (case map_of cs k of
     None \<Rightarrow> cs @ [(k, 1)]
   | Some n \<Rightarrow> map (\<lambda>(x, m). (x, if x = k then n + 1 else m)) cs)"

definition AuditLogObserver :: observer where
  "AuditLogObserver = \<lparr>obs_name = ''audit-log'', interestedIn = (\<lambda>_. True),
     onEvent = (\<lambda>e s. (Inr (), s\<lparr>auditLog := auditLog s @ [e]\<rparr>))\<rparr>"

definition EventForwardingObserver :: observer where
  "EventForwardingObserver = \<lparr>obs_name = ''event-forwarder'', interestedIn = (\<lambda>_. True), onEvent = event_publisher\<rparr>"

definition EventMetricsObserver :: observer where
  "EventMetricsObserver = \<lparr>obs_name = ''event-metrics'', interestedIn = (\<lambda>_. True),
     onEvent = (\<lambda>e s. (Inr (), s\<lparr>counts := count_event (event_name (eventType e)) (counts s)\<rparr>))\<rparr>"

text \<open>The set of observers, in insertion order; \<open>nat\<close> is the identity of the observer object.\<close>

type_synonym observers = "(nat \<times> observer) list"

definition subscribe :: "nat \<times> observer \<Rightarrow> observers \<Rightarrow> observers" where
  "subscribe x obs = (if fst x \<in> fst ` set obs then obs else obs @ [x])"

definition unsubscribe :: "nat \<Rightarrow> observers \<Rightarrow> observers" where
  "unsubscribe h obs = filter (\<lambda>x. fst x \<noteq> h) obs"

definition deliver :: "domain_event \<Rightarrow> observer \<Rightarrow> bus_state \<Rightarrow> bus_state" where
  "deliver e ob s = (case onEvent ob e s of
     (Inr _, s') \<Rightarrow> s'
   | (Inl x, s') \<Rightarrow> s'\<lparr>busErrors := busErrors s' @ [(obs_name ob, event_name (eventType e), err_message x)]\<rparr>)"

definition publish :: "observers \<Rightarrow> domain_event \<Rightarrow> bus_state \<Rightarrow> bus_state" where
  "publish obs e s = foldl (\<lambda>s x. deliver e (snd x) s) s (filter (\<lambda>x. interestedIn (snd x) e) obs)"

definition app_observers :: observers where
  "app_observers = foldl (\<lambda>obs x. subscribe x obs) []
     [(0, AuditLogObserver), (1, EventForwardingObserver), (2, EventMetricsObserver)]"

definition app_publish :: "domain_event \<Rightarrow> bus_state \<Rightarrow> bus_state" where
  "app_publish e s = publish app_observers e s"

lemma app_publish_eq:
  "app_publish e s =
     deliver e EventMetricsObserver (deliver e EventForwardingObserver (deliver e AuditLogObserver s))"
  by (simp add: app_publish_def publish_def app_observers_def subscribe_def
      AuditLogObserver_def EventForwardingObserver_def EventMetricsObserver_def)

definition count_of :: "string \<Rightarrow> bus_state \<Rightarrow> nat" where
  "count_of k s = (case map_of (counts s) k of None \<Rightarrow> 0 | Some n \<Rightarrow> n)"

lemma map_of_count_event:
  "map_of (count_event k cs) x =
     (if x = k then Some (case map_of cs k of None \<Rightarrow> 1 | Some n \<Rightarrow> n + 1) else map_of cs x)"
proof (cases "map_of cs k")
  case None
  then show ?thesis by (auto simp: count_event_def map_add_def split: option.splits)
next
  case (Some n)
  have "map_of (map (\<lambda>(x, m). (x, if x = k then n + 1 else m)) cs) x =
      (if x = k then map_option (\<lambda>_. n + 1) (map_of cs k) else map_of cs x)"
    by (induction cs) auto
  with Some show ?thesis by (simp add: count_event_def)
qed

lemma deliver_audit [simp]: "deliver e AuditLogObserver s = s\<lparr>auditLog := auditLog s @ [e]\<rparr>"
  by (simp add: deliver_def AuditLogObserver_def)

lemma deliver_metrics [simp]:
  "deliver e EventMetricsObserver s = s\<lparr>counts := count_event (event_name (eventType e)) (counts s)\<rparr>"
  by (simp add: deliver_def EventMetricsObserver_def)

text \<open>The forwarder either hands the event to the transport or leaves one error line.\<close>

lemma deliver_forward_cases:
  obtains (sent) "delivered_events (deliver e EventForwardingObserver s) = delivered_events s @ [event_json e]"
      "same_observations s (deliver e EventForwardingObserver s)"
  | (lost) x where "deliver e EventForwardingObserver s =
        s\<lparr>busErrors := busErrors s @ [(''event-forwarder'', event_name (eventType e), x)]\<rparr>"
proof (cases "event_publisher e s")
  case (Pair r s')
  show thesis
  proof (cases r)
    case (Inl x)
    with Pair have "s' = s" by (simp add: app_port.pub_error)
    with Pair Inl show thesis by (intro lost [of "err_message x"]) (simp add: deliver_def EventForwardingObserver_def)
  next
    case (Inr u)
    with Pair app_port.pub_ok [of e s u s'] show thesis
      by (intro sent) (simp_all add: deliver_def EventForwardingObserver_def)
  qed
qed

lemma app_publish_audit: "auditLog (app_publish e s) = auditLog s @ [e]"
  by (rule deliver_forward_cases [of e "s\<lparr>auditLog := auditLog s @ [e]\<rparr>"])
    (simp_all add: app_publish_eq same_observations_def)

lemma app_publish_count:
  "count_of k (app_publish e s) = count_of k s + (if event_name (eventType e) = k then 1 else 0)"
  by (rule deliver_forward_cases [of e "s\<lparr>auditLog := auditLog s @ [e]\<rparr>"])
    (simp_all add: app_publish_eq same_observations_def count_of_def map_of_count_event split: option.splits)

lemma app_publish_transport:
  "length (delivered_events (app_publish e s)) + length (busErrors (app_publish e s)) =
     Suc (length (delivered_events s) + length (busErrors s))"
  by (rule deliver_forward_cases [of e "s\<lparr>auditLog := auditLog s @ [e]\<rparr>"])
    (simp_all add: app_publish_eq same_observations_def)

lemmas app_publish_simps = app_publish_audit app_publish_count app_publish_transport

definition publish_all :: "domain_event list \<Rightarrow> bus_state \<Rightarrow> bus_state" where
  "publish_all es s = foldl (\<lambda>s e. app_publish e s) s es"

lemma publish_all_simps [simp]:
  "publish_all [] s = s" "publish_all (e # es) s = publish_all es (app_publish e s)"
  by (simp_all add: publish_all_def)

end
