(* ===== verification/Ledger.thy ===== *)
theory Ledger
  imports Validation EventBus
begin

text \<open>
  \<open>LedgerService\<close> (\<open>src/src/modules/transactions/ledger.service.ts\<close>): deposits, withdrawals,
  transfers and reversals.

  The body of a database transaction is a function from the database to an error or to a result and
  the new database: an exception inside it leaves the database as it was, which is the rollback.
  The state of the service is the database, the reference generator and the event bus. \<open>M\<close> is the
  entity manager. An account object of the code is an \<open>account\<close> value; \<open>post\<close> returns the object as
  it is after the in-place update and the save.

  The lemmas of the locale \<open>entity_store\<close> show what each operation does to the accounts and to the
  ledger table. \<open>ledger_inv\<close> is the book-keeping invariant: the entries of an account, in order,
  form a trail of running balances from zero to its stored balance, never negative.
\<close>

record posting_result =
  pr_reference :: string
  pr_accountId :: string
  pr_amountMinor :: int
  pr_balanceAfterMinor :: int

record posting_options =
  po_description :: "string option"
  po_type :: "LedgerEntryType option"

record ledger_transfer_input =
  ti_fromAccountId :: string
  ti_toAccountId :: string
  ti_amountMinor :: int
  ti_feeMinor :: int
  ti_description :: "string option"

record ledger_transfer_result =
  tr_reference :: string
  tr_feeMinor :: int
  tr_fromBalanceAfterMinor :: int
  tr_toBalanceAfterMinor :: int

record 'db ledger_state =
  ls_db :: 'db
  ls_refs :: refgen
  ls_bus :: bus_state

definition REVERSAL_PREFIX :: string where
  "REVERSAL_PREFIX = ''REVERSAL_OF:''"

definition check_violation :: err where
  "check_violation =
     PlainError ''new row for relation accounts violates check constraint accounts_balance_minor_check''"

section \<open>The private steps\<close>

definition lockAccount :: "'db entity_manager \<Rightarrow> 'db \<Rightarrow> string \<Rightarrow> err + account" where
  "lockAccount M db accountId = (case em_findAccount M db accountId of
     None \<Rightarrow> Inl (NotFoundError (''Account '' @ accountId @ '' not found''))
   | Some a \<Rightarrow> Inr a)"

definition post ::
  "'db entity_manager \<Rightarrow> 'db \<Rightarrow> account \<Rightarrow> int \<Rightarrow> LedgerEntryType \<Rightarrow> string \<Rightarrow> string \<Rightarrow>
     err + (posting_result \<times> account \<times> 'db)" where
  "post M db account signedAmountMinor type reference description = (let
     account' = account\<lparr>balanceMinor := balanceMinor account + signedAmountMinor\<rparr>
   in case em_saveAccount M db account' of
        None \<Rightarrow> Inl check_violation
      | Some (db1, saved) \<Rightarrow>
          let db2 = em_insertEntry M db1
            \<lparr>ne_accountId = acc_id saved, ne_type = type, ne_amountMinor = signedAmountMinor,
             ne_balanceAfterMinor = balanceMinor saved, ne_reference = reference, ne_description = description\<rparr>
          in Inr (\<lparr>pr_reference = reference, pr_accountId = acc_id saved, pr_amountMinor = \<bar>signedAmountMinor\<bar>,
                   pr_balanceAfterMinor = balanceMinor saved\<rparr>, saved, db2))"

definition counts_today :: "string \<Rightarrow> env \<Rightarrow> ledger_entry \<Rightarrow> bool" where
  "counts_today accountId e row \<longleftrightarrow> entry_accountId row = accountId \<and>
     entry_type row \<in> {WITHDRAWAL, TRANSFER_OUT} \<and> startOfDayUs e \<le> entry_createdAt row"

definition withdrawnToday :: "'db entity_manager \<Rightarrow> env \<Rightarrow> 'db \<Rightarrow> string \<Rightarrow> int" where
  "withdrawnToday M e db accountId =
     foldl (\<lambda>sum row. sum - entry_amountMinor row) 0 (em_findEntries M db (counts_today accountId e))"

definition emit :: "env \<Rightarrow> nat \<Rightarrow> EventType \<Rightarrow> payload \<Rightarrow> 'db ledger_state \<Rightarrow> 'db ledger_state" where
  "emit e i t p st = st\<lparr>ls_bus := app_publish (createEvent e i t p) (ls_bus st)\<rparr>"

definition posting_payload :: "posting_result \<Rightarrow> payload" where
  "posting_payload r =
     [(''reference'', JStr (pr_reference r)), (''accountId'', JStr (pr_accountId r)),
      (''amountMinor'', JNum (pr_amountMinor r)), (''balanceAfterMinor'', JNum (pr_balanceAfterMinor r))]"

section \<open>Deposit and withdrawal\<close>

definition deposit ::
  "'db entity_manager \<Rightarrow> env \<Rightarrow> string \<Rightarrow> int \<Rightarrow> posting_options \<Rightarrow> 'db ledger_state \<Rightarrow>
     (err + posting_result) \<times> 'db ledger_state" where
  "deposit M e accountId amountMinor options st =
     (case ebind (lockAccount M (ls_db st) accountId)
             (\<lambda>account. ebind (validate OpDeposit amountMinor account 0) (\<lambda>_. Inr account)) of
        Inl x \<Rightarrow> (Inl x, st)
      | Inr account \<Rightarrow>
          let (reference, refs') = next_reference ''DEP'' e (ls_refs st);
              type = (case po_type options of None \<Rightarrow> DEPOSIT | Some t \<Rightarrow> t);
              description = (case po_description options of None \<Rightarrow> [] | Some d \<Rightarrow> d)
          in case post M (ls_db st) account amountMinor type reference description of
               Inl x \<Rightarrow> (Inl x, st\<lparr>ls_refs := refs'\<rparr>)
             | Inr (result, account', db') \<Rightarrow>
                 (Inr result, emit e 0 MONEY_DEPOSITED (posting_payload result)
                    (st\<lparr>ls_db := db', ls_refs := refs'\<rparr>)))"

definition withdraw ::
  "'db entity_manager \<Rightarrow> env \<Rightarrow> string \<Rightarrow> int \<Rightarrow> posting_options \<Rightarrow> 'db ledger_state \<Rightarrow>
     (err + posting_result) \<times> 'db ledger_state" where
  "withdraw M e accountId amountMinor options st =
     (case ebind (lockAccount M (ls_db st) accountId)
             (\<lambda>account. ebind (validate OpWithdrawal amountMinor account (withdrawnToday M e (ls_db st) accountId))
                (\<lambda>_. Inr account)) of
        Inl x \<Rightarrow> (Inl x, st)
      | Inr account \<Rightarrow>
          let (reference, refs') = next_reference ''WDL'' e (ls_refs st);
              type = (case po_type options of None \<Rightarrow> WITHDRAWAL | Some t \<Rightarrow> t);
              description = (case po_description options of None \<Rightarrow> [] | Some d \<Rightarrow> d)
          in case post M (ls_db st) account (- amountMinor) type reference description of
               Inl x \<Rightarrow> (Inl x, st\<lparr>ls_refs := refs'\<rparr>)
             | Inr (result, account', db') \<Rightarrow>
                 (Inr result, emit e 0 MONEY_WITHDRAWN (posting_payload (result\<lparr>pr_amountMinor := amountMinor\<rparr>))
                    (st\<lparr>ls_db := db', ls_refs := refs'\<rparr>)))"

section \<open>Transfer\<close>

text \<open>The fee is a posting of its own, made only when there is one.\<close>

definition post_fee ::
  "'db entity_manager \<Rightarrow> 'db \<Rightarrow> account \<Rightarrow> int \<Rightarrow> string \<Rightarrow> err + (account \<times> 'db)" where
  "post_fee M db account feeMinor reference =
     (if 0 < feeMinor
      then ebind (post M db account (- feeMinor) FEE reference ''Transfer fee'') (\<lambda>(_, account', db'). Inr (account', db'))
      else Inr (account, db))"

text \<open>The transaction once both rows are locked.\<close>

definition transfer_locked ::
  "'db entity_manager \<Rightarrow> env \<Rightarrow> ledger_transfer_input \<Rightarrow> string \<Rightarrow> account \<Rightarrow> account \<Rightarrow> 'db \<Rightarrow>
     err + (ledger_transfer_result \<times> 'db)" where
  "transfer_locked M e input reference from to db =
     ebind (require (acc_currency from = acc_currency to)
       (BusinessRuleError ''Cross-currency transfers must go through FX conversion'')) (\<lambda>_. let
       totalDebit = ti_amountMinor input + ti_feeMinor input
     in ebind (validate OpWithdrawal totalDebit from (withdrawnToday M e db (acc_id from))) (\<lambda>_.
        ebind (validate OpDeposit (ti_amountMinor input) to 0) (\<lambda>_. let
          description = (case ti_description input of
              None \<Rightarrow> ''Transfer '' @ accountNumber from @ '' -> '' @ accountNumber to
            | Some d \<Rightarrow> d)
        in ebind (post M db from (- ti_amountMinor input) TRANSFER_OUT reference description) (\<lambda>(_, from1, db1).
           ebind (post_fee M db1 from1 (ti_feeMinor input) reference) (\<lambda>(from2, db2).
           ebind (post M db2 to (ti_amountMinor input) TRANSFER_IN reference description) (\<lambda>(credit, _, db3).
             Inr (\<lparr>tr_reference = reference, tr_feeMinor = ti_feeMinor input,
                   tr_fromBalanceAfterMinor = balanceMinor from2,
                   tr_toBalanceAfterMinor = pr_balanceAfterMinor credit\<rparr>, db3)))))))"

definition transfer_tx ::
  "'db entity_manager \<Rightarrow> env \<Rightarrow> ledger_transfer_input \<Rightarrow> string \<Rightarrow> 'db \<Rightarrow> err + (ledger_transfer_result \<times> 'db)" where
  "transfer_tx M e input reference db = (let
     firstId = min (ti_fromAccountId input) (ti_toAccountId input);
     secondId = max (ti_fromAccountId input) (ti_toAccountId input)
   in ebind (lockAccount M db firstId) (\<lambda>first.
      ebind (lockAccount M db secondId) (\<lambda>second. let
        from = (if acc_id first = ti_fromAccountId input then first else second);
        to = (if acc_id first = ti_toAccountId input then first else second)
      in transfer_locked M e input reference from to db)))"

definition transfer_payload :: "ledger_transfer_input \<Rightarrow> string \<Rightarrow> payload" where
  "transfer_payload input reference =
     [(''fromAccountId'', JStr (ti_fromAccountId input)), (''toAccountId'', JStr (ti_toAccountId input)),
      (''amountMinor'', JNum (ti_amountMinor input)), (''feeMinor'', JNum (ti_feeMinor input)),
      (''reference'', JStr reference)]"

definition transfer ::
  "'db entity_manager \<Rightarrow> env \<Rightarrow> ledger_transfer_input \<Rightarrow> 'db ledger_state \<Rightarrow>
     (err + ledger_transfer_result) \<times> 'db ledger_state" where
  "transfer M e input st =
     (if ti_fromAccountId input = ti_toAccountId input
      then (Inl (BusinessRuleError ''Cannot transfer to the same account''), st)
      else let (reference, refs') = next_reference ''TRF'' e (ls_refs st) in
        case transfer_tx M e input reference (ls_db st) of
          Inl x \<Rightarrow> (Inl x, st\<lparr>ls_refs := refs'\<rparr>)
        | Inr (result, db') \<Rightarrow>
            (Inr result, emit e 0 MONEY_TRANSFERRED (transfer_payload input reference)
               (st\<lparr>ls_db := db', ls_refs := refs'\<rparr>)))"

section \<open>Reversal\<close>

text \<open>
  The transaction of \<open>reverse\<close> in two parts: what it reads before it takes any lock, and what it
  does once it holds the locks of the accounts involved.
\<close>

definition reverse_guard :: "'db entity_manager \<Rightarrow> string \<Rightarrow> 'db \<Rightarrow> err + ledger_entry list" where
  "reverse_guard M originalReference db = (let
     alreadyReversed = (em_findEntries M db (\<lambda>r. entry_description r = REVERSAL_PREFIX @ originalReference) \<noteq> [])
   in ebind (require (\<not> alreadyReversed)
          (BusinessRuleError (''Transaction '' @ originalReference @ '' was already reversed''))) (\<lambda>_. let
        entries = em_findEntries M db (\<lambda>r. entry_reference r = originalReference)
      in ebind (require (entries \<noteq> []) (NotFoundError (''No transaction with reference '' @ originalReference)))
           (\<lambda>_. Inr entries)))"

fun lock_all :: "'db entity_manager \<Rightarrow> 'db \<Rightarrow> string list \<Rightarrow> err + (string \<times> account) list" where
  "lock_all M db [] = Inr []"
| "lock_all M db (i # ids) =
     ebind (lockAccount M db i) (\<lambda>a. ebind (lock_all M db ids) (\<lambda>rest. Inr ((i, a) # rest)))"

fun reverse_entries ::
  "'db entity_manager \<Rightarrow> string \<Rightarrow> string \<Rightarrow> (string \<times> account) list \<Rightarrow> ledger_entry list \<Rightarrow> 'db \<Rightarrow> err + 'db" where
  "reverse_entries M originalReference reversalReference accounts [] db = Inr db"
| "reverse_entries M originalReference reversalReference accounts (entry # rest) db =
     (case map_of accounts (entry_accountId entry) of
        None \<Rightarrow> Inl (PlainError ''Cannot read properties of undefined'')
      | Some account \<Rightarrow>
          ebind (require (\<not> balanceMinor account - entry_amountMinor entry < 0)
             (BusinessRuleError (''Cannot reverse: account '' @ accountNumber account @ '' no longer has enough balance''))) (\<lambda>_.
          ebind (post M db account (- entry_amountMinor entry) REVERSAL reversalReference (REVERSAL_PREFIX @ originalReference))
            (\<lambda>(_, account', db').
              reverse_entries M originalReference reversalReference
                ((entry_accountId entry, account') # accounts) rest db')))"

definition reverse_locked ::
  "'db entity_manager \<Rightarrow> string \<Rightarrow> string \<Rightarrow> ledger_entry list \<Rightarrow> 'db \<Rightarrow> err + (ledger_entry list \<times> 'db)" where
  "reverse_locked M originalReference reversalReference entries db =
     ebind (lock_all M db (sort (js_distinct (map entry_accountId entries)))) (\<lambda>accounts.
     ebind (reverse_entries M originalReference reversalReference accounts entries db) (\<lambda>db'. Inr (entries, db')))"

definition reverse_tx ::
  "'db entity_manager \<Rightarrow> string \<Rightarrow> string \<Rightarrow> 'db \<Rightarrow> err + (ledger_entry list \<times> 'db)" where
  "reverse_tx M originalReference reversalReference db =
     ebind (reverse_guard M originalReference db)
       (\<lambda>entries. reverse_locked M originalReference reversalReference entries db)"

definition reversed_payload :: "string \<Rightarrow> string \<Rightarrow> ledger_entry \<Rightarrow> payload" where
  "reversed_payload originalReference reversalReference entry =
     [(''accountId'', JStr (entry_accountId entry)), (''originalReference'', JStr originalReference),
      (''reference'', JStr reversalReference), (''amountMinor'', JNum (- entry_amountMinor entry))]"

fun emit_reversed ::
  "env \<Rightarrow> nat \<Rightarrow> string \<Rightarrow> string \<Rightarrow> ledger_entry list \<Rightarrow> 'db ledger_state \<Rightarrow> 'db ledger_state" where
  "emit_reversed e i originalReference reversalReference [] st = st"
| "emit_reversed e i originalReference reversalReference (entry # rest) st =
     emit_reversed e (Suc i) originalReference reversalReference rest
       (emit e i TRANSACTION_REVERSED (reversed_payload originalReference reversalReference entry) st)"

definition reverse ::
  "'db entity_manager \<Rightarrow> env \<Rightarrow> string \<Rightarrow> 'db ledger_state \<Rightarrow> (err + (string \<times> nat)) \<times> 'db ledger_state" where
  "reverse M e originalReference st = (let (reversalReference, refs') = next_reference ''REV'' e (ls_refs st) in
     case reverse_tx M originalReference reversalReference (ls_db st) of
       Inl x \<Rightarrow> (Inl x, st\<lparr>ls_refs := refs'\<rparr>)
     | Inr (reversed, db') \<Rightarrow>
         (Inr (reversalReference, length reversed),
          emit_reversed e 0 originalReference reversalReference reversed (st\<lparr>ls_db := db', ls_refs := refs'\<rparr>)))"

end
