(* ===== verification/LedgerLaws.thy ===== *)
theory LedgerLaws
  imports Ledger
begin

text \<open>
  What the ledger operations promise, proved for every store that satisfies \<open>entity_store\<close>.

  The abstract view of an operation is the list of postings it makes: account, signed amount, type,
  reference and description. \<open>applies ps db db'\<close> says that \<open>db'\<close> is \<open>db\<close> after exactly the postings
  \<open>ps\<close>: the ledger table grew by entries that carry them in order and nothing else changed in it,
  every account's balance moved by the net of its postings and nothing else of it changed but the
  version, and the book-keeping invariant was kept.
\<close>

section \<open>The abstract view\<close>

record posting =
  pg_accountId :: string
  pg_amountMinor :: int
  pg_type :: LedgerEntryType
  pg_reference :: string
  pg_description :: string

definition posting_of :: "ledger_entry \<Rightarrow> posting" where
  "posting_of r =
     \<lparr>pg_accountId = entry_accountId r, pg_amountMinor = entry_amountMinor r, pg_type = entry_type r,
      pg_reference = entry_reference r, pg_description = entry_description r\<rparr>"

definition net :: "string \<Rightarrow> posting list \<Rightarrow> int" where
  "net i ps = sum_list (map pg_amountMinor (filter (\<lambda>p. pg_accountId p = i) ps))"

lemma net_simps [simp]:
  "net i [] = 0"
  "net i (p # ps) = (if pg_accountId p = i then pg_amountMinor p else 0) + net i ps"
  "net i (ps @ qs) = net i ps + net i qs"
  by (simp_all add: net_def)

definition entries_for :: "string \<Rightarrow> ledger_entry list \<Rightarrow> ledger_entry list" where
  "entries_for i es = filter (\<lambda>r. entry_accountId r = i) es"

lemma entries_for_simps [simp]:
  "entries_for i [] = []"
  "entries_for i (r # es) = (if entry_accountId r = i then r # entries_for i es else entries_for i es)"
  "entries_for i (es @ fs) = entries_for i es @ entries_for i fs"
  by (simp_all add: entries_for_def)

text \<open>Entries that lead from balance \<open>b\<close> to balance \<open>c\<close>, recording every balance in between.\<close>

fun trail_ok :: "int \<Rightarrow> ledger_entry list \<Rightarrow> int \<Rightarrow> bool" where
  "trail_ok b [] c = (b = c)"
| "trail_ok b (r # es) c =
     (entry_balanceAfterMinor r = b + entry_amountMinor r \<and> 0 \<le> entry_balanceAfterMinor r \<and>
      trail_ok (entry_balanceAfterMinor r) es c)"

lemma trail_ok_snoc:
  "trail_ok b (es @ [r]) c \<longleftrightarrow> (\<exists>m. trail_ok b es m \<and> entry_balanceAfterMinor r = m + entry_amountMinor r \<and>
     0 \<le> entry_balanceAfterMinor r \<and> c = entry_balanceAfterMinor r)"
  by (induction es arbitrary: b) auto

lemma trail_ok_sum: "trail_ok b es c \<Longrightarrow> c = b + sum_list (map entry_amountMinor es)"
  by (induction es arbitrary: b) fastforce+

definition ledger_inv :: "'db entity_manager \<Rightarrow> ('db \<Rightarrow> ledger_entry list) \<Rightarrow> 'db \<Rightarrow> bool" where
  "ledger_inv M entries db \<longleftrightarrow>
     (\<forall>i a. em_findAccount M db i = Some a \<longrightarrow>
        trail_ok 0 (entries_for i (entries db)) (balanceMinor a) \<and> 0 \<le> balanceMinor a) \<and>
     (\<forall>r \<in> set (entries db). em_findAccount M db (entry_accountId r) \<noteq> None)"

definition same_terms :: "account \<Rightarrow> account \<Rightarrow> bool" where
  "same_terms a a' \<longleftrightarrow> a' = a\<lparr>balanceMinor := balanceMinor a', acc_version := acc_version a'\<rparr>"

lemma same_terms_refl [simp]: "same_terms a a"
  by (simp add: same_terms_def)

lemma same_terms_trans: "same_terms a b \<Longrightarrow> same_terms b c \<Longrightarrow> same_terms a c"
  by (cases a; cases b; cases c) (simp add: same_terms_def)

lemma same_termsD:
  assumes "same_terms a a'"
  shows "acc_id a' = acc_id a" "acc_status a' = acc_status a" "acc_currency a' = acc_currency a"
    "dailyWithdrawalLimitMinor a' = dailyWithdrawalLimitMinor a" "acc_type a' = acc_type a"
    "accountNumber a' = accountNumber a"
  using assms by (cases a; cases a'; simp add: same_terms_def)+

definition applies ::
  "'db entity_manager \<Rightarrow> ('db \<Rightarrow> ledger_entry list) \<Rightarrow> posting list \<Rightarrow> 'db \<Rightarrow> 'db \<Rightarrow> bool" where
  "applies M entries ps db db' \<longleftrightarrow>
     (\<exists>es. entries db' = entries db @ es \<and> map posting_of es = ps) \<and>
     (\<forall>i. (em_findAccount M db i = None \<longrightarrow> em_findAccount M db' i = None) \<and>
       (\<forall>a. em_findAccount M db i = Some a \<longrightarrow>
         (\<exists>a'. em_findAccount M db' i = Some a' \<and> same_terms a a' \<and>
               balanceMinor a' = balanceMinor a + net i ps))) \<and>
     (ledger_inv M entries db \<longrightarrow> ledger_inv M entries db')"

lemma applies_refl: "applies M entries [] db db"
  by (auto simp: applies_def)

lemma applies_none: "\<exists>ps. applies M entries ps db db"
  using applies_refl by (rule exI)

lemma applies_trans:
  assumes "applies M entries ps db db1" "applies M entries qs db1 db2"
  shows "applies M entries (ps @ qs) db db2"
proof -
  have "\<exists>es. entries db2 = entries db @ es \<and> map posting_of es = ps @ qs"
    using assms by (auto simp: applies_def)
  moreover have "\<exists>a''. em_findAccount M db2 i = Some a'' \<and> same_terms a a'' \<and>
      balanceMinor a'' = balanceMinor a + net i (ps @ qs)" if a: "em_findAccount M db i = Some a" for i a
  proof -
    from assms(1) a obtain a' where a': "em_findAccount M db1 i = Some a'" "same_terms a a'"
      "balanceMinor a' = balanceMinor a + net i ps" unfolding applies_def by blast
    from assms(2) a'(1) obtain a'' where "em_findAccount M db2 i = Some a''" "same_terms a' a''"
      "balanceMinor a'' = balanceMinor a' + net i qs" unfolding applies_def by blast
    with a' show ?thesis by (auto intro: same_terms_trans)
  qed
  moreover have "em_findAccount M db2 i = None" if "em_findAccount M db i = None" for i
    using assms that unfolding applies_def by blast
  moreover have "ledger_inv M entries db \<longrightarrow> ledger_inv M entries db2"
    using assms unfolding applies_def by blast
  ultimately show ?thesis unfolding applies_def by blast
qed

lemma applies_entries: "applies M entries ps db db' \<Longrightarrow> \<exists>es. entries db' = entries db @ es \<and> map posting_of es = ps"
  by (simp add: applies_def)

lemma applies_account:
  "applies M entries ps db db' \<Longrightarrow> em_findAccount M db i = Some a \<Longrightarrow>
     \<exists>a'. em_findAccount M db' i = Some a' \<and> same_terms a a' \<and> balanceMinor a' = balanceMinor a + net i ps"
  by (simp add: applies_def)

lemma applies_inv: "applies M entries ps db db' \<Longrightarrow> ledger_inv M entries db \<Longrightarrow> ledger_inv M entries db'"
  by (simp add: applies_def)

lemma applies_ex_inv:
  assumes "\<exists>ps. applies M entries ps db db'" "ledger_inv M entries db"
  shows "ledger_inv M entries db'"
proof -
  from assms(1) obtain ps where "applies M entries ps db db'" ..
  from applies_inv [OF this assms(2)] show ?thesis .
qed

lemma foldl_minus_sum: "foldl (\<lambda>s r. s - f r) b rs = b - sum_list (map f rs)" for b :: int
  by (induction rs arbitrary: b) auto

lemma ebind_case_prod_Inr:
  "ebind m (\<lambda>(x, y, z). f x y z) = Inr r \<longleftrightarrow> (\<exists>x y z. m = Inr (x, y, z) \<and> f x y z = Inr r)"
  "ebind m' (\<lambda>(x, y). g x y) = Inr r \<longleftrightarrow> (\<exists>x y. m' = Inr (x, y) \<and> g x y = Inr r)"
  by (auto simp: result_simps)

text \<open>The account keeps everything but its balance, which moves by \<open>d\<close>, and its version.\<close>

definition moves_by :: "'db entity_manager \<Rightarrow> 'db \<Rightarrow> 'db \<Rightarrow> string \<Rightarrow> int \<Rightarrow> bool" where
  "moves_by M db db' i d \<longleftrightarrow>
     (case em_findAccount M db i of
        None \<Rightarrow> em_findAccount M db' i = None
      | Some a \<Rightarrow> (\<exists>v. em_findAccount M db' i = Some (a\<lparr>balanceMinor := balanceMinor a + d, acc_version := v\<rparr>)))"

lemma applies_moves_by: "applies M entries ps db db' \<Longrightarrow> net i ps = d \<Longrightarrow> moves_by M db db' i d"
  unfolding applies_def moves_by_def same_terms_def by (fastforce split: option.splits)

section \<open>The private steps\<close>

lemma lockAccount_ok [result_simps]: "lockAccount M db i = Inr a \<longleftrightarrow> em_findAccount M db i = Some a"
  by (simp add: lockAccount_def split: option.splits)

context entity_store
begin

lemma post_ok:
  assumes "em_findAccount M db (acc_id a) = Some a" "post M db a amount type ref desc = Inr (r, a', db')"
  shows "a' = a\<lparr>balanceMinor := balanceMinor a + amount, acc_version := Suc (acc_version a)\<rparr>"
    and "em_findAccount M db' = (em_findAccount M db)(acc_id a := Some a')"
    and "r = \<lparr>pr_reference = ref, pr_accountId = acc_id a, pr_amountMinor = \<bar>amount\<bar>, pr_balanceAfterMinor = balanceMinor a'\<rparr>"
    and "0 \<le> balanceMinor a'"
    and "\<exists>u t. entries db' = entries db @ [entry_of u t \<lparr>ne_accountId = acc_id a, ne_type = type,
      ne_amountMinor = amount, ne_balanceAfterMinor = balanceMinor a', ne_reference = ref, ne_description = desc\<rparr>]"
proof -
  let ?a = "a\<lparr>balanceMinor := balanceMinor a + amount\<rparr>"
  obtain db1 s where save: "em_saveAccount M db ?a = Some (db1, s)"
    using assms(2) by (cases "em_saveAccount M db ?a") (auto simp: post_def)
  have s: "s = ?a\<lparr>acc_version := Suc (acc_version a)\<rparr>" "0 \<le> balanceMinor ?a" "entries db1 = entries db"
    "em_findAccount M db1 = (em_findAccount M db)(acc_id a := Some s)"
    using save_Some [OF save, of a] assms(1) by simp_all
  define ne where "ne = \<lparr>ne_accountId = acc_id a, ne_type = type, ne_amountMinor = amount,
    ne_balanceAfterMinor = balanceMinor s, ne_reference = ref, ne_description = desc\<rparr>"
  have res: "a' = s" "db' = em_insertEntry M db1 ne"
    "r = \<lparr>pr_reference = ref, pr_accountId = acc_id a, pr_amountMinor = \<bar>amount\<bar>, pr_balanceAfterMinor = balanceMinor a'\<rparr>"
    using assms(2) save s(1) by (auto simp: post_def ne_def)
  show "a' = a\<lparr>balanceMinor := balanceMinor a + amount, acc_version := Suc (acc_version a)\<rparr>"
    using res(1) s(1) by simp
  show "em_findAccount M db' = (em_findAccount M db)(acc_id a := Some a')"
    using res(1,2) s(4) by (simp add: insert_accounts)
  show "r = \<lparr>pr_reference = ref, pr_accountId = acc_id a, pr_amountMinor = \<bar>amount\<bar>, pr_balanceAfterMinor = balanceMinor a'\<rparr>"
    by (rule res(3))
  show "0 \<le> balanceMinor a'"
    using res(1) s(1,2) by simp
  show "\<exists>u t. entries db' = entries db @ [entry_of u t \<lparr>ne_accountId = acc_id a, ne_type = type,
      ne_amountMinor = amount, ne_balanceAfterMinor = balanceMinor a', ne_reference = ref, ne_description = desc\<rparr>]"
    using insert_entries [of db1 ne] res(1,2) s(3) by (simp add: ne_def)
qed

lemma post_error: "post M db a amount type ref desc = Inl x \<Longrightarrow> balanceMinor a + amount < 0 \<and> x = check_violation"
  using save_None [of db "a\<lparr>balanceMinor := balanceMinor a + amount\<rparr>"]
  by (auto simp: post_def Let_def split: option.splits)

lemma post_succeeds:
  assumes "0 \<le> balanceMinor a + amount"
  obtains r a' db' where "post M db a amount type ref desc = Inr (r, a', db')"
  using post_error [of db a amount type ref desc] assms
  by (cases "post M db a amount type ref desc") auto

lemma post_applies:
  assumes cur: "em_findAccount M db (acc_id a) = Some a"
    and p: "post M db a amount type ref desc = Inr (r, a', db')"
  shows "applies M entries [\<lparr>pg_accountId = acc_id a, pg_amountMinor = amount, pg_type = type,
    pg_reference = ref, pg_description = desc\<rparr>] db db'"
proof -
  note ok = post_ok [OF cur p]
  obtain u t where e: "entries db' = entries db @ [entry_of u t \<lparr>ne_accountId = acc_id a, ne_type = type,
      ne_amountMinor = amount, ne_balanceAfterMinor = balanceMinor a', ne_reference = ref, ne_description = desc\<rparr>]"
    using ok(5) by blast
  have "ledger_inv M entries db'" if inv: "ledger_inv M entries db"
    unfolding ledger_inv_def
  proof (intro conjI allI impI ballI)
    fix i b assume b: "em_findAccount M db' i = Some b"
    show "trail_ok 0 (entries_for i (entries db')) (balanceMinor b)"
    proof (cases "i = acc_id a")
      case True
      with inv cur have "trail_ok 0 (entries_for i (entries db)) (balanceMinor a)"
        by (simp add: ledger_inv_def)
      with True b ok show ?thesis by (auto simp: e trail_ok_snoc)
    next
      case False
      with b inv ok(2) show ?thesis by (simp add: ledger_inv_def e)
    qed
    show "0 \<le> balanceMinor b"
      using b inv ok(2,4) by (auto simp: ledger_inv_def split: if_splits)
  next
    fix r' assume "r' \<in> set (entries db')"
    then show "em_findAccount M db' (entry_accountId r') \<noteq> None"
      using inv cur by (auto simp: e ok(2) ledger_inv_def)
  qed
  then show ?thesis
    using e ok(1,2) cur
    by (auto simp: applies_def posting_of_def same_terms_def)
qed

lemma withdrawnToday_eq:
  "withdrawnToday M e db i = - sum_list (map entry_amountMinor (filter (counts_today i e) (entries db)))"
  by (simp add: withdrawnToday_def foldl_minus_sum sum_find_entries)

section \<open>Deposit and withdrawal\<close>

lemma deposit_ok_spec:
  assumes "deposit M e i amount options st = (Inr r, st')"
  obtains a where "em_findAccount M (ls_db st) i = Some a" "acc_id a = i" "deposit_ok amount a"
    and "applies M entries [\<lparr>pg_accountId = i, pg_amountMinor = amount,
          pg_type = (case po_type options of None \<Rightarrow> DEPOSIT | Some t \<Rightarrow> t),
          pg_reference = fst (next_reference ''DEP'' e (ls_refs st)),
          pg_description = (case po_description options of None \<Rightarrow> [] | Some d \<Rightarrow> d)\<rparr>] (ls_db st) (ls_db st')"
    and "r = \<lparr>pr_reference = fst (next_reference ''DEP'' e (ls_refs st)), pr_accountId = i,
          pr_amountMinor = amount, pr_balanceAfterMinor = balanceMinor a + amount\<rparr>"
    and "ls_bus st' = app_publish (createEvent e 0 MONEY_DEPOSITED (posting_payload r)) (ls_bus st)"
proof -
  from assms obtain a where a: "em_findAccount M (ls_db st) i = Some a" "deposit_ok amount a"
    by (auto simp: deposit_def result_simps split: sum.splits)
  have i: "acc_id a = i" using find_key [OF a(1)] .
  have lock: "lockAccount M (ls_db st) i = Inr a" using a(1) by (simp add: lockAccount_ok)
  from a lock assms obtain a' db' where p: "post M (ls_db st) a amount
      (case po_type options of None \<Rightarrow> DEPOSIT | Some t \<Rightarrow> t) (fst (next_reference ''DEP'' e (ls_refs st)))
      (case po_description options of None \<Rightarrow> [] | Some d \<Rightarrow> d) = Inr (r, a', db')"
    and st': "st' = emit e 0 MONEY_DEPOSITED (posting_payload r)
      (st\<lparr>ls_db := db', ls_refs := snd (next_reference ''DEP'' e (ls_refs st))\<rparr>)"
    by (auto simp: deposit_def validate_accepts Let_def case_prod_beta split: sum.splits)
  have cur: "em_findAccount M (ls_db st) (acc_id a) = Some a" using a(1) i by simp
  show thesis
    using post_ok(1,3) [OF cur p] post_applies [OF cur p] a(2) st'
    by (intro that [OF a(1) i a(2)]) (auto simp: i deposit_ok_def emit_def)
qed

lemma deposit_succeeds:
  assumes "em_findAccount M (ls_db st) i = Some a" "deposit_ok amount a" "0 \<le> balanceMinor a"
  shows "is_ok (fst (deposit M e i amount options st))"
proof -
  have lock: "lockAccount M (ls_db st) i = Inr a" using assms(1) by (simp add: lockAccount_ok)
  have pos: "0 \<le> balanceMinor a + amount" using assms by (simp add: deposit_ok_def)
  show ?thesis
    by (rule post_succeeds [OF pos, where db = "ls_db st"
        and type = "case po_type options of None \<Rightarrow> DEPOSIT | Some t \<Rightarrow> t"
        and ref = "fst (next_reference ''DEP'' e (ls_refs st))"
        and desc = "case po_description options of None \<Rightarrow> [] | Some d \<Rightarrow> d"])
      (simp add: deposit_def lock validate_accepts assms(2) Let_def case_prod_beta)
qed

lemma withdraw_ok_spec:
  assumes "withdraw M e i amount options st = (Inr r, st')"
  obtains a where "em_findAccount M (ls_db st) i = Some a" "acc_id a = i"
      "withdrawal_ok amount a (withdrawnToday M e (ls_db st) i)"
    and "applies M entries [\<lparr>pg_accountId = i, pg_amountMinor = - amount,
          pg_type = (case po_type options of None \<Rightarrow> WITHDRAWAL | Some t \<Rightarrow> t),
          pg_reference = fst (next_reference ''WDL'' e (ls_refs st)),
          pg_description = (case po_description options of None \<Rightarrow> [] | Some d \<Rightarrow> d)\<rparr>] (ls_db st) (ls_db st')"
    and "r = \<lparr>pr_reference = fst (next_reference ''WDL'' e (ls_refs st)), pr_accountId = i,
          pr_amountMinor = amount, pr_balanceAfterMinor = balanceMinor a - amount\<rparr>"
    and "ls_bus st' = app_publish (createEvent e 0 MONEY_WITHDRAWN (posting_payload r)) (ls_bus st)"
proof -
  from assms obtain a where a: "em_findAccount M (ls_db st) i = Some a"
      "withdrawal_ok amount a (withdrawnToday M e (ls_db st) i)"
    by (auto simp: withdraw_def result_simps split: sum.splits)
  have i: "acc_id a = i" using find_key [OF a(1)] .
  have lock: "lockAccount M (ls_db st) i = Inr a" using a(1) by (simp add: lockAccount_ok)
  from a lock assms obtain a' db' where p: "post M (ls_db st) a (- amount)
      (case po_type options of None \<Rightarrow> WITHDRAWAL | Some t \<Rightarrow> t) (fst (next_reference ''WDL'' e (ls_refs st)))
      (case po_description options of None \<Rightarrow> [] | Some d \<Rightarrow> d) = Inr (r, a', db')"
    and st': "st' = emit e 0 MONEY_WITHDRAWN (posting_payload (r\<lparr>pr_amountMinor := amount\<rparr>))
      (st\<lparr>ls_db := db', ls_refs := snd (next_reference ''WDL'' e (ls_refs st))\<rparr>)"
    by (auto simp: withdraw_def validate_accepts Let_def case_prod_beta split: sum.splits)
  have cur: "em_findAccount M (ls_db st) (acc_id a) = Some a" using a(1) i by simp
  show thesis
    using post_ok(1,3) [OF cur p] post_applies [OF cur p] a(2) st'
    by (intro that [OF a(1) i a(2)]) (auto simp: i withdrawal_ok_def emit_def)
qed

lemma withdraw_succeeds:
  assumes "em_findAccount M (ls_db st) i = Some a"
    "withdrawal_ok amount a (withdrawnToday M e (ls_db st) i)"
  shows "is_ok (fst (withdraw M e i amount options st))"
proof -
  have lock: "lockAccount M (ls_db st) i = Inr a" using assms(1) by (simp add: lockAccount_ok)
  have pos: "0 \<le> balanceMinor a + - amount" using assms(2) by (simp add: withdrawal_ok_def)
  show ?thesis
    by (rule post_succeeds [OF pos, where db = "ls_db st"
        and type = "case po_type options of None \<Rightarrow> WITHDRAWAL | Some t \<Rightarrow> t"
        and ref = "fst (next_reference ''WDL'' e (ls_refs st))"
        and desc = "case po_description options of None \<Rightarrow> [] | Some d \<Rightarrow> d"])
      (simp add: withdraw_def lock validate_accepts assms(2) Let_def case_prod_beta)
qed

end

section \<open>Transfer\<close>

definition transfer_description :: "ledger_transfer_input \<Rightarrow> account \<Rightarrow> account \<Rightarrow> string" where
  "transfer_description input src dst = (case ti_description input of
       None \<Rightarrow> ''Transfer '' @ accountNumber src @ '' -> '' @ accountNumber dst
     | Some d \<Rightarrow> d)"

definition transfer_postings :: "ledger_transfer_input \<Rightarrow> string \<Rightarrow> string \<Rightarrow> posting list" where
  "transfer_postings input reference description =
     [\<lparr>pg_accountId = ti_fromAccountId input, pg_amountMinor = - ti_amountMinor input,
       pg_type = TRANSFER_OUT, pg_reference = reference, pg_description = description\<rparr>] @
     (if 0 < ti_feeMinor input then
       [\<lparr>pg_accountId = ti_fromAccountId input, pg_amountMinor = - ti_feeMinor input,
         pg_type = FEE, pg_reference = reference, pg_description = ''Transfer fee''\<rparr>] else []) @
     [\<lparr>pg_accountId = ti_toAccountId input, pg_amountMinor = ti_amountMinor input,
       pg_type = TRANSFER_IN, pg_reference = reference, pg_description = description\<rparr>]"

definition transfer_ok :: "ledger_transfer_input \<Rightarrow> account \<Rightarrow> account \<Rightarrow> int \<Rightarrow> bool" where
  "transfer_ok input src dst used \<longleftrightarrow> acc_currency src = acc_currency dst \<and>
     withdrawal_ok (ti_amountMinor input + ti_feeMinor input) src used \<and> deposit_ok (ti_amountMinor input) dst"

lemma net_transfer_postings:
  assumes "ti_fromAccountId input \<noteq> ti_toAccountId input"
  shows "net (ti_fromAccountId input) (transfer_postings input ref d) = - ti_amountMinor input - max 0 (ti_feeMinor input)"
    and "net (ti_toAccountId input) (transfer_postings input ref d) = ti_amountMinor input"
    and "i \<noteq> ti_fromAccountId input \<Longrightarrow> i \<noteq> ti_toAccountId input \<Longrightarrow> net i (transfer_postings input ref d) = 0"
  using assms by (auto simp: transfer_postings_def)

context entity_store
begin

lemma transfer_tx_locks:
  assumes "ti_fromAccountId input \<noteq> ti_toAccountId input"
  shows "transfer_tx M e input ref db = Inr r \<longleftrightarrow>
    (\<exists>src dst. em_findAccount M db (ti_fromAccountId input) = Some src \<and>
       em_findAccount M db (ti_toAccountId input) = Some dst \<and> transfer_locked M e input ref src dst db = Inr r)"
proof (cases "ti_fromAccountId input \<le> ti_toAccountId input")
  case True
  with assms find_key [of db "ti_fromAccountId input"] find_key [of db "ti_toAccountId input"] show ?thesis
    by (auto simp: transfer_tx_def Let_def result_simps min_def max_def)
next
  case False
  with assms find_key [of db "ti_fromAccountId input"] find_key [of db "ti_toAccountId input"] show ?thesis
    by (auto simp: transfer_tx_def Let_def result_simps min_def max_def)
qed

lemma post_fee_ok:
  assumes cur: "em_findAccount M db (acc_id a) = Some a" and p: "post_fee M db a fee ref = Inr (a', db')"
  shows "balanceMinor a' = balanceMinor a - max 0 fee"
    and "i \<noteq> acc_id a \<Longrightarrow> em_findAccount M db' i = em_findAccount M db i"
    and "applies M entries (if 0 < fee then
       [\<lparr>pg_accountId = acc_id a, pg_amountMinor = - fee, pg_type = FEE, pg_reference = ref,
         pg_description = ''Transfer fee''\<rparr>] else []) db db'"
proof -
  consider (fee) r where "0 < fee" "post M db a (- fee) FEE ref ''Transfer fee'' = Inr (r, a', db')"
    | (free) "\<not> 0 < fee" "a' = a" "db' = db"
    using p by (auto simp: post_fee_def ebind_case_prod_Inr split: if_splits)
  then show "balanceMinor a' = balanceMinor a - max 0 fee"
    and "i \<noteq> acc_id a \<Longrightarrow> em_findAccount M db' i = em_findAccount M db i"
    and "applies M entries (if 0 < fee then
       [\<lparr>pg_accountId = acc_id a, pg_amountMinor = - fee, pg_type = FEE, pg_reference = ref,
         pg_description = ''Transfer fee''\<rparr>] else []) db db'"
    using post_ok(1,2) [OF cur] post_applies [OF cur]
    by (cases; fastforce simp: applies_refl)+
qed

lemma transfer_locked_spec:
  assumes ids: "ti_fromAccountId input \<noteq> ti_toAccountId input"
    and src: "em_findAccount M db (ti_fromAccountId input) = Some src"
    and dst: "em_findAccount M db (ti_toAccountId input) = Some dst"
    and t: "transfer_locked M e input ref src dst db = Inr (res, db')"
  shows "transfer_ok input src dst (withdrawnToday M e db (ti_fromAccountId input))"
    and "applies M entries (transfer_postings input ref (transfer_description input src dst)) db db'"
    and "res = \<lparr>tr_reference = ref, tr_feeMinor = ti_feeMinor input,
      tr_fromBalanceAfterMinor = balanceMinor src - ti_amountMinor input - max 0 (ti_feeMinor input),
      tr_toBalanceAfterMinor = balanceMinor dst + ti_amountMinor input\<rparr>"
proof -
  have id: "acc_id src = ti_fromAccountId input" "acc_id dst = ti_toAccountId input"
    using find_key [OF src] find_key [OF dst] .
  let ?d = "transfer_description input src dst"
  from t show "transfer_ok input src dst (withdrawnToday M e db (ti_fromAccountId input))"
    by (auto simp: transfer_locked_def transfer_ok_def result_simps Let_def id)
  from t obtain r1 from1 db1 from2 db2 credit to1 where
    p1: "post M db src (- ti_amountMinor input) TRANSFER_OUT ref ?d = Inr (r1, from1, db1)" and
    p2: "post_fee M db1 from1 (ti_feeMinor input) ref = Inr (from2, db2)" and
    p3: "post M db2 dst (ti_amountMinor input) TRANSFER_IN ref ?d = Inr (credit, to1, db')" and
    res: "res = \<lparr>tr_reference = ref, tr_feeMinor = ti_feeMinor input, tr_fromBalanceAfterMinor = balanceMinor from2,
      tr_toBalanceAfterMinor = pr_balanceAfterMinor credit\<rparr>"
    by (auto simp: transfer_locked_def Let_def transfer_description_def result_simps)
  have c1: "em_findAccount M db (acc_id src) = Some src" using src id by simp
  note a1 = post_ok(1,2) [OF c1 p1] post_applies [OF c1 p1]
  have c2: "em_findAccount M db1 (acc_id from1) = Some from1" using a1(1,2) by simp
  have a2: "balanceMinor from2 = balanceMinor from1 - max 0 (ti_feeMinor input)"
    "em_findAccount M db2 (acc_id dst) = em_findAccount M db1 (acc_id dst)"
    "applies M entries (if 0 < ti_feeMinor input then
       [\<lparr>pg_accountId = ti_fromAccountId input, pg_amountMinor = - ti_feeMinor input,
         pg_type = FEE, pg_reference = ref, pg_description = ''Transfer fee''\<rparr>] else []) db1 db2"
    using post_fee_ok [OF c2 p2] a1(1) ids by (simp_all add: id split: if_split_asm)
  have c3: "em_findAccount M db2 (acc_id dst) = Some dst" using a1(2) a2(2) dst id ids by simp
  note a3 = post_ok(1,3) [OF c3 p3] post_applies [OF c3 p3]
  show "applies M entries (transfer_postings input ref ?d) db db'"
    using applies_trans [OF a1(3) applies_trans [OF a2(3) a3(3)]] by (simp add: transfer_postings_def id)
  show "res = \<lparr>tr_reference = ref, tr_feeMinor = ti_feeMinor input,
      tr_fromBalanceAfterMinor = balanceMinor src - ti_amountMinor input - max 0 (ti_feeMinor input),
      tr_toBalanceAfterMinor = balanceMinor dst + ti_amountMinor input\<rparr>"
    using res a1(1) a2(1) a3(1,2) by simp
qed

lemma transfer_ok_spec:
  assumes "transfer M e input st = (Inr res, st')"
  obtains src dst where "ti_fromAccountId input \<noteq> ti_toAccountId input"
    "em_findAccount M (ls_db st) (ti_fromAccountId input) = Some src"
    "em_findAccount M (ls_db st) (ti_toAccountId input) = Some dst"
    "transfer_ok input src dst (withdrawnToday M e (ls_db st) (ti_fromAccountId input))"
    "applies M entries (transfer_postings input (fst (next_reference ''TRF'' e (ls_refs st)))
       (transfer_description input src dst)) (ls_db st) (ls_db st')"
    "res = \<lparr>tr_reference = fst (next_reference ''TRF'' e (ls_refs st)), tr_feeMinor = ti_feeMinor input,
      tr_fromBalanceAfterMinor = balanceMinor src - ti_amountMinor input - max 0 (ti_feeMinor input),
      tr_toBalanceAfterMinor = balanceMinor dst + ti_amountMinor input\<rparr>"
    "ls_bus st' = app_publish (createEvent e 0 MONEY_TRANSFERRED
       (transfer_payload input (fst (next_reference ''TRF'' e (ls_refs st))))) (ls_bus st)"
proof -
  let ?ref = "fst (next_reference ''TRF'' e (ls_refs st))"
  have ids: "ti_fromAccountId input \<noteq> ti_toAccountId input"
    using assms by (auto simp: transfer_def)
  with assms obtain db' where t: "transfer_tx M e input ?ref (ls_db st) = Inr (res, db')"
    and st': "st' = emit e 0 MONEY_TRANSFERRED (transfer_payload input ?ref)
      (st\<lparr>ls_db := db', ls_refs := snd (next_reference ''TRF'' e (ls_refs st))\<rparr>)"
    by (auto simp: transfer_def Let_def case_prod_beta split: sum.splits)
  from t obtain src dst where ft: "em_findAccount M (ls_db st) (ti_fromAccountId input) = Some src"
    "em_findAccount M (ls_db st) (ti_toAccountId input) = Some dst"
    "transfer_locked M e input ?ref src dst (ls_db st) = Inr (res, db')"
    unfolding transfer_tx_locks [OF ids] by blast
  show thesis
    using that [OF ids ft(1,2)] transfer_locked_spec [OF ids ft] st' by (simp add: emit_def)
qed

lemma post_fee_succeeds:
  assumes "max 0 fee \<le> balanceMinor a"
  obtains a' db' where "post_fee M db a fee ref = Inr (a', db')"
proof (cases "0 < fee")
  case True
  with assms have "0 \<le> balanceMinor a + - fee" by simp
  from post_succeeds [OF this] obtain r a' db' where "post M db a (- fee) FEE ref ''Transfer fee'' = Inr (r, a', db')" .
  with True that show thesis by (simp add: post_fee_def)
next
  case False
  with that show thesis by (simp add: post_fee_def)
qed

lemma transfer_locked_succeeds:
  assumes src: "em_findAccount M db (acc_id src) = Some src"
    and ok: "transfer_ok input src dst (withdrawnToday M e db (acc_id src))"
    and pos: "0 \<le> ti_feeMinor input" "0 \<le> balanceMinor dst"
  shows "\<exists>r. transfer_locked M e input ref src dst db = Inr r"
proof -
  let ?d = "transfer_description input src dst"
  have w: "withdrawal_ok (ti_amountMinor input + ti_feeMinor input) src (withdrawnToday M e db (acc_id src))"
    and dep: "deposit_ok (ti_amountMinor input) dst" and cur: "acc_currency src = acc_currency dst"
    using ok by (simp_all add: transfer_ok_def)
  have "0 \<le> balanceMinor src + - ti_amountMinor input" using w pos(1) by (simp add: withdrawal_ok_def)
  from post_succeeds [OF this] obtain q1 a1 db1 where
    p1: "post M db src (- ti_amountMinor input) TRANSFER_OUT ref ?d = Inr (q1, a1, db1)" .
  have "max 0 (ti_feeMinor input) \<le> balanceMinor a1"
    using w pos(1) by (simp add: post_ok(1) [OF src p1] withdrawal_ok_def)
  from post_fee_succeeds [OF this] obtain a2 db2 where
    p2: "post_fee M db1 a1 (ti_feeMinor input) ref = Inr (a2, db2)" .
  have "0 \<le> balanceMinor dst + ti_amountMinor input" using dep pos(2) by (simp add: deposit_ok_def)
  from post_succeeds [OF this] obtain q3 a3 db3 where
    p3: "post M db2 dst (ti_amountMinor input) TRANSFER_IN ref ?d = Inr (q3, a3, db3)" .
  show ?thesis
    using p1 p2 p3 by (simp add: transfer_locked_def cur validate_accepts w dep Let_def transfer_description_def)
qed

lemma transfer_succeeds:
  assumes ids: "ti_fromAccountId input \<noteq> ti_toAccountId input"
    and src: "em_findAccount M (ls_db st) (ti_fromAccountId input) = Some src"
    and dst: "em_findAccount M (ls_db st) (ti_toAccountId input) = Some dst"
    and ok: "transfer_ok input src dst (withdrawnToday M e (ls_db st) (ti_fromAccountId input))"
    and pos: "0 \<le> ti_feeMinor input" "0 \<le> balanceMinor dst"
  shows "is_ok (fst (transfer M e input st))"
proof -
  let ?ref = "fst (next_reference ''TRF'' e (ls_refs st))"
  have id: "acc_id src = ti_fromAccountId input" using src by (rule find_key)
  from transfer_locked_succeeds [of "ls_db st" src input dst e ?ref] src ok pos id
  obtain r where "transfer_locked M e input ?ref src dst (ls_db st) = Inr r" by auto
  with src dst have "transfer_tx M e input ?ref (ls_db st) = Inr r"
    unfolding transfer_tx_locks [OF ids] by blast
  with ids show ?thesis by (auto simp: transfer_def Let_def case_prod_beta split: sum.splits)
qed

end

section \<open>Reversal\<close>

definition reversal_posting :: "string \<Rightarrow> string \<Rightarrow> ledger_entry \<Rightarrow> posting" where
  "reversal_posting originalReference reversalReference r =
     \<lparr>pg_accountId = entry_accountId r, pg_amountMinor = - entry_amountMinor r, pg_type = REVERSAL,
      pg_reference = reversalReference, pg_description = REVERSAL_PREFIX @ originalReference\<rparr>"

definition amount_under :: "string \<Rightarrow> string \<Rightarrow> ledger_entry list \<Rightarrow> int" where
  "amount_under reference i es =
     sum_list (map entry_amountMinor (filter (\<lambda>r. entry_reference r = reference \<and> entry_accountId r = i) es))"

definition already_reversed :: "string \<Rightarrow> ledger_entry list \<Rightarrow> bool" where
  "already_reversed reference es \<longleftrightarrow> (\<exists>r \<in> set es. entry_description r = REVERSAL_PREFIX @ reference)"

lemma net_reversal:
  "net i (map (reversal_posting o' rr) es) = - sum_list (map entry_amountMinor (filter (\<lambda>r. entry_accountId r = i) es))"
  by (induction es) (auto simp: reversal_posting_def)

lemma lock_all_ok:
  "lock_all M db ids = Inr accounts \<Longrightarrow>
     (\<forall>i. map_of accounts i = (if i \<in> set ids then em_findAccount M db i else None))"
  by (induction ids arbitrary: accounts) (auto simp: result_simps)

context entity_store
begin

lemma reverse_guard_ok:
  "reverse_guard M ref db = Inr es \<longleftrightarrow> \<not> already_reversed ref (entries db) \<and> es \<noteq> [] \<and>
     es = em_findEntries M db (\<lambda>r. entry_reference r = ref)"
  by (auto simp: reverse_guard_def Let_def result_simps find_entries_Nil_iff already_reversed_def)

lemma reverse_entries_applies:
  assumes "\<And>i a. map_of accounts i = Some a \<Longrightarrow> em_findAccount M db i = Some a"
    and "reverse_entries M ref rr accounts es db = Inr db'"
  shows "applies M entries (map (reversal_posting ref rr) es) db db'"
  using assms
proof (induction es arbitrary: accounts db)
  case Nil
  then show ?case by (simp add: applies_refl)
next
  case (Cons r es)
  from Cons.prems(2) obtain a q a' db1 where a: "map_of accounts (entry_accountId r) = Some a"
    and p: "post M db a (- entry_amountMinor r) REVERSAL rr (REVERSAL_PREFIX @ ref) = Inr (q, a', db1)"
    and rest: "reverse_entries M ref rr ((entry_accountId r, a') # accounts) es db1 = Inr db'"
    by (auto simp: result_simps split: option.splits)
  have f: "em_findAccount M db (entry_accountId r) = Some a" using Cons.prems(1) a .
  then have id: "acc_id a = entry_accountId r" using find_key by blast
  with f have cur: "em_findAccount M db (acc_id a) = Some a" by simp
  have "applies M entries (map (reversal_posting ref rr) es) db1 db'"
  proof (rule Cons.IH [OF _ rest])
    fix i b assume "map_of ((entry_accountId r, a') # accounts) i = Some b"
    then show "em_findAccount M db1 i = Some b"
      using Cons.prems(1) post_ok(2) [OF cur p] id by (auto split: if_splits)
  qed
  have eq: "map (reversal_posting ref rr) (r # es) = [\<lparr>pg_accountId = acc_id a, pg_amountMinor = - entry_amountMinor r,
      pg_type = REVERSAL, pg_reference = rr, pg_description = REVERSAL_PREFIX @ ref\<rparr>] @ map (reversal_posting ref rr) es"
    by (simp add: reversal_posting_def id)
  show ?case unfolding eq by (rule applies_trans [OF post_applies [OF cur p] \<open>applies M entries _ db1 db'\<close>])
qed

lemma reverse_tx_spec:
  assumes "reverse_tx M ref rr db = Inr (es, db')"
  shows "\<not> already_reversed ref (entries db)" "es \<noteq> []"
    and "mset es = mset (filter (\<lambda>r. entry_reference r = ref) (entries db))"
    and "applies M entries (map (reversal_posting ref rr) es) db db'"
proof -
  from assms have g: "\<not> already_reversed ref (entries db)" "es \<noteq> []"
    "es = em_findEntries M db (\<lambda>r. entry_reference r = ref)"
    and l: "reverse_locked M ref rr es db = Inr (es, db')"
    by (auto simp: reverse_tx_def reverse_guard_ok ebind_Inr_iff) (auto simp: reverse_locked_def result_simps)
  show "\<not> already_reversed ref (entries db)" "es \<noteq> []" by (rule g)+
  show "mset es = mset (filter (\<lambda>r. entry_reference r = ref) (entries db))"
    by (simp add: g(3) find_entries)
  from l obtain accounts where "lock_all M db (sort (js_distinct (map entry_accountId es))) = Inr accounts"
    and e: "reverse_entries M ref rr accounts es db = Inr db'"
    by (auto simp: reverse_locked_def result_simps)
  then have "em_findAccount M db i = Some a" if "map_of accounts i = Some a" for i a
    using lock_all_ok that by (metis option.distinct(1))
  then show "applies M entries (map (reversal_posting ref rr) es) db db'"
    using e by (rule reverse_entries_applies)
qed

lemma sum_filter_mset:
  assumes "mset es = mset (filter P fs)"
  shows "sum_list (map f (filter Q es)) = (sum_list (map f (filter (\<lambda>r. P r \<and> Q r) fs)) :: int)"
proof -
  have "mset (filter Q es) = mset (filter Q (filter P fs))" using assms by (metis mset_filter)
  then have "mset (map f (filter Q es)) = mset (map f (filter Q (filter P fs)))" by (metis mset_map)
  then have "sum_list (map f (filter Q es)) = sum_list (map f (filter Q (filter P fs)))"
    by (metis sum_mset_sum_list)
  then show ?thesis by (simp add: conj_commute)
qed

lemma ls_db_emit_reversed: "ls_db (emit_reversed e k ref rr es st) = ls_db st"
  by (induction es arbitrary: k st) (simp_all add: emit_def)

lemma reverse_ok_spec:
  assumes "reverse M e ref st = (Inr (rr, n), st')"
  obtains es where "\<not> already_reversed ref (entries (ls_db st))" "es \<noteq> []"
    "mset es = mset (filter (\<lambda>r. entry_reference r = ref) (entries (ls_db st)))"
    "applies M entries (map (reversal_posting ref rr) es) (ls_db st) (ls_db st')"
    "rr = fst (next_reference ''REV'' e (ls_refs st))" "n = length es"
    "\<And>i. net i (map (reversal_posting ref rr) es) = - amount_under ref i (entries (ls_db st))"
proof -
  from assms obtain es db' where t: "reverse_tx M ref rr (ls_db st) = Inr (es, db')" and
    rr: "rr = fst (next_reference ''REV'' e (ls_refs st))" "n = length es" and
    st': "st' = emit_reversed e 0 ref rr es (st\<lparr>ls_db := db', ls_refs := snd (next_reference ''REV'' e (ls_refs st))\<rparr>)"
    by (auto simp: reverse_def Let_def case_prod_beta split: sum.splits)
  note spec = reverse_tx_spec [OF t]
  have db: "ls_db st' = db'" by (simp add: st' ls_db_emit_reversed)
  have "net i (map (reversal_posting ref rr) es) = - amount_under ref i (entries (ls_db st))" for i
    unfolding net_reversal amount_under_def sum_filter_mset [OF spec(3)] ..
  with spec rr db that show thesis by simp
qed

lemma reversed_is_marked:
  assumes "reverse M e ref st = (Inr r, st')"
  shows "already_reversed ref (entries (ls_db st'))"
proof -
  obtain rr n where r: "r = (rr, n)" by (cases r)
  obtain es where es: "es \<noteq> []" "applies M entries (map (reversal_posting ref rr) es) (ls_db st) (ls_db st')"
    using reverse_ok_spec [OF assms [unfolded r]] by metis
  then obtain fs where fs: "entries (ls_db st') = entries (ls_db st) @ fs"
    "map posting_of fs = map (reversal_posting ref rr) es"
    using applies_entries [OF es(2)] by blast
  from es(1) obtain r' es' where "es = r' # es'" by (cases es) auto
  with fs(2) obtain f fs' where "fs = f # fs'" "posting_of f = reversal_posting ref rr r'" by (cases fs) auto
  then show ?thesis
    by (auto simp: already_reversed_def fs(1) reversal_posting_def posting_of_def)
qed

lemma already_reversed_mono:
  assumes "applies M entries ps db db'" "already_reversed ref (entries db)"
  shows "already_reversed ref (entries db')"
proof -
  obtain es where "entries db' = entries db @ es" using applies_entries [OF assms(1)] by blast
  with assms(2) show ?thesis by (auto simp: already_reversed_def)
qed

lemma already_reversed_refused:
  assumes "already_reversed ref (entries (ls_db st))"
  shows "fst (reverse M e ref st) = Inl (BusinessRuleError (''Transaction '' @ ref @ '' was already reversed''))"
proof -
  have "em_findEntries M (ls_db st) (\<lambda>r. entry_description r = REVERSAL_PREFIX @ ref) \<noteq> []"
    using assms unfolding find_entries_Nil_iff already_reversed_def by blast
  then show ?thesis
    by (simp add: reverse_def reverse_tx_def reverse_guard_def Let_def case_prod_beta require_def)
qed

end

section \<open>Errors\<close>

lemma deposit_failed:
  "deposit M e i amount options st = (Inl x, st') \<Longrightarrow> ls_db st' = ls_db st \<and> ls_bus st' = ls_bus st"
  by (auto simp: deposit_def Let_def split: sum.splits prod.splits)

lemma withdraw_failed:
  "withdraw M e i amount options st = (Inl x, st') \<Longrightarrow> ls_db st' = ls_db st \<and> ls_bus st' = ls_bus st"
  by (auto simp: withdraw_def Let_def split: sum.splits prod.splits)

lemma transfer_failed:
  "transfer M e input st = (Inl x, st') \<Longrightarrow> ls_db st' = ls_db st \<and> ls_bus st' = ls_bus st"
  by (auto simp: transfer_def Let_def split: sum.splits prod.splits if_splits)

lemma transfer_fee: "transfer M e input st = (Inr res, st') \<Longrightarrow> tr_feeMinor res = ti_feeMinor input"
  by (auto simp: transfer_def transfer_tx_def transfer_locked_def Let_def case_prod_beta result_simps
      split: sum.splits if_splits)

lemma reverse_failed:
  "reverse M e ref st = (Inl x, st') \<Longrightarrow> ls_db st' = ls_db st \<and> ls_bus st' = ls_bus st"
  by (auto simp: reverse_def Let_def split: sum.splits prod.splits)

section \<open>Sequences of operations\<close>

datatype ledger_command =
    CmdDeposit string int posting_options
  | CmdWithdraw string int posting_options
  | CmdTransfer ledger_transfer_input
  | CmdReverse string

fun ledger_step :: "'db entity_manager \<Rightarrow> env \<Rightarrow> ledger_command \<Rightarrow> 'db ledger_state \<Rightarrow> 'db ledger_state" where
  "ledger_step M e (CmdDeposit i amount options) st = snd (deposit M e i amount options st)"
| "ledger_step M e (CmdWithdraw i amount options) st = snd (withdraw M e i amount options st)"
| "ledger_step M e (CmdTransfer input) st = snd (transfer M e input st)"
| "ledger_step M e (CmdReverse ref) st = snd (reverse M e ref st)"

fun ledger_run :: "'db entity_manager \<Rightarrow> (env \<times> ledger_command) list \<Rightarrow> 'db ledger_state \<Rightarrow> 'db ledger_state" where
  "ledger_run M [] st = st"
| "ledger_run M ((e, c) # cs) st = ledger_run M cs (ledger_step M e c st)"

context entity_store
begin

lemma deposit_applies: "\<exists>ps. applies M entries ps (ls_db st) (ls_db (snd (deposit M e i amount options st)))"
proof (cases "deposit M e i amount options st")
  case (Pair r st')
  show ?thesis
  proof (cases r)
    case (Inl x)
    with Pair deposit_failed [of M e i amount options st x st'] show ?thesis using applies_none by auto
  next
    case (Inr x)
    with Pair show ?thesis by (auto elim!: deposit_ok_spec)
  qed
qed

lemma withdraw_applies: "\<exists>ps. applies M entries ps (ls_db st) (ls_db (snd (withdraw M e i amount options st)))"
proof (cases "withdraw M e i amount options st")
  case (Pair r st')
  show ?thesis
  proof (cases r)
    case (Inl x)
    with Pair withdraw_failed [of M e i amount options st x st'] show ?thesis using applies_none by auto
  next
    case (Inr x)
    with Pair show ?thesis by (auto elim!: withdraw_ok_spec)
  qed
qed

lemma transfer_applies: "\<exists>ps. applies M entries ps (ls_db st) (ls_db (snd (transfer M e input st)))"
proof (cases "transfer M e input st")
  case (Pair r st')
  show ?thesis
  proof (cases r)
    case (Inl x)
    with Pair transfer_failed [of M e input st x st'] show ?thesis using applies_none by auto
  next
    case (Inr x)
    with Pair show ?thesis by (auto elim!: transfer_ok_spec)
  qed
qed

lemma reverse_applies: "\<exists>ps. applies M entries ps (ls_db st) (ls_db (snd (reverse M e ref st)))"
proof (cases "reverse M e ref st")
  case (Pair r st')
  show ?thesis
  proof (cases r)
    case (Inl x)
    with Pair reverse_failed [of M e ref st x st'] show ?thesis using applies_none by auto
  next
    case (Inr x)
    obtain rr n where "x = (rr, n)" by (cases x)
    with Inr Pair show ?thesis by (auto elim!: reverse_ok_spec)
  qed
qed

lemma ledger_step_applies: "\<exists>ps. applies M entries ps (ls_db st) (ls_db (ledger_step M e c st))"
  by (cases c) (simp_all add: deposit_applies withdraw_applies transfer_applies reverse_applies)

lemma ledger_run_applies: "\<exists>ps. applies M entries ps (ls_db st) (ls_db (ledger_run M cs st))"
proof (induction cs arbitrary: st)
  case Nil
  show ?case using applies_none by auto
next
  case (Cons x cs)
  obtain e c where x: "x = (e, c)" by (cases x)
  obtain ps where 1: "applies M entries ps (ls_db st) (ls_db (ledger_step M e c st))"
    using ledger_step_applies by blast
  obtain qs where 2: "applies M entries qs (ls_db (ledger_step M e c st)) (ls_db (ledger_run M (x # cs) st))"
    using Cons.IH [of "ledger_step M e c st"] x by auto
  from applies_trans [OF 1 2] show ?case by (rule exI)
qed

lemma ledger_run_inv:
  assumes "ledger_inv M entries (ls_db st)"
  shows "ledger_inv M entries (ls_db (ledger_run M cs st))"
  using ledger_run_applies assms by (rule applies_ex_inv)

end

end
