(* ===== verification/SampleData.thy ===== *)
theory SampleData
  imports LedgerLaws
begin

text \<open>
  A small concrete bank: an environment, two customers' accounts and the tables that hold them.
  The witnesses of the properties evaluate the model on it.
\<close>

definition sample_env :: env where
  "sample_env = \<lparr>isoNow = ''2026-01-02T10:00:00.000Z'', rnd1296 = 5, startOfDayUs = 1000, nowMs = 5,
     nowHour = 10, nowDay = 2, eventIds = (\<lambda>i. ''event-'' @ show_nat i)\<rparr>"

definition sample_account :: "string \<Rightarrow> AccountStatus \<Rightarrow> int \<Rightarrow> account" where
  "sample_account i s b =
     \<lparr>acc_id = i, accountNumber = ''PK-'' @ i, ownerName = ''Ayesha'', acc_type = SAVINGS, acc_currency = ''PKR'',
      productCode = None, balanceMinor = b, dailyWithdrawalLimitMinor = 100000, annualInterestRate = 7 / 2,
      acc_status = s, acc_version = 1, acc_createdAt = 0\<rparr>"

definition opening_entry :: "string \<Rightarrow> string \<Rightarrow> int \<Rightarrow> ledger_entry" where
  "opening_entry u i b =
     \<lparr>entry_id = u, entry_accountId = i, entry_type = DEPOSIT, entry_amountMinor = b, entry_balanceAfterMinor = b,
      entry_reference = ''DEP-'' @ i, entry_description = ''Initial deposit'', entry_createdAt = 0\<rparr>"

definition sample_db :: tables where
  "sample_db =
     \<lparr>accountRows = [sample_account ''a'' ACTIVE 50000, sample_account ''b'' ACTIVE 20000,
                     sample_account ''c'' CLOSED 0],
      entryRows = [opening_entry ''u1'' ''a'' 50000, opening_entry ''u2'' ''b'' 20000],
      dbNow = 2000, dbUuids = (\<lambda>n. ''uuid-'' @ show_nat n), dbUuidCount = 0\<rparr>"

definition sample_bus :: bus_state where
  "sample_bus = \<lparr>kafkaEnabled = False, connected = False, brokerUp = False, kafkaSent = [], published = [], auditLog = [],
     counts = [], busErrors = []\<rparr>"

definition sample_state :: "tables ledger_state" where
  "sample_state = \<lparr>ls_db = sample_db, ls_refs = \<lparr>sequence = 0, nodeTag = ''OCAL''\<rparr>, ls_bus = sample_bus\<rparr>"

definition sample_transfer :: ledger_transfer_input where
  "sample_transfer = \<lparr>ti_fromAccountId = ''a'', ti_toAccountId = ''b'', ti_amountMinor = 10000, ti_feeMinor = 2500,
     ti_description = None\<rparr>"

lemmas sample_defs = sample_db_def sample_account_def opening_entry_def sample_bus_def sample_state_def
  sample_transfer_def sample_env_def

lemma sample_find [simp]:
  "find_row acc_id ''a'' (accountRows sample_db) = Some (sample_account ''a'' ACTIVE 50000)"
  "find_row acc_id ''b'' (accountRows sample_db) = Some (sample_account ''b'' ACTIVE 20000)"
  "find_row acc_id ''c'' (accountRows sample_db) = Some (sample_account ''c'' CLOSED 0)"
  by (simp_all add: sample_db_def sample_account_def)

lemma sample_ls_db [simp]: "ls_db sample_state = sample_db"
  by (simp add: sample_state_def)

lemma sample_withdrawnToday [simp]: "withdrawnToday tables_manager sample_env sample_db i = 0"
  by (simp add: tdb.withdrawnToday_eq sample_defs counts_today_def)

lemma sample_times [simp]: "startOfDayUs sample_env \<le> dbNow sample_db"
  by (simp add: sample_env_def sample_db_def)

lemma sample_inv: "ledger_inv tables_manager entryRows sample_db"
  by (auto simp: ledger_inv_def sample_defs split: if_splits)

lemma sample_transfer_ids [simp]:
  "ti_fromAccountId sample_transfer = ''a''" "ti_toAccountId sample_transfer = ''b''"
  "ti_amountMinor sample_transfer = 10000" "ti_feeMinor sample_transfer = 2500"
  by (simp_all add: sample_transfer_def)

lemma sample_account_simps [simp]:
  "balanceMinor (sample_account i s b) = b" "acc_status (sample_account i s b) = s"
  "dailyWithdrawalLimitMinor (sample_account i s b) = 100000" "acc_currency (sample_account i s b) = ''PKR''"
  "acc_id (sample_account i s b) = i"
  by (simp_all add: sample_account_def)

lemma sample_transfer_runs:
  obtains res st' where "transfer tables_manager sample_env sample_transfer sample_state = (Inr res, st')"
proof -
  have "is_ok (fst (transfer tables_manager sample_env sample_transfer sample_state))"
    by (rule tdb.transfer_succeeds [of _ _ "sample_account ''a'' ACTIVE 50000" "sample_account ''b'' ACTIVE 20000"])
      (simp_all add: transfer_ok_def withdrawal_ok_def deposit_ok_def)
  then show thesis
    using that by (cases "transfer tables_manager sample_env sample_transfer sample_state"; cases "fst (transfer tables_manager sample_env sample_transfer sample_state)") auto
qed

lemmas reverse_eval = reverse_def reverse_tx_def reverse_guard_def reverse_locked_def Let_def case_prod_beta
  REVERSAL_PREFIX_def js_distinct_def lockAccount_def post_def tables_save_def tables_insert_def

lemma sample_reverse:
  "\<exists>rr st'. reverse tables_manager sample_env ''DEP-b'' sample_state = (Inr (rr, 1), st')"
  by (simp add: reverse_eval sample_defs)

end
