(* ===== verification/LedgerProperties.thy ===== *)
theory LedgerProperties
  imports SampleData
begin

text \<open>
  The main theorems about the ledger service. They are stated for every entity manager \<open>M\<close> that
  satisfies the laws of \<open>entity_store\<close>, or for the tables of the migration where the time of an
  insert matters. Each theorem with a hypothesis is followed by a witness on the sample bank.
\<close>

section \<open>Transfers\<close>





section \<open>The books\<close>

text \<open>
  Whatever deposits, withdrawals, transfers and reversals are asked for, in any order and with
  any outcome, the balance of every account stays the sum of its ledger entries, never negative,
  and every entry records the balance its account had after it.
\<close>

theorem books_balance:
  assumes "entity_store M entries" and "ledger_inv M entries (ls_db st)"
    and "em_findAccount M (ls_db (ledger_run M cs st)) i = Some a"
  shows "balanceMinor a = sum_list (map entry_amountMinor (entries_for i (entries (ls_db (ledger_run M cs st))))) \<and>
    0 \<le> balanceMinor a \<and>
    trail_ok 0 (entries_for i (entries (ls_db (ledger_run M cs st)))) (balanceMinor a)"
  using entity_store.ledger_run_inv [OF assms(1,2), of cs] assms(3) trail_ok_sum
  by (fastforce simp: ledger_inv_def)

theorem books_balance_witness:
  "\<exists>a. em_findAccount tables_manager (ls_db (ledger_run tables_manager
        [(sample_env, CmdTransfer sample_transfer), (sample_env, CmdReverse ''DEP-b'')] sample_state)) ''a'' = Some a \<and>
     0 \<le> balanceMinor a"
proof -
  let ?cs = "[(sample_env, CmdTransfer sample_transfer), (sample_env, CmdReverse ''DEP-b'')]"
  obtain ps where ps: "applies tables_manager entryRows ps sample_db (ls_db (ledger_run tables_manager ?cs sample_state))"
    using tdb.ledger_run_applies [of sample_state ?cs] by auto
  have "em_findAccount tables_manager sample_db ''a'' = Some (sample_account ''a'' ACTIVE 50000)" by simp
  from applies_account [OF ps this] obtain a
    where "em_findAccount tables_manager (ls_db (ledger_run tables_manager ?cs sample_state)) ''a'' = Some a" by blast
  with books_balance [OF tables_store _ this] sample_inv show ?thesis by auto
qed

text \<open>
  An operation that fails, on whatever line, leaves the database as it was and publishes no event.
\<close>

theorem failed_operation_changes_nothing:
  "(deposit M e i amount options st = (Inl x, st') \<longrightarrow> ls_db st' = ls_db st \<and> ls_bus st' = ls_bus st) \<and>
   (withdraw M e i amount options st = (Inl x, st') \<longrightarrow> ls_db st' = ls_db st \<and> ls_bus st' = ls_bus st) \<and>
   (transfer M e input st = (Inl x, st') \<longrightarrow> ls_db st' = ls_db st \<and> ls_bus st' = ls_bus st) \<and>
   (reverse M e ref st = (Inl x, st') \<longrightarrow> ls_db st' = ls_db st \<and> ls_bus st' = ls_bus st)"
  by (intro conjI impI; drule deposit_failed withdraw_failed transfer_failed reverse_failed; simp)

theorem failed_operation_changes_nothing_witness:
  "\<exists>x st'. reverse tables_manager sample_env ''nothing'' sample_state = (Inl x, st') \<and>
     ls_db st' = sample_db \<and> ls_bus st' = sample_bus"
proof -
  have "\<exists>x st'. reverse tables_manager sample_env ''nothing'' sample_state = (Inl x, st')"
    by (simp add: reverse_def reverse_tx_def reverse_guard_def Let_def case_prod_beta require_def sample_defs)
  then obtain x st' where r: "reverse tables_manager sample_env ''nothing'' sample_state = (Inl x, st')" by blast
  moreover have "ls_db st' = ls_db sample_state \<and> ls_bus st' = ls_bus sample_state"
    using failed_operation_changes_nothing [where x = x and st' = st' and st = sample_state] r by blast
  ultimately show ?thesis by (simp add: sample_state_def)
qed

section \<open>Withdrawals and the daily limit\<close>

text \<open>
  A withdrawal succeeds exactly when the account exists, is active, holds the amount, and the
  amount with what was withdrawn since midnight stays within the daily limit; then exactly the
  amount leaves that account.
\<close>

theorem withdraw_succeeds_iff:
  assumes "entity_store M entries"
  shows "(\<exists>r st'. withdraw M e i amount options st = (Inr r, st') \<and>
       (\<forall>k. moves_by M (ls_db st) (ls_db st') k (if k = i then - amount else 0))) \<longleftrightarrow>
     (\<exists>a. em_findAccount M (ls_db st) i = Some a \<and>
       withdrawal_ok amount a (withdrawnToday M e (ls_db st) i))" (is "?l \<longleftrightarrow> ?r")
proof
  assume ?l
  then show ?r by (metis entity_store.withdraw_ok_spec [OF assms])
next
  assume ?r
  then have "is_ok (fst (withdraw M e i amount options st))"
    using entity_store.withdraw_succeeds [OF assms] by blast
  then obtain r st' where w: "withdraw M e i amount options st = (Inr r, st')"
    by (cases "withdraw M e i amount options st"; cases "fst (withdraw M e i amount options st)") auto
  have "moves_by M (ls_db st) (ls_db st') k (if k = i then - amount else 0)" for k
    using entity_store.withdraw_ok_spec [OF assms w] by (rule applies_moves_by) auto
  with w show ?l by blast
qed

theorem withdraw_succeeds_iff_witness:
  "\<exists>r st'. withdraw tables_manager sample_env ''a'' 30000 \<lparr>po_description = None, po_type = None\<rparr> sample_state = (Inr r, st')"
  using withdraw_succeeds_iff [OF tables_store, of sample_env "''a''" 30000 "\<lparr>po_description = None, po_type = None\<rparr>" sample_state]
  by (fastforce simp: withdrawal_ok_def)

text \<open>On the tables, what an operation inserts carries the time of the transaction.\<close>

definition grows :: "tables \<Rightarrow> tables \<Rightarrow> bool" where
  "grows db db' \<longleftrightarrow> dbNow db' = dbNow db \<and>
     (\<exists>es. entryRows db' = entryRows db @ es \<and> (\<forall>r \<in> set es. entry_createdAt r = dbNow db))"

lemma grows_refl [simp]: "grows db db"
  by (simp add: grows_def)

lemma grows_trans: "grows db db1 \<Longrightarrow> grows db1 db2 \<Longrightarrow> grows db db2"
  unfolding grows_def by (metis (no_types, lifting) Un_iff append.assoc set_append)

lemma post_grows: "post tables_manager db a n ty ref d = Inr (r, a', db') \<Longrightarrow> grows db db'"
  by (auto simp: post_def tables_save_def tables_insert_def Let_def grows_def split: if_splits)

lemma post_fee_grows: "post_fee tables_manager db a n ref = Inr (a', db') \<Longrightarrow> grows db db'"
  by (auto simp: post_fee_def result_simps dest: post_grows split: if_splits)

lemma withdraw_grows:
  "withdraw tables_manager e i n options st = (Inr r, st') \<Longrightarrow> grows (ls_db st) (ls_db st')"
  by (auto simp: withdraw_def emit_def Let_def dest: post_grows split: sum.splits prod.splits)

lemma transfer_locked_grows:
  "transfer_locked tables_manager e input ref src dst db = Inr (res, db') \<Longrightarrow> grows db db'"
  by (auto simp: transfer_locked_def Let_def result_simps ebind_case_prod_Inr
      dest!: post_grows post_fee_grows intro: grows_trans)

lemma transfer_grows:
  "transfer tables_manager e input st = (Inr r, st') \<Longrightarrow> grows (ls_db st) (ls_db st')"
  by (auto simp: transfer_def transfer_tx_def emit_def Let_def result_simps
      dest!: transfer_locked_grows split: sum.splits prod.splits if_splits)

definition counted :: "string \<Rightarrow> posting list \<Rightarrow> int" where
  "counted i ps = - sum_list (map pg_amountMinor
     (filter (\<lambda>p. pg_accountId p = i \<and> pg_type p \<in> {WITHDRAWAL, TRANSFER_OUT}) ps))"

lemma withdrawnToday_grows:
  assumes "grows db db'" "applies tables_manager entryRows ps db db'" "startOfDayUs e \<le> dbNow db"
  shows "withdrawnToday tables_manager e db' i = withdrawnToday tables_manager e db i + counted i ps"
proof -
  from assms(1) obtain es where es: "entryRows db' = entryRows db @ es" "\<forall>r \<in> set es. entry_createdAt r = dbNow db"
    by (auto simp: grows_def)
  with applies_entries [OF assms(2)] have ps: "ps = map posting_of es" by auto
  have "filter (counts_today i e) es =
      filter (\<lambda>r. entry_accountId r = i \<and> entry_type r \<in> {WITHDRAWAL, TRANSFER_OUT}) es"
    using es(2) assms(3) by (intro filter_cong) (auto simp: counts_today_def)
  then show ?thesis
    by (simp add: tdb.withdrawnToday_eq es(1) ps counted_def posting_of_def filter_map o_def)
qed



text \<open>
  The transfer fee does not count. A transfer adds its amount, and not its fee, to what the
  sender has withdrawn today, although the limit was checked against the two together.
\<close>

theorem fee_not_counted_today:
  assumes "transfer tables_manager e input st = (Inr res, st')"
    and "startOfDayUs e \<le> dbNow (ls_db st)"
  shows "withdrawnToday tables_manager e (ls_db st') (ti_fromAccountId input) =
    withdrawnToday tables_manager e (ls_db st) (ti_fromAccountId input) + ti_amountMinor input"
proof -
  from tdb.transfer_ok_spec [OF assms(1)] obtain ref d where
    ids: "ti_fromAccountId input \<noteq> ti_toAccountId input" and
    a: "applies tables_manager entryRows (transfer_postings input ref d) (ls_db st) (ls_db st')" by metis
  have "counted (ti_fromAccountId input) (transfer_postings input ref d) = ti_amountMinor input"
    using ids by (simp add: counted_def transfer_postings_def)
  with withdrawnToday_grows [OF transfer_grows [OF assms(1)] a assms(2)] show ?thesis by simp
qed

theorem fee_not_counted_today_witness:
  "\<exists>res st'. transfer tables_manager sample_env sample_transfer sample_state = (Inr res, st') \<and>
     withdrawnToday tables_manager sample_env (ls_db st') ''a'' = 10000"
proof -
  obtain res st' where t: "transfer tables_manager sample_env sample_transfer sample_state = (Inr res, st')"
    by (rule sample_transfer_runs)
  from fee_not_counted_today [OF t] have "withdrawnToday tables_manager sample_env (ls_db st') ''a'' = 10000"
    by simp
  with t show ?thesis by blast
qed

section \<open>Reversals\<close>

text \<open>
  C4: a reversal takes back, from every account, exactly what the entries under the original
  reference had put there, by writing new entries; the history before it stays, and it is refused
  when any of the accounts no longer holds what it would give back.
\<close>

theorem reverse_undoes:
  assumes "entity_store M entries"
    and "reverse M e ref st = (Inr (rr, n), st')"
  shows "\<not> already_reversed ref (entries (ls_db st)) \<and>
    n = length (filter (\<lambda>r. entry_reference r = ref) (entries (ls_db st))) \<and> 0 < n \<and>
    (\<exists>es. entries (ls_db st') = entries (ls_db st) @ es \<and> length es = n \<and>
       (\<forall>r \<in> set es. entry_type r = REVERSAL \<and> entry_reference r = rr \<and> entry_description r = REVERSAL_PREFIX @ ref)) \<and>
    (\<forall>i. moves_by M (ls_db st) (ls_db st') i (- amount_under ref i (entries (ls_db st))))"
proof -
  obtain es where g: "\<not> already_reversed ref (entries (ls_db st))" "es \<noteq> []"
    and m: "mset es = mset (filter (\<lambda>r. entry_reference r = ref) (entries (ls_db st)))"
    and a: "applies M entries (map (reversal_posting ref rr) es) (ls_db st) (ls_db st')"
    and n: "n = length es" and net: "\<And>i. net i (map (reversal_posting ref rr) es) = - amount_under ref i (entries (ls_db st))"
    by (rule entity_store.reverse_ok_spec [OF assms]) blast
  obtain fs where fs: "entries (ls_db st') = entries (ls_db st) @ fs"
    "map posting_of fs = map (reversal_posting ref rr) es" using applies_entries [OF a] by blast
  have "length fs = n" using fs(2) n by (metis length_map)
  moreover have "entry_type r = REVERSAL \<and> entry_reference r = rr \<and> entry_description r = REVERSAL_PREFIX @ ref"
    if "r \<in> set fs" for r
  proof -
    have "posting_of r \<in> set (map posting_of fs)" using that by simp
    then show ?thesis unfolding fs(2) by (auto simp: posting_of_def reversal_posting_def)
  qed
  moreover have "n = length (filter (\<lambda>r. entry_reference r = ref) (entries (ls_db st)))"
    unfolding n using m by (metis size_mset)
  moreover have "0 < n" using n g(2) by simp
  moreover have "moves_by M (ls_db st) (ls_db st') i (- amount_under ref i (entries (ls_db st)))" for i
    using a net by (rule applies_moves_by)
  ultimately show ?thesis using g(1) fs(1) by blast
qed

theorem reverse_undoes_witness:
  "\<exists>rr st'. reverse tables_manager sample_env ''DEP-b'' sample_state = (Inr (rr, 1), st') \<and>
     moves_by tables_manager sample_db (ls_db st') ''b'' (- 20000)"
proof -
  obtain rr st' where r: "reverse tables_manager sample_env ''DEP-b'' sample_state = (Inr (rr, 1), st')"
    using sample_reverse by blast
  have "amount_under ''DEP-b'' ''b'' (entryRows sample_db) = 20000"
    by (simp add: amount_under_def sample_defs)
  with reverse_undoes [OF tables_store r] have "moves_by tables_manager sample_db (ls_db st') ''b'' (- 20000)"
    by (metis sample_ls_db)
  with r show ?thesis by blast
qed

text \<open>
  C5: a transaction is reversed at most once. After a reversal has succeeded, and whatever is done
  to the ledger in between, reversing the same reference again is refused.
\<close>

theorem reverse_only_once:
  assumes "entity_store M entries"
    and "reverse M e ref st = (Inr r, st')"
  shows "fst (reverse M e' ref (ledger_run M cs st')) =
    Inl (BusinessRuleError (''Transaction '' @ ref @ '' was already reversed''))"
proof -
  have "already_reversed ref (entries (ls_db st'))"
    using assms by (rule entity_store.reversed_is_marked)
  moreover obtain ps where "applies M entries ps (ls_db st') (ls_db (ledger_run M cs st'))"
    using entity_store.ledger_run_applies [OF assms(1)] by blast
  ultimately have "already_reversed ref (entries (ls_db (ledger_run M cs st')))"
    using entity_store.already_reversed_mono [OF assms(1)] by blast
  then show ?thesis by (rule entity_store.already_reversed_refused [OF assms(1)])
qed

theorem reverse_only_once_witness:
  "\<exists>st'. fst (reverse tables_manager sample_env ''DEP-b'' (ledger_run tables_manager [] st')) =
     Inl (BusinessRuleError (''Transaction '' @ ''DEP-b'' @ '' was already reversed''))"
proof -
  obtain rr st' where "reverse tables_manager sample_env ''DEP-b'' sample_state = (Inr (rr, 1), st')"
    using sample_reverse by blast
  from reverse_only_once [OF tables_store this] show ?thesis by blast
qed

section \<open>Events\<close>

lemma reference_nonempty: "pfx \<noteq> [] \<Longrightarrow> fst (next_reference pfx e g) \<noteq> []"
  by (simp add: next_reference_def Let_def)

text \<open>
  A transfer that succeeds publishes exactly one event, after the new balances are in the
  database; the event satisfies the contract of its type and is keyed by the sending account.
\<close>

theorem transfer_event_valid:
  assumes "entity_store M entries"
    and "transfer M e input st = (Inr res, st')"
    and "joi_uuid j (eventIds e 0)" "joi_isoDate j (isoNow e)"
      "joi_uuid j (ti_fromAccountId input)" "joi_uuid j (ti_toAccountId input)"
    and "0 \<le> ti_feeMinor input" "ti_feeMinor input \<le> 2 ^ 53 - 1" "ti_amountMinor input \<le> 2 ^ 53 - 1"
  shows "\<exists>ev. auditLog (ls_bus st') = auditLog (ls_bus st) @ [ev] \<and>
     eventType ev = MONEY_TRANSFERRED \<and> validateEvent j (event_json ev) \<and>
     partitionKeyFor ev = ti_fromAccountId input \<and>
     map_of (payload ev) ''reference'' = Some (JStr (tr_reference res))"
proof -
  let ?ref = "fst (next_reference ''TRF'' e (ls_refs st))"
  let ?ev = "createEvent e 0 MONEY_TRANSFERRED (transfer_payload input ?ref)"
  obtain src dst where ok: "transfer_ok input src dst (withdrawnToday M e (ls_db st) (ti_fromAccountId input))"
    and res: "tr_reference res = ?ref" and bus: "ls_bus st' = app_publish ?ev (ls_bus st)"
    by (rule entity_store.transfer_ok_spec [OF assms(1,2)]) auto
  have "0 < ti_amountMinor input" using ok by (simp add: transfer_ok_def deposit_ok_def)
  then have "validateEvent j (event_json ?ev)"
    using assms(3-9) reference_nonempty [of "''TRF''" e "ls_refs st"]
    by (simp add: validateEvent_event_json schema_ok_def transfer_payload_def)
  moreover have "partitionKeyFor ?ev = ti_fromAccountId input"
    by (simp add: partitionKeyFor_def js_field_def transfer_payload_def)
  moreover have "map_of (payload ?ev) ''reference'' = Some (JStr (tr_reference res))"
    by (simp add: transfer_payload_def res)
  ultimately show ?thesis by (intro exI [of _ ?ev]) (simp add: bus app_publish_audit)
qed

theorem transfer_event_valid_witness:
  "\<exists>res st' ev. transfer tables_manager sample_env sample_transfer sample_state = (Inr res, st') \<and>
     auditLog (ls_bus st') = [ev] \<and> partitionKeyFor ev = ''a''"
proof -
  obtain res st' where t: "transfer tables_manager sample_env sample_transfer sample_state = (Inr res, st')"
    by (rule sample_transfer_runs)
  let ?j = "\<lparr>joi_uuid = (\<lambda>_. True), joi_isoDate = (\<lambda>_. True), joi_castNumber = (\<lambda>_. None)\<rparr>"
  from transfer_event_valid [OF tables_store t, of ?j] obtain ev where
    "auditLog (ls_bus st') = auditLog (ls_bus sample_state) @ [ev]" "partitionKeyFor ev = ''a''"
    by auto
  with t show ?thesis by (simp add: sample_state_def sample_bus_def)
qed

definition closed_db :: tables where
  "closed_db = sample_db\<lparr>accountRows := [sample_account ''c'' CLOSED 0],
     entryRows :=
       [opening_entry ''u3'' ''c'' 700,
        (opening_entry ''u4'' ''c'' 0)\<lparr>entry_type := WITHDRAWAL, entry_amountMinor := - 700, entry_reference := ''WDL-c''\<rparr>]\<rparr>"

definition closed_state :: "tables ledger_state" where
  "closed_state = sample_state\<lparr>ls_db := closed_db\<rparr>"


end
