(* ===== verification/FraudRules.thy ===== *)
theory FraudRules
  imports Core
begin

text \<open>
  The fraud rule language (\<open>src/src/modules/fraud/fraud-rule.interpreter.ts\<close>) and the engine that
  evaluates configured rules (\<open>src/src/modules/fraud/fraud-rule.engine.ts\<close>).

  The tokenizer reads a string, the recursive-descent parser a list of tokens: the suffix of
  \<open>tokens\<close> from \<open>position\<close>. Both are total. A \<open>RuleSyntaxError\<close> is its message. \<open>grammar\<close> is the
  grammar of the source's comment, and the parser returns only derivations of it.
\<close>

section \<open>Expressions and their meaning\<close>

datatype operator = Gt | Ge | Lt | Le | Eq | Neq

text \<open>
  A value of the context. \<open>VObject\<close> is what a plain object inherits from \<open>Object.prototype\<close> under
  the names of \<open>inherited_names\<close>: a function or an object, whose conversion to a number is NaN. \<open>VOpaque n\<close>
  is another value that equals no literal, \<open>null\<close> or an array of a request, which converts to the number
  \<open>n\<close>. A literal of a rule is neither.
\<close>

datatype rvalue = VStr string | VNum jsnum | VBool bool | VObject | VOpaque jsnum

datatype expression =
    Comparison string operator rvalue
  | And expression expression
  | Or expression expression
  | Not expression

type_synonym rule_context = "(string \<times> rvalue) list"

definition inherited_names :: "string list" where
  "inherited_names =
     [''constructor'', ''hasOwnProperty'', ''isPrototypeOf'', ''propertyIsEnumerable'', ''toLocaleString'',
      ''toString'', ''valueOf'', ''__proto__'', ''__defineGetter__'', ''__defineSetter__'',
      ''__lookupGetter__'', ''__lookupSetter__'']"

definition context_get :: "rule_context \<Rightarrow> string \<Rightarrow> rvalue option" where
  "context_get c x = (case map_of c x of
     Some v \<Rightarrow> Some v
   | None \<Rightarrow> if x \<in> set inherited_names then Some VObject else None)"

fun to_number :: "rvalue \<Rightarrow> jsnum" where
  "to_number (VStr s) = js_number s"
| "to_number (VNum n) = n"
| "to_number (VBool b) = Finite (if b then 1 else 0)"
| "to_number VObject = NaN"
| "to_number (VOpaque n) = n"

fun strict_eq :: "rvalue \<Rightarrow> rvalue \<Rightarrow> bool" where
  "strict_eq (VStr s) (VStr t) = (s = t)"
| "strict_eq (VNum m) (VNum n) = (m = n \<and> m \<noteq> NaN)"
| "strict_eq (VBool a) (VBool b) = (a = b)"
| "strict_eq v w = False"

fun compare_values :: "operator \<Rightarrow> rvalue \<Rightarrow> rvalue \<Rightarrow> bool" where
  "compare_values Eq actual v = strict_eq actual v"
| "compare_values Neq actual v = (\<not> strict_eq actual v)"
| "compare_values Gt actual v = num_less (to_number v) (to_number actual)"
| "compare_values Ge actual v = num_le (to_number v) (to_number actual)"
| "compare_values Lt actual v = num_less (to_number actual) (to_number v)"
| "compare_values Le actual v = num_le (to_number actual) (to_number v)"

fun interpret_rule :: "expression \<Rightarrow> rule_context \<Rightarrow> bool" where
  "interpret_rule (Comparison x opr v) c =
     (case context_get c x of None \<Rightarrow> False | Some actual \<Rightarrow> compare_values opr actual v)"
| "interpret_rule (And l r) c = (interpret_rule l c \<and> interpret_rule r c)"
| "interpret_rule (Or l r) c = (interpret_rule l c \<or> interpret_rule r c)"
| "interpret_rule (Not e) c = (\<not> interpret_rule e c)"

fun operator_text :: "operator \<Rightarrow> string" where
  "operator_text Gt = ''>''"
| "operator_text Ge = ''>=''"
| "operator_text Lt = ''<''"
| "operator_text Le = ''<=''"
| "operator_text Eq = ''==''"
| "operator_text Neq = ''!=''"

definition operator_of :: "string \<Rightarrow> operator option" where
  "operator_of s = find (\<lambda>opr. operator_text opr = s) [Gt, Ge, Lt, Le, Eq, Neq]"

fun value_text :: "rvalue \<Rightarrow> string" where
  "value_text (VStr s) = [CHR 0x27] @ s @ [CHR 0x27]"
| "value_text (VNum n) = number_to_string n"
| "value_text (VBool b) = (if b then ''true'' else ''false'')"
| "value_text VObject = ''[object Object]''"
| "value_text (VOpaque n) = ''[object Object]''"

fun rule_toString :: "expression \<Rightarrow> string" where
  "rule_toString (Comparison x opr v) = x @ '' '' @ operator_text opr @ '' '' @ value_text v"
| "rule_toString (And l r) = ''('' @ rule_toString l @ '' AND '' @ rule_toString r @ '')''"
| "rule_toString (Or l r) = ''('' @ rule_toString l @ '' OR '' @ rule_toString r @ '')''"
| "rule_toString (Not e) = ''NOT '' @ rule_toString e"

section \<open>The tokenizer\<close>

datatype token_kind = KIdent | KNumber | KString | KBool | KOp | KAnd | KOr | KNot | KLparen | KRparen

fun kind_name :: "token_kind \<Rightarrow> string" where
  "kind_name KIdent = ''ident''"
| "kind_name KNumber = ''number''"
| "kind_name KString = ''string''"
| "kind_name KBool = ''bool''"
| "kind_name KOp = ''op''"
| "kind_name KAnd = ''and''"
| "kind_name KOr = ''or''"
| "kind_name KNot = ''not''"
| "kind_name KLparen = ''lparen''"
| "kind_name KRparen = ''rparen''"

datatype token = Token (tok_kind: token_kind) (tok_text: string)

definition is_letter :: "char \<Rightarrow> bool" where
  "is_letter c \<longleftrightarrow> (let n = of_char c :: nat in (65 \<le> n \<and> n \<le> 90) \<or> (97 \<le> n \<and> n \<le> 122) \<or> n = 95)"

definition is_word :: "char \<Rightarrow> bool" where
  "is_word c \<longleftrightarrow> is_letter c \<or> is_digit c"

text \<open>The number alternative: an optional sign, digits, and a fraction only when digits follow the point.\<close>

fun fraction_lexeme :: "string \<Rightarrow> string" where
  "fraction_lexeme [] = []"
| "fraction_lexeme (c # cs) =
     (if c = CHR ''.'' \<and> takeWhile is_digit cs \<noteq> [] then CHR ''.'' # takeWhile is_digit cs else [])"

definition unsigned_lexeme :: "string \<Rightarrow> string option" where
  "unsigned_lexeme s = (let ds = takeWhile is_digit s in
     if ds = [] then None else Some (ds @ fraction_lexeme (dropWhile is_digit s)))"

definition number_lexeme :: "string \<Rightarrow> string option" where
  "number_lexeme s =
     (if take 1 s = ''-'' then map_option (Cons CHR ''-'') (unsigned_lexeme (tl s)) else unsigned_lexeme s)"

text \<open>What group 1 of the pattern matches at the start of \<open>s\<close>, its alternatives in order.\<close>

definition lexeme :: "string \<Rightarrow> string option" where
  "lexeme s =
     (if take 2 s \<in> {''>='', ''<='', ''=='', ''!=''} then Some (take 2 s)
      else if take 1 s \<in> {''>'', ''<'', ''('', '')''} then Some (take 1 s)
      else if take 1 s = [CHR 0x27] then
        (let body = takeWhile (\<lambda>c. c \<noteq> CHR 0x27) (tl s) in
           if length body + 1 < length s then Some ([CHR 0x27] @ body @ [CHR 0x27]) else None)
      else case number_lexeme s of
        Some t \<Rightarrow> Some t
      | None \<Rightarrow> if s \<noteq> [] \<and> is_letter (hd s) then Some (takeWhile is_word s) else None)"

definition classify :: "string \<Rightarrow> token" where
  "classify t = (let low = toLowerCase t in
     if t = ''('' then Token KLparen t
     else if t = '')'' then Token KRparen t
     else if t \<in> {''>='', ''<='', ''=='', ''!='', ''>'', ''<''} then Token KOp t
     else if take 1 t = [CHR 0x27] then Token KString (butlast (tl t))
     else if number_lexeme t \<noteq> None then Token KNumber t
     else if low = ''and'' then Token KAnd t
     else if low = ''or'' then Token KOr t
     else if low = ''not'' then Token KNot t
     else if low \<in> {''true'', ''false''} then Token KBool low
     else Token KIdent t)"

lemma lexeme_nonempty: "lexeme s = Some t \<Longrightarrow> t \<noteq> [] \<and> s \<noteq> []"
  by (cases s) (auto simp: lexeme_def number_lexeme_def unsigned_lexeme_def Let_def is_word_def
      split: if_splits option.splits)

lemma ebind_cong [fundef_cong]:
  "m = m' \<Longrightarrow> (\<And>a. m' = Inr a \<Longrightarrow> f a = f' a) \<Longrightarrow> ebind m f = ebind m' f'"
  by (cases m') auto

type_synonym 'a parsed = "string + 'a"

function tokenize_from :: "nat \<Rightarrow> string \<Rightarrow> token list parsed" where
  "tokenize_from index s =
     (if list_all is_space s then Inr []
      else let s' = dropWhile is_space s in
        case lexeme s' of
          None \<Rightarrow> Inl (''Unexpected character at position '' @ show_nat index @ '': '' @ [CHR 0x22] @ take 10 s @ [CHR 0x22])
        | Some t \<Rightarrow>
            ebind (tokenize_from (index + (length s - length s') + length t) (drop (length t) s'))
              (\<lambda>ts. Inr (classify t # ts)))"
  by auto
termination
proof (relation "measure (\<lambda>(i, s). length s)", goal_cases)
  case (2 index s s' t)
  then have "t \<noteq> []" "s' \<noteq> []" using lexeme_nonempty by blast+
  moreover have "length s' \<le> length s" using 2(2) length_dropWhile_le by blast
  ultimately have "length (drop (length t) s') < length s"
    by (cases t) (auto simp: less_le_trans [OF _ \<open>length s' \<le> length s\<close>])
  then show ?case by simp
qed simp

declare tokenize_from.simps [simp del]

definition tokenize :: "string \<Rightarrow> token list parsed" where
  "tokenize source = tokenize_from 0 source"

section \<open>The parser\<close>

definition syntax_expected :: "token_kind \<Rightarrow> token list \<Rightarrow> string" where
  "syntax_expected k ts = ''Expected '' @ kind_name k @ '' but found '' @ [CHR 0x22] @
     (case ts of [] \<Rightarrow> ''end of rule'' | t # _ \<Rightarrow> tok_text t) @ [CHR 0x22]"

definition expect :: "token_kind \<Rightarrow> token list \<Rightarrow> (token \<times> token list) parsed" where
  "expect k ts = (case ts of
     t # rest \<Rightarrow> if tok_kind t = k then Inr (t, rest) else Inl (syntax_expected k ts)
   | [] \<Rightarrow> Inl (syntax_expected k ts))"

definition next_is :: "token_kind \<Rightarrow> token list \<Rightarrow> bool" where
  "next_is k ts \<longleftrightarrow> (case ts of [] \<Rightarrow> False | t # _ \<Rightarrow> tok_kind t = k)"

fun literal_of :: "token \<Rightarrow> rvalue parsed" where
  "literal_of (Token KNumber s) = Inr (VNum (js_number s))"
| "literal_of (Token KString s) = Inr (VStr s)"
| "literal_of (Token KBool s) = Inr (VBool (s = ''true''))"
| "literal_of (Token k s) = Inl (''Expected a value but found '' @ [CHR 0x22] @ s @ [CHR 0x22])"

definition parse_comparison :: "token list \<Rightarrow> (expression \<times> token list) parsed" where
  "parse_comparison ts =
     ebind (expect KIdent ts) (\<lambda>(x, ts1).
     ebind (expect KOp ts1) (\<lambda>(opr, ts2).
       case ts2 of
         [] \<Rightarrow> Inl (''Missing value after '' @ [CHR 0x22] @ tok_text x @ '' '' @ tok_text opr @ [CHR 0x22])
       | t # rest \<Rightarrow> ebind (literal_of t) (\<lambda>v.
           case operator_of (tok_text opr) of
             None \<Rightarrow> Inl []
           | Some oper \<Rightarrow> Inr (Comparison (tok_text x) oper v, rest))))"

function (sequential) parse_or and or_loop and parse_and and and_loop and parse_not and parse_primary where
  "parse_or ts = ebind (parse_and ts) (\<lambda>(l, ts1). or_loop l ts1)"
| "or_loop l ts =
     (if next_is KOr ts then ebind (parse_and (tl ts)) (\<lambda>(r, ts1). or_loop (Or l r) ts1)
      else Inr (l, ts) :: (expression \<times> token list) parsed)"
| "parse_and ts = ebind (parse_not ts) (\<lambda>(l, ts1). and_loop l ts1)"
| "and_loop l ts =
     (if next_is KAnd ts then ebind (parse_not (tl ts)) (\<lambda>(r, ts1). and_loop (And l r) ts1)
      else Inr (l, ts))"
| "parse_not ts =
     (if next_is KNot ts then ebind (parse_not (tl ts)) (\<lambda>(e, ts1). Inr (Not e, ts1))
      else parse_primary ts)"
| "parse_primary ts =
     (if next_is KLparen ts
      then ebind (parse_or (tl ts)) (\<lambda>(inner, ts1). ebind (expect KRparen ts1) (\<lambda>(_, ts2). Inr (inner, ts2)))
      else parse_comparison ts)"
  by pat_completeness auto

lemma expect_ok [result_simps]: "expect k ts = Inr (t, rest) \<longleftrightarrow> (\<exists>s. t = Token k s \<and> ts = t # rest)"
  by (cases t) (auto simp: expect_def split: list.splits)

lemma next_is_Cons [simp]: "next_is k (t # ts) \<longleftrightarrow> tok_kind t = k" "\<not> next_is k []"
  by (simp_all add: next_is_def)

lemma next_isE: "next_is k ts \<Longrightarrow> (\<And>t rest. ts = t # rest \<Longrightarrow> tok_kind t = k \<Longrightarrow> P) \<Longrightarrow> P"
  by (cases ts) auto

text \<open>A comparison takes three tokens.\<close>

lemma parse_comparison_ok:
  "parse_comparison ts = Inr (e, rest) \<longleftrightarrow>
     (\<exists>x o' oper t v. ts = Token KIdent x # Token KOp o' # t # rest \<and> operator_of o' = Some oper \<and>
        literal_of t = Inr v \<and> e = Comparison x oper v)" (is "?l \<longleftrightarrow> ?r")
proof
  assume ?l
  then show ?r
    by (auto simp: parse_comparison_def result_simps)
next
  assume ?r
  then show ?l by (auto simp: parse_comparison_def expect_def)
qed

lemma parse_shorter_dom:
  "parse_or_or_loop_parse_and_and_loop_parse_not_parse_primary_dom (Inl (Inl ts)) \<Longrightarrow>
     parse_or ts = Inr (e, rest) \<Longrightarrow> length rest < length ts"
  "parse_or_or_loop_parse_and_and_loop_parse_not_parse_primary_dom (Inl (Inr (Inl (l, ts2)))) \<Longrightarrow>
     or_loop l ts2 = Inr (e, rest) \<Longrightarrow> length rest \<le> length ts2"
  "parse_or_or_loop_parse_and_and_loop_parse_not_parse_primary_dom (Inl (Inr (Inr ts3))) \<Longrightarrow>
     parse_and ts3 = Inr (e, rest) \<Longrightarrow> length rest < length ts3"
  "parse_or_or_loop_parse_and_and_loop_parse_not_parse_primary_dom (Inr (Inl (l, ts4))) \<Longrightarrow>
     and_loop l ts4 = Inr (e, rest) \<Longrightarrow> length rest \<le> length ts4"
  "parse_or_or_loop_parse_and_and_loop_parse_not_parse_primary_dom (Inr (Inr (Inl ts5))) \<Longrightarrow>
     parse_not ts5 = Inr (e, rest) \<Longrightarrow> length rest < length ts5"
  "parse_or_or_loop_parse_and_and_loop_parse_not_parse_primary_dom (Inr (Inr (Inr ts6))) \<Longrightarrow>
     parse_primary ts6 = Inr (e, rest) \<Longrightarrow> length rest < length ts6"
proof (induction ts and l ts2 and ts3 and l ts4 and ts5 and ts6 arbitrary: e rest and e rest and e rest
    and e rest and e rest and e rest
    rule: parse_or_or_loop_parse_and_and_loop_parse_not_parse_primary.pinduct)
  case (1 ts)
  then show ?case by (fastforce simp: parse_or.psimps result_simps)
next
  case (2 l ts)
  then show ?case by (fastforce simp: or_loop.psimps result_simps elim!: next_isE split: if_splits)
next
  case (3 ts)
  then show ?case by (fastforce simp: parse_and.psimps result_simps)
next
  case (4 l ts)
  then show ?case by (fastforce simp: and_loop.psimps result_simps elim!: next_isE split: if_splits)
next
  case (5 ts)
  then show ?case by (fastforce simp: parse_not.psimps result_simps elim!: next_isE split: if_splits)
next
  case (6 ts)
  then show ?case
    by (fastforce simp: parse_primary.psimps result_simps parse_comparison_ok elim!: next_isE split: if_splits)
qed

text \<open>Calls consume tokens or go down in precedence; \<open>rank\<close> orders calls on the same tokens.\<close>

termination parse_or
proof (relation "measure (\<lambda>x. case x of
      Inl (Inl ts) \<Rightarrow> 4 * length ts + 3 | Inl (Inr (Inl (l, ts))) \<Rightarrow> 4 * length ts
    | Inl (Inr (Inr ts)) \<Rightarrow> 4 * length ts + 2 | Inr (Inl (l, ts)) \<Rightarrow> 4 * length ts
    | Inr (Inr (Inl ts)) \<Rightarrow> 4 * length ts + 1 | Inr (Inr (Inr ts)) \<Rightarrow> 4 * length ts)")
qed (fastforce dest: parse_shorter_dom elim!: next_isE)+

declare parse_or.simps [simp del] or_loop.simps [simp del] parse_and.simps [simp del]
  and_loop.simps [simp del] parse_not.simps [simp del] parse_primary.simps [simp del]

lemmas parser_simps = parse_or.simps or_loop.simps parse_and.simps and_loop.simps parse_not.simps parse_primary.simps
lemmas parser_induct = parse_or_or_loop_parse_and_and_loop_parse_not_parse_primary.induct

definition parse_tokens :: "token list \<Rightarrow> expression parsed" where
  "parse_tokens tokens =
     (if tokens = [] then Inl ''Rule is empty''
      else ebind (parse_or tokens) (\<lambda>(e, rest). case rest of
          [] \<Rightarrow> Inr e
        | t # _ \<Rightarrow> Inl (''Unexpected token '' @ [CHR 0x22] @ tok_text t @ [CHR 0x22])))"

definition parse_rule :: "string \<Rightarrow> expression parsed" where
  "parse_rule source = ebind (tokenize source) parse_tokens"

section \<open>The engine\<close>

fun load_rules :: "string list \<Rightarrow> (string \<times> expression) list parsed" where
  "load_rules [] = Inr []"
| "load_rules (s # ss) = ebind (parse_rule s) (\<lambda>e. ebind (load_rules ss) (\<lambda>rs. Inr ((s, e) # rs)))"

record fraud_verdict =
  fv_suspicious :: bool
  fv_matchedRules :: "string list"

definition evaluate :: "(string \<times> expression) list \<Rightarrow> rule_context \<Rightarrow> fraud_verdict" where
  "evaluate rules c = (let matched = map fst (filter (\<lambda>r. interpret_rule (snd r) c) rules) in
     \<lparr>fv_suspicious = (matched \<noteq> []), fv_matchedRules = matched\<rparr>)"

definition tryRule :: "string \<Rightarrow> rule_context \<Rightarrow> (string \<times> string \<times> bool) parsed" where
  "tryRule source c = ebind (parse_rule source) (\<lambda>e. Inr (source, rule_toString e, interpret_rule e c))"

definition activeRules :: "(string \<times> expression) list \<Rightarrow> string list" where
  "activeRules rules = map fst rules"

text \<open>\<open>POST /api/fraud/evaluate\<close>: a syntax error becomes a business error.\<close>

definition evaluate_endpoint :: "string \<Rightarrow> rule_context \<Rightarrow> err + (string \<times> string \<times> bool)" where
  "evaluate_endpoint rule c = (case tryRule rule c of Inl m \<Rightarrow> Inl (BusinessRuleError m) | Inr r \<Rightarrow> Inr r)"

text \<open>\<open>AppConfigService.fraudRules\<close>.\<close>

definition fraudRules :: "string option \<Rightarrow> string list" where
  "fraudRules v = filter (\<lambda>r. r \<noteq> []) (map js_trim (js_split CHR '';'' (case v of None \<Rightarrow> [] | Some s \<Rightarrow> s)))"

section \<open>The grammar\<close>

inductive orE :: "token list \<Rightarrow> expression \<Rightarrow> bool"
  and andE :: "token list \<Rightarrow> expression \<Rightarrow> bool"
  and notE :: "token list \<Rightarrow> expression \<Rightarrow> bool"
  and primE :: "token list \<Rightarrow> expression \<Rightarrow> bool" where
  or_one: "andE ts e \<Longrightarrow> orE ts e"
| or_more: "orE ts l \<Longrightarrow> tok_kind t = KOr \<Longrightarrow> andE us r \<Longrightarrow> orE (ts @ t # us) (Or l r)"
| and_one: "notE ts e \<Longrightarrow> andE ts e"
| and_more: "andE ts l \<Longrightarrow> tok_kind t = KAnd \<Longrightarrow> notE us r \<Longrightarrow> andE (ts @ t # us) (And l r)"
| not_op: "tok_kind t = KNot \<Longrightarrow> notE ts e \<Longrightarrow> notE (t # ts) (Not e)"
| not_prim: "primE ts e \<Longrightarrow> notE ts e"
| prim_paren: "tok_kind lp = KLparen \<Longrightarrow> orE ts e \<Longrightarrow> tok_kind rp = KRparen \<Longrightarrow> primE (lp # ts @ [rp]) e"
| prim_cmp: "operator_of o' = Some oper \<Longrightarrow> literal_of t = Inr v \<Longrightarrow>
    primE [Token KIdent x, Token KOp o', t] (Comparison x oper v)"

lemma parser_sound:
  "parse_or ts = Inr (e, rest) \<Longrightarrow> \<exists>us. ts = us @ rest \<and> orE us e"
  "or_loop l ts2 = Inr (e, rest) \<Longrightarrow> orE ps l \<Longrightarrow> \<exists>us. ts2 = us @ rest \<and> orE (ps @ us) e"
  "parse_and ts3 = Inr (e, rest) \<Longrightarrow> \<exists>us. ts3 = us @ rest \<and> andE us e"
  "and_loop l ts4 = Inr (e, rest) \<Longrightarrow> andE ps l \<Longrightarrow> \<exists>us. ts4 = us @ rest \<and> andE (ps @ us) e"
  "parse_not ts5 = Inr (e, rest) \<Longrightarrow> \<exists>us. ts5 = us @ rest \<and> notE us e"
  "parse_primary ts6 = Inr (e, rest) \<Longrightarrow> \<exists>us. ts6 = us @ rest \<and> primE us e"
proof (induction ts and l ts2 and ts3 and l ts4 and ts5 and ts6 arbitrary: e rest and e rest ps and e rest
    and e rest ps and e rest and e rest rule: parser_induct)
  case (1 ts)
  from "1.prems" obtain l ts1 where a: "parse_and ts = Inr (l, ts1)" and o: "or_loop l ts1 = Inr (e, rest)"
    by (auto simp: parse_or.simps result_simps)
  from "1.IH"(1) [OF a] obtain us where us: "ts = us @ ts1" "andE us l" by blast
  from "1.IH"(2) [OF a refl o or_one [OF us(2)]] us show ?case by auto
next
  case (2 l ts)
  show ?case
  proof (cases "next_is KOr ts")
    case True
    then obtain t ts' where t: "ts = t # ts'" "tok_kind t = KOr" by (rule next_isE)
    from "2.prems"(1) True t obtain r ts1 where a: "parse_and ts' = Inr (r, ts1)" and
      o: "or_loop (Or l r) ts1 = Inr (e, rest)" by (subst (asm) or_loop.simps) (auto simp: result_simps)
    from "2.IH"(1) [OF True] a t obtain us where us: "ts' = us @ ts1" "andE us r" by auto
    from "2.IH"(2) [OF True _ refl o, of "ps @ t # us"] a t us or_more [OF "2.prems"(2) t(2) us(2)]
    show ?thesis by auto
  next
    case False
    with "2.prems" show ?thesis by (auto simp: or_loop.simps [of l ts])
  qed
next
  case (3 ts)
  from "3.prems" obtain l ts1 where a: "parse_not ts = Inr (l, ts1)" and o: "and_loop l ts1 = Inr (e, rest)"
    by (auto simp: parse_and.simps result_simps)
  from "3.IH"(1) [OF a] obtain us where us: "ts = us @ ts1" "notE us l" by blast
  from "3.IH"(2) [OF a refl o and_one [OF us(2)]] us show ?case by auto
next
  case (4 l ts)
  show ?case
  proof (cases "next_is KAnd ts")
    case True
    then obtain t ts' where t: "ts = t # ts'" "tok_kind t = KAnd" by (rule next_isE)
    from "4.prems"(1) True t obtain r ts1 where a: "parse_not ts' = Inr (r, ts1)" and
      o: "and_loop (And l r) ts1 = Inr (e, rest)" by (subst (asm) and_loop.simps) (auto simp: result_simps)
    from "4.IH"(1) [OF True] a t obtain us where us: "ts' = us @ ts1" "notE us r" by auto
    from "4.IH"(2) [OF True _ refl o, of "ps @ t # us"] a t us and_more [OF "4.prems"(2) t(2) us(2)]
    show ?thesis by auto
  next
    case False
    with "4.prems" show ?thesis by (auto simp: and_loop.simps [of l ts])
  qed
next
  case (5 ts)
  show ?case
  proof (cases "next_is KNot ts")
    case True
    then obtain t ts' where t: "ts = t # ts'" "tok_kind t = KNot" by (rule next_isE)
    with "5.prems" obtain i where "parse_not ts' = Inr (i, rest)" "e = Not i"
      by (subst (asm) parse_not.simps) (auto simp: result_simps)
    with "5.IH"(1) [OF True] t show ?thesis using not_op [OF t(2)] by (metis append_Cons list.sel(3))
  next
    case False
    with "5.prems" "5.IH"(2) show ?thesis by (auto simp: parse_not.simps [of ts] intro: not_prim)
  qed
next
  case (6 ts)
  show ?case
  proof (cases "next_is KLparen ts")
    case True
    then obtain t ts' where t: "ts = t # ts'" "tok_kind t = KLparen" by (rule next_isE)
    with "6.prems" obtain rp ts1 where o: "parse_or ts' = Inr (e, ts1)" and rp: "ts1 = rp # rest" "tok_kind rp = KRparen"
      by (subst (asm) parse_primary.simps) (auto simp: result_simps)
    from "6.IH" [OF True] o t obtain us where "ts' = us @ ts1" "orE us e" by auto
    with t rp prim_paren [OF t(2) _ rp(2)] show ?thesis by (intro exI [of _ "t # us @ [rp]"]) auto
  next
    case False
    with "6.prems" have "parse_comparison ts = Inr (e, rest)" by (simp add: parse_primary.simps [of ts])
    then obtain x o' oper t v where "ts = [Token KIdent x, Token KOp o', t] @ rest" "operator_of o' = Some oper"
      "literal_of t = Inr v" "e = Comparison x oper v" by (auto simp: parse_comparison_ok)
    then show ?thesis using prim_cmp by blast
  qed
qed

lemma parser_complete:
  "orE ts e \<Longrightarrow> \<not> next_is KAnd rest \<Longrightarrow> parse_or (ts @ rest) = or_loop e rest"
  "andE ts2 e2 \<Longrightarrow> parse_and (ts2 @ rest2) = and_loop e2 rest2"
  "notE ts3 e3 \<Longrightarrow> parse_not (ts3 @ rest3) = Inr (e3, rest3)"
  "primE ts4 e4 \<Longrightarrow> parse_not (ts4 @ rest4) = Inr (e4, rest4)"
proof (induction arbitrary: rest and rest2 and rest3 and rest4 rule: orE_andE_notE_primE.inducts)
  case (or_one ts e)
  then show ?case by (simp add: parse_or.simps and_loop.simps [of e])
next
  case (or_more ts l t us r)
  then show ?case by (simp add: or_loop.simps [of l] and_loop.simps [of r])
next
  case (and_one ts e)
  then show ?case by (simp add: parse_and.simps)
next
  case (and_more ts l t us r)
  then show ?case by (simp add: and_loop.simps [of l])
next
  case (not_op t ts e)
  then show ?case by (simp add: parse_not.simps)
next
  case (not_prim ts e)
  then show ?case by simp
next
  case (prim_paren lp ts e rp)
  then show ?case
    by (simp add: parse_not.simps parse_primary.simps or_loop.simps [of e] expect_def)
next
  case (prim_cmp o' oper t v x)
  then show ?case
    by (simp add: parse_not.simps parse_primary.simps) (auto simp: parse_comparison_ok)
qed

lemma orE_nonempty: "orE ts e \<Longrightarrow> ts \<noteq> []" "andE ts2 e2 \<Longrightarrow> ts2 \<noteq> []" "notE ts3 e3 \<Longrightarrow> ts3 \<noteq> []"
  "primE ts4 e4 \<Longrightarrow> ts4 \<noteq> []"
  by (induction rule: orE_andE_notE_primE.inducts) auto

lemma parse_tokens_iff: "parse_tokens ts = Inr e \<longleftrightarrow> orE ts e"
proof
  assume "parse_tokens ts = Inr e"
  then have "parse_or ts = Inr (e, [])"
    by (auto simp: parse_tokens_def result_simps split: if_splits)
  from parser_sound(1) [OF this] show "orE ts e" by simp
next
  assume o: "orE ts e"
  from parser_complete(1) [OF o, of "[]"] have "parse_or ts = Inr (e, [])" by (simp add: or_loop.simps)
  with orE_nonempty(1) [OF o] show "parse_tokens ts = Inr e" by (simp add: parse_tokens_def)
qed

section \<open>Reading back a printed rule\<close>

definition ident_ok :: "string \<Rightarrow> bool" where
  "ident_ok x \<longleftrightarrow> x \<noteq> [] \<and> is_letter (hd x) \<and> list_all is_word x \<and>
     toLowerCase x \<notin> {''and'', ''or'', ''not'', ''true'', ''false''}"

fun value_ok :: "rvalue \<Rightarrow> bool" where
  "value_ok (VStr s) = (CHR 0x27 \<notin> set s)"
| "value_ok (VNum (Finite q)) = (of_int \<lfloor>q\<rfloor> = q \<and> \<bar>q\<bar> \<le> 2 ^ 53)"
| "value_ok (VNum n) = False"
| "value_ok (VBool b) = True"
| "value_ok VObject = False"
| "value_ok (VOpaque n) = False"

fun expression_ok :: "expression \<Rightarrow> bool" where
  "expression_ok (Comparison x opr v) = (ident_ok x \<and> value_ok v)"
| "expression_ok (And l r) = (expression_ok l \<and> expression_ok r)"
| "expression_ok (Or l r) = (expression_ok l \<and> expression_ok r)"
| "expression_ok (Not e) = expression_ok e"

fun value_token :: "rvalue \<Rightarrow> token" where
  "value_token (VStr s) = Token KString s"
| "value_token (VNum n) = Token KNumber (number_to_string n)"
| "value_token (VBool b) = Token KBool (if b then ''true'' else ''false'')"
| "value_token VObject = Token KIdent ''object''"
| "value_token (VOpaque n) = Token KIdent ''object''"

fun expression_tokens :: "expression \<Rightarrow> token list" where
  "expression_tokens (Comparison x opr v) = [Token KIdent x, Token KOp (operator_text opr), value_token v]"
| "expression_tokens (And l r) = Token KLparen ''('' # (expression_tokens l @ Token KAnd ''AND'' # expression_tokens r) @ [Token KRparen '')'']"
| "expression_tokens (Or l r) = Token KLparen ''('' # (expression_tokens l @ Token KOr ''OR'' # expression_tokens r) @ [Token KRparen '')'']"
| "expression_tokens (Not e) = Token KNot ''NOT'' # expression_tokens e"

lemma operator_of_text [simp]: "operator_of (operator_text opr) = Some opr"
  by (cases opr) (simp_all add: operator_of_def)

lemma js_number_show_int:
  assumes "\<bar>n\<bar> \<le> 2 ^ 53"
  shows "js_number (show_int n) = Finite (of_int n)"
proof -
  have digit: "is_digit c \<Longrightarrow> \<not> is_space c \<and> c \<noteq> CHR ''-'' \<and> c \<noteq> CHR ''+'' \<and> c \<noteq> CHR ''I'' \<and>
      c \<noteq> CHR ''x'' \<and> c \<noteq> CHR ''X'' \<and> c \<noteq> CHR ''o'' \<and> c \<noteq> CHR ''O'' \<and> c \<noteq> CHR ''b'' \<and> c \<noteq> CHR ''B''" for c
    by (auto simp: is_digit_def is_space_def)
  have nat: "decimal_number (show_nat m) = Finite (of_nat m)" if "m \<le> 2 ^ 53" for m
  proof -
    have "dbl (of_int (int m)) = of_int (int m)" using that by (intro dbl_of_int) simp
    then show ?thesis
      using show_nat_digits [of m]
      by (simp add: decimal_number_def Let_def takeWhile_eq_all_conv [THEN iffD2] dropWhile_eq_Nil_conv [THEN iffD2])
  qed
  have trim: "js_trim s = s" if "\<forall>c \<in> set s. \<not> is_space c" for s
  proof -
    have d: "dropWhile is_space t = t" if "\<forall>c \<in> set t. \<not> is_space c" for t
      using that by (cases t) auto
    show ?thesis using that by (simp add: js_trim_def d)
  qed
  obtain c cs where c: "show_nat (nat \<bar>n\<bar>) = c # cs" by (cases "show_nat (nat \<bar>n\<bar>)") auto
  have ds: "\<forall>x \<in> set (c # cs). is_digit x" using show_nat_digits [of "nat \<bar>n\<bar>"] c by simp
  have len2: "take 2 (c # cs) \<noteq> [CHR ''0'', y]" if "\<not> is_digit y" for y
    using ds that by (cases cs) auto
  have val: "decimal_number (c # cs) = Finite (of_int \<bar>n\<bar>)"
    using nat [of "nat \<bar>n\<bar>"] assms c by simp
  have inf: "c # cs \<noteq> ''Infinity''" using ds digit by auto
  have pre: "take 2 (c # cs) \<notin> {''0x'', ''0X'', ''0o'', ''0O'', ''0b'', ''0B''}"
    using len2 by (auto simp: is_digit_def)
  show ?thesis
  proof (cases "n < 0")
    case True
    have "js_trim (CHR ''-'' # c # cs) = CHR ''-'' # c # cs"
      using ds digit by (intro trim) (auto simp: is_space_def)
    with True c inf val show ?thesis by (simp add: show_int_def js_number_def Let_def)
  next
    case False
    have "js_trim (c # cs) = c # cs" using ds digit by (intro trim) auto
    moreover have "c \<noteq> CHR ''-''" "c \<noteq> CHR ''+''" using ds digit by auto
    ultimately show ?thesis using False c inf val pre by (auto simp: show_int_def js_number_def Let_def)
  qed
qed

lemma literal_of_value_token: "value_ok v \<Longrightarrow> literal_of (value_token v) = Inr v"
proof (cases v)
  case (VNum n)
  assume "value_ok v"
  with VNum obtain q where q: "n = Finite q" "of_int \<lfloor>q\<rfloor> = q" "\<bar>q\<bar> \<le> 2 ^ 53" by (cases n) auto
  then have b: "\<bar>\<lfloor>q\<rfloor>\<bar> \<le> 2 ^ 53"
    by (metis (mono_tags, opaque_lifting) of_int_abs of_int_le_iff of_int_numeral of_int_power)
  from number_to_string_int [OF b] js_number_show_int [OF b] q VNum show ?thesis by simp
qed auto

lemma tokens_derivation: "expression_ok e \<Longrightarrow> notE (expression_tokens e) e"
proof (induction e)
  case (Comparison x opr v)
  then show ?case by (auto intro!: not_prim prim_cmp simp: literal_of_value_token)
next
  case (And l r)
  then have "andE (expression_tokens l @ Token KAnd ''AND'' # expression_tokens r) (And l r)"
    by (auto intro: and_more and_one)
  from prim_paren [OF _ or_one [OF this], of "Token KLparen ''(''" "Token KRparen '')''"]
  show ?case by (auto intro: not_prim)
next
  case (Or l r)
  then have "orE (expression_tokens l @ Token KOr ''OR'' # expression_tokens r) (Or l r)"
    by (intro or_more) (auto intro: or_one and_one)
  from prim_paren [OF _ this, of "Token KLparen ''(''" "Token KRparen '')''"]
  show ?case by (auto intro: not_prim)
next
  case (Not e)
  then show ?case by (auto intro: not_op)
qed

text \<open>\<open>s\<close> is tokenized to \<open>ts\<close>, wherever it stands.\<close>

definition reads :: "string \<Rightarrow> token list \<Rightarrow> bool" where
  "reads s ts \<longleftrightarrow> (\<forall>i. tokenize_from i s = Inr ts)"

lemma reads_Nil: "reads [] []"
  by (simp add: reads_def tokenize_from.simps)

lemma reads_space: "is_space c \<Longrightarrow> reads s ts \<Longrightarrow> reads (c # s) ts"
  unfolding reads_def
proof
  fix i assume c: "is_space c" and r: "\<forall>i. tokenize_from i s = Inr ts"
  have le: "length (dropWhile is_space s) \<le> length s" by (rule length_dropWhile_le)
  have "tokenize_from (Suc i) s = Inr ts" using r by simp
  then show "tokenize_from i (c # s) = Inr ts"
    using c le by (simp add: tokenize_from.simps [of "Suc i" s] tokenize_from.simps [of i "c # s"] Let_def
        Suc_diff_le split: if_splits option.splits)
qed

lemma reads_lexeme: "lexeme (t @ s) = Some t \<Longrightarrow> \<not> is_space (hd t) \<Longrightarrow> reads s ts \<Longrightarrow> reads (t @ s) (classify t # ts)"
proof -
  assume a: "lexeme (t @ s) = Some t" "\<not> is_space (hd t)" "reads s ts"
  from lexeme_nonempty [OF a(1)] obtain c t' where "t = c # t'" by (cases t) auto
  with a show ?thesis by (simp add: reads_def tokenize_from.simps [of _ "c # t' @ s"] Let_def)
qed

text \<open>What may follow a lexeme of a printed rule.\<close>

definition boundary :: "string \<Rightarrow> bool" where
  "boundary s \<longleftrightarrow> (case s of [] \<Rightarrow> True | c # _ \<Rightarrow> c = CHR '' '' \<or> c = CHR '')'')"

lemma boundary_simps [simp]: "boundary []" "boundary (CHR '' '' # s)" "boundary (CHR '')'' # s)"
  by (simp_all add: boundary_def)

lemma boundary_cases: "boundary s \<Longrightarrow> s = [] \<or> (\<exists>s'. s = CHR '' '' # s') \<or> (\<exists>s'. s = CHR '')'' # s')"
  by (cases s) (auto simp: boundary_def)

lemma takeWhile_boundary:
  "list_all P x \<Longrightarrow> \<not> P CHR '' '' \<Longrightarrow> \<not> P CHR '')'' \<Longrightarrow> boundary s \<Longrightarrow> takeWhile P (x @ s) = x \<and> dropWhile P (x @ s) = s"
  by (induction x) (auto dest: boundary_cases)

lemma letter_not: "is_letter c \<Longrightarrow> \<not> is_digit c \<and> \<not> is_space c \<and>
    c \<notin> {CHR ''>'', CHR ''<'', CHR ''='', CHR ''!'', CHR ''('', CHR '')'', CHR 0x27, CHR ''-''}"
  by (auto simp: is_letter_def is_digit_def is_space_def Let_def)

lemma lexeme_word:
  assumes "x \<noteq> []" "is_letter (hd x)" "list_all is_word x" "boundary s"
  shows "lexeme (x @ s) = Some x"
proof -
  obtain c cs where x: "x = c # cs" using assms(1) by (cases x) auto
  have c: "is_letter c" using assms(2) x by simp
  have w: "takeWhile is_word (x @ s) = x"
    using takeWhile_boundary [of is_word x s] assms(3,4) by (simp add: is_word_def is_letter_def is_digit_def)
  have n: "number_lexeme (c # cs @ s) = None"
    using letter_not [OF c] by (simp add: number_lexeme_def unsigned_lexeme_def)
  show ?thesis using letter_not [OF c] c n w x by (simp add: lexeme_def)
qed

lemma classify_ident: "ident_ok x \<Longrightarrow> classify x = Token KIdent x"
proof -
  assume x: "ident_ok x"
  then obtain c cs where c: "x = c # cs" "is_letter c" by (cases x) (auto simp: ident_ok_def)
  have "number_lexeme (c # cs) = None"
    using letter_not [OF c(2)] by (simp add: number_lexeme_def unsigned_lexeme_def)
  with c x letter_not [OF c(2)] show ?thesis by (auto simp: classify_def ident_ok_def Let_def)
qed

lemma lexeme_operator: "lexeme (operator_text opr @ CHR '' '' # s) = Some (operator_text opr)"
  by (cases opr) (simp_all add: lexeme_def)

lemma classify_operator: "classify (operator_text opr) = Token KOp (operator_text opr)"
  by (cases opr) (simp_all add: classify_def Let_def)

lemma lexeme_quoted: "CHR 0x27 \<notin> set b \<Longrightarrow> lexeme (([CHR 0x27] @ b @ [CHR 0x27]) @ s) = Some ([CHR 0x27] @ b @ [CHR 0x27])"
proof -
  assume b: "CHR 0x27 \<notin> set b"
  have "takeWhile (\<lambda>c. c \<noteq> CHR 0x27) (b @ CHR 0x27 # s) = b"
    using b by (subst takeWhile_tail) (auto simp: takeWhile_eq_all_conv)
  then show ?thesis by (simp add: lexeme_def)
qed

lemma number_lexeme_show_int: "boundary s \<Longrightarrow> number_lexeme (show_int n @ s) = Some (show_int n)"
proof -
  assume s: "boundary s"
  have f: "fraction_lexeme s = []" using boundary_cases [OF s] by auto
  have u: "unsigned_lexeme (show_nat m @ s) = Some (show_nat m)" for m
    using takeWhile_boundary [of is_digit "show_nat m" s] show_nat_digits [of m] s f
    by (simp add: unsigned_lexeme_def list_all_iff is_digit_def)
  obtain c cs where c: "show_nat (nat \<bar>n\<bar>) = c # cs" by (cases "show_nat (nat \<bar>n\<bar>)") auto
  have "is_digit c" using show_nat_digits [of "nat \<bar>n\<bar>"] c by simp
  then have "c \<noteq> CHR ''-''" by (auto simp: is_digit_def)
  then show ?thesis using u [of "nat \<bar>n\<bar>"] c by (auto simp: number_lexeme_def show_int_def)
qed

lemma show_int_head: obtains c cs where "show_int n = c # cs" "is_digit c \<or> c = CHR ''-''"
proof (cases "n < 0")
  case True
  then show thesis using that by (simp add: show_int_def)
next
  case False
  obtain c cs where c: "show_nat (nat n) = c # cs" by (cases "show_nat (nat n)") auto
  with show_nat_digits [of "nat n"] False that show thesis by (auto simp: show_int_def)
qed

lemma lexeme_number: "boundary s \<Longrightarrow> lexeme (show_int n @ s) = Some (show_int n)"
proof -
  assume s: "boundary s"
  obtain c cs where c: "show_int n = c # cs" "is_digit c \<or> c = CHR ''-''" by (rule show_int_head)
  then have "c \<notin> {CHR ''>'', CHR ''<'', CHR ''='', CHR ''!'', CHR ''('', CHR '')'', CHR 0x27}"
    by (auto simp: is_digit_def)
  with c number_lexeme_show_int [OF s, of n] show ?thesis by (auto simp: lexeme_def)
qed

lemma classify_number: "classify (show_int n) = Token KNumber (show_int n)"
proof -
  obtain c cs where c: "show_int n = c # cs" "is_digit c \<or> c = CHR ''-''" by (rule show_int_head)
  then have "c \<notin> {CHR ''>'', CHR ''<'', CHR ''='', CHR ''!'', CHR ''('', CHR '')'', CHR 0x27}"
    by (auto simp: is_digit_def)
  with c number_lexeme_show_int [of "[]" n] show ?thesis by (auto simp: classify_def Let_def)
qed

lemma reads_word:
  assumes "is_letter (hd x)" "list_all is_word x" "x \<noteq> []" "boundary s" "reads s ts"
  shows "reads (x @ s) (classify x # ts)"
  using assms by (intro reads_lexeme lexeme_word) (auto dest: letter_not)

lemma reads_value:
  assumes "value_ok v" "boundary s" "reads s ts"
  shows "reads (value_text v @ s) (value_token v # ts)"
proof (cases v)
  case (VStr b)
  have "classify ([CHR 0x27] @ b @ [CHR 0x27]) = Token KString b"
    by (simp add: classify_def Let_def)
  moreover have "reads (([CHR 0x27] @ b @ [CHR 0x27]) @ s) (classify ([CHR 0x27] @ b @ [CHR 0x27]) # ts)"
    using assms VStr by (intro reads_lexeme lexeme_quoted) (auto simp: is_space_def)
  ultimately show ?thesis using VStr by simp
next
  case (VNum n)
  with assms(1) obtain q where q: "n = Finite q" "of_int \<lfloor>q\<rfloor> = q" "\<bar>q\<bar> \<le> 2 ^ 53" by (cases n) auto
  obtain c cs where c: "show_int \<lfloor>q\<rfloor> = c # cs" "is_digit c \<or> c = CHR ''-''" by (rule show_int_head)
  have "reads (show_int \<lfloor>q\<rfloor> @ s) (classify (show_int \<lfloor>q\<rfloor>) # ts)"
    using c assms by (intro reads_lexeme lexeme_number) (auto simp: is_digit_def is_space_def)
  with q VNum show ?thesis by (simp add: rat_to_string_def classify_number)
next
  case (VBool b)
  have "reads (value_text v @ s) (classify (value_text v) # ts)"
    using VBool assms by (intro reads_word) (auto simp: is_letter_def is_word_def)
  moreover have "classify ''true'' = Token KBool ''true''" "classify ''false'' = Token KBool ''false''"
    by code_simp+
  ultimately show ?thesis using VBool by (auto split: if_splits)
qed (use assms in simp_all)

lemma classify_keywords [simp]:
  "classify ''AND'' = Token KAnd ''AND''" "classify ''OR'' = Token KOr ''OR''" "classify ''NOT'' = Token KNot ''NOT''"
  "classify ''('' = Token KLparen ''(''" "classify '')'' = Token KRparen '')''"
  by code_simp+

lemma reads_keyword:
  assumes "w \<in> {''AND'', ''OR'', ''NOT''}" "reads s ts"
  shows "reads (w @ CHR '' '' # s) (classify w # ts)"
  using assms by (intro reads_word reads_space) (auto simp: is_letter_def is_word_def is_space_def)

lemma reads_paren:
  assumes "reads s ts"
  shows "reads (CHR ''('' # s) (Token KLparen ''('' # ts)" "reads (CHR '')'' # s) (Token KRparen '')'' # ts)"
  using reads_lexeme [of "''(''" s ts] reads_lexeme [of "'')''" s ts] assms
  by (cases s; simp add: lexeme_def is_space_def)+

lemma reads_expression:
  "expression_ok e \<Longrightarrow> boundary s \<Longrightarrow> reads s ts \<Longrightarrow> reads (rule_toString e @ s) (expression_tokens e @ ts)"
proof (induction e arbitrary: s ts)
  case (Comparison x opr v)
  have "reads (value_text v @ s) (value_token v # ts)" using Comparison by (intro reads_value) auto
  then have "reads (CHR '' '' # value_text v @ s) (value_token v # ts)"
    by (intro reads_space) (simp add: is_space_def)
  then have "reads (operator_text opr @ CHR '' '' # value_text v @ s) (Token KOp (operator_text opr) # value_token v # ts)"
    using reads_lexeme [OF lexeme_operator, of opr] classify_operator [of opr]
    by (cases opr) (simp_all add: is_space_def)
  then have "reads (CHR '' '' # operator_text opr @ CHR '' '' # value_text v @ s)
      (Token KOp (operator_text opr) # value_token v # ts)"
    by (intro reads_space) (simp add: is_space_def)
  then show ?case
    using reads_word [of x "CHR '' '' # operator_text opr @ CHR '' '' # value_text v @ s"] Comparison.prems(1)
    by (simp add: ident_ok_def classify_ident)
next
  case (And l r)
  have "reads (rule_toString r @ CHR '')'' # s) (expression_tokens r @ Token KRparen '')'' # ts)"
    using And by (simp add: reads_paren)
  then have "reads (CHR '' '' # ''AND'' @ CHR '' '' # rule_toString r @ CHR '')'' # s)
      (Token KAnd ''AND'' # expression_tokens r @ Token KRparen '')'' # ts)"
    using reads_keyword [of "''AND''"] by (intro reads_space) (auto simp: is_space_def)
  then have "reads (rule_toString l @ CHR '' '' # ''AND'' @ CHR '' '' # rule_toString r @ CHR '')'' # s)
      (expression_tokens l @ Token KAnd ''AND'' # expression_tokens r @ Token KRparen '')'' # ts)"
    using And by simp
  from reads_paren(1) [OF this] show ?case by simp
next
  case (Or l r)
  have "reads (rule_toString r @ CHR '')'' # s) (expression_tokens r @ Token KRparen '')'' # ts)"
    using Or by (simp add: reads_paren)
  then have "reads (CHR '' '' # ''OR'' @ CHR '' '' # rule_toString r @ CHR '')'' # s)
      (Token KOr ''OR'' # expression_tokens r @ Token KRparen '')'' # ts)"
    using reads_keyword [of "''OR''"] by (intro reads_space) (auto simp: is_space_def)
  then have "reads (rule_toString l @ CHR '' '' # ''OR'' @ CHR '' '' # rule_toString r @ CHR '')'' # s)
      (expression_tokens l @ Token KOr ''OR'' # expression_tokens r @ Token KRparen '')'' # ts)"
    using Or by simp
  from reads_paren(1) [OF this] show ?case by simp
next
  case (Not e)
  then have "reads (rule_toString e @ s) (expression_tokens e @ ts)" by simp
  from reads_keyword [of "''NOT''", OF _ this] show ?case by simp
qed

lemma tokenize_toString: "expression_ok e \<Longrightarrow> tokenize (rule_toString e) = Inr (expression_tokens e)"
  using reads_expression [of e "[]" "[]"] by (simp add: tokenize_def reads_Nil) (simp add: reads_def)

section \<open>Properties of the language\<close>

text \<open>
  C12: the parser accepts exactly the sentences of the documented grammar. A text parses to an
  expression if and only if it splits into tokens and the grammar derives the expression from
  them; so OR binds weaker than AND, AND weaker than NOT, both associate to the left, and no rule
  has two readings.
\<close>

theorem parser_implements_grammar:
  "parse_rule source = Inr e \<longleftrightarrow> (\<exists>ts. tokenize source = Inr ts \<and> orE ts e)"
  by (simp add: parse_rule_def ebind_Inr_iff parse_tokens_iff)

text \<open>
  C13: printing and parsing are inverse. Every expression over identifiers, booleans, texts without
  quotes and safe integers is read back exactly from what \<open>toString\<close> prints for it.
\<close>

theorem rule_print_parse:
  assumes "expression_ok e"
  shows "parse_rule (rule_toString e) = Inr e"
proof -
  have "parse_tokens (expression_tokens e) = Inr e"
    unfolding parse_tokens_iff using tokens_derivation [OF assms] by (intro or_one and_one)
  then show ?thesis by (simp add: parse_rule_def tokenize_toString [OF assms])
qed

theorem rule_print_parse_witness:
  "parse_rule ''(amount > 5000000 AND NOT channel == 'mobile')'' =
     Inr (And (Comparison ''amount'' Gt (VNum (Finite 5000000)))
        (Not (Comparison ''channel'' Eq (VStr ''mobile''))))"
proof -
  let ?e = "And (Comparison ''amount'' Gt (VNum (Finite 5000000))) (Not (Comparison ''channel'' Eq (VStr ''mobile'')))"
  have "ident_ok ''amount''" "ident_ok ''channel''" by code_simp+
  then have ok: "expression_ok ?e" by simp
  have "show_int 5000000 = ''5000000''" by (simp add: show_int_def show_nat.simps)
  then have "rule_toString ?e = ''(amount > 5000000 AND NOT channel == 'mobile')''" by (simp add: rat_to_string_def)
  with rule_print_parse [OF ok] show ?thesis by simp
qed

text \<open>
  A comparison on data the context does not have is false, whatever the operator; but a rule may
  still fire on unknown data, through NOT and through the names every object inherits.
\<close>

theorem unknown_data:
  "(context_get c x = None \<longrightarrow> \<not> interpret_rule (Comparison x opr v) c) \<and>
   (context_get c x = None \<longrightarrow> interpret_rule (Not (Comparison x opr v)) c) \<and>
   interpret_rule (Comparison ''constructor'' Neq (VBool True)) []"
  by (simp add: context_get_def inherited_names_def)

theorem unknown_data_witness:
  "\<not> interpret_rule (Comparison ''amount'' Gt (VNum (Finite 5))) [(''hour'', VNum (Finite 3))] \<and>
   interpret_rule (Not (Comparison ''amount'' Gt (VNum (Finite 5)))) [(''hour'', VNum (Finite 3))]"
  using unknown_data [of "[(''hour'', VNum (Finite 3))]" "''amount''" Gt "VNum (Finite 5)"]
  by (simp add: context_get_def inherited_names_def)

definition mobile_rule :: string where
  "mobile_rule = ''amount > 5000000 AND channel == 'mobile'' @ [CHR 0x27]"

definition night_rule :: string where
  "night_rule = ''hour < 5 AND amount > 1000000''"

definition default_rules :: string where
  "default_rules = mobile_rule @ '';'' @ night_rule"

definition fraud_context :: "int \<Rightarrow> string \<Rightarrow> int \<Rightarrow> rule_context" where
  "fraud_context amount channel hour =
     [(''amount'', VNum (Finite (of_int amount))), (''channel'', VStr channel), (''hour'', VNum (Finite (of_int hour)))]"

lemma default_rules_split:
  "fraudRules (Some default_rules) = [mobile_rule, night_rule]"
  by code_simp

lemma js_number_literals:
  "js_number ''5000000'' = Finite 5000000" "js_number ''1000000'' = Finite 1000000" "js_number ''5'' = Finite 5"
  using js_number_show_int [of 5000000] js_number_show_int [of 1000000] js_number_show_int [of 5]
  by (simp_all add: show_int_def show_nat.simps)

lemma default_tokens:
  "tokenize mobile_rule = Inr
     [Token KIdent ''amount'', Token KOp ''>'', Token KNumber ''5000000'', Token KAnd ''AND'',
      Token KIdent ''channel'', Token KOp ''=='', Token KString ''mobile'']"
  "tokenize night_rule = Inr
     [Token KIdent ''hour'', Token KOp ''<'', Token KNumber ''5'', Token KAnd ''AND'',
      Token KIdent ''amount'', Token KOp ''>'', Token KNumber ''1000000'']"
  by code_simp+

lemma default_rules_parse:
  "load_rules (fraudRules (Some default_rules)) = Inr
     [(mobile_rule,
       And (Comparison ''amount'' Gt (VNum (Finite 5000000))) (Comparison ''channel'' Eq (VStr ''mobile''))),
      (night_rule,
       And (Comparison ''hour'' Lt (VNum (Finite 5))) (Comparison ''amount'' Gt (VNum (Finite 1000000))))]"
  unfolding default_rules_split
  by (simp add: parse_rule_def default_tokens parse_tokens_def parser_simps parse_comparison_def expect_def
      operator_of_def js_number_literals)

text \<open>
  The rules the application ships with mean what they say. A transaction with amount, channel
  and hour is suspicious exactly when it moves more than 5,000,000 from a mobile channel or more
  than 1,000,000 before five in the morning, and the verdict names the rules that matched.
\<close>

theorem default_rules_meaning:
  "\<exists>rules. load_rules (fraudRules (Some default_rules)) = Inr rules \<and>
     fv_suspicious (evaluate rules (fraud_context amount channel hour)) =
       ((5000000 < amount \<and> channel = ''mobile'') \<or> (hour < 5 \<and> 1000000 < amount)) \<and>
     set (fv_matchedRules (evaluate rules (fraud_context amount channel hour))) \<subseteq> set (activeRules rules)"
proof -
  have "5000000 < (of_int amount :: rat) \<longleftrightarrow> 5000000 < amount" "(of_int hour :: rat) < 5 \<longleftrightarrow> hour < 5"
    "1000000 < (of_int amount :: rat) \<longleftrightarrow> 1000000 < amount" by simp_all
  then show ?thesis
    by (auto simp: default_rules_parse evaluate_def fraud_context_def context_get_def activeRules_def Let_def)
qed

end
