(* ===== verification/Transfers.thy ===== *)
theory Transfers
  imports FraudRules SampleData
begin

text \<open>
  The transfer pipeline (\<open>src/src/modules/transactions/transfer/money-transfer.decorators.ts\<close>) and its
  wiring (\<open>src/src/modules/transactions/transactions.module.ts\<close>). A \<open>MoneyTransferService\<close> is a
  function; a decorator takes the inner service as an argument. The state adds the audit log of
  \<open>AuditTimingDecorator\<close> to the ledger's; a line of it is kept without its elapsed time.

  The interface \<open>MoneyTransferService\<close> is the locale \<open>money_transfer_service\<close>: what a transfer that
  succeeds does to the books, and that one that fails does nothing. The ledger's service satisfies
  it and every decorator passes it on, so the wired pipeline has it.
\<close>

datatype channel = Web | Mobile | Branch

fun channel_name :: "channel \<Rightarrow> string" where
  "channel_name Web = ''web''"
| "channel_name Mobile = ''mobile''"
| "channel_name Branch = ''branch''"

record transfer_request =
  tq_fromAccountId :: string
  tq_toAccountId :: string
  tq_amountMinor :: int
  tq_channel :: channel
  tq_description :: "string option"
  tq_feeMinor :: "int option"

record transfer_response =
  tx_reference :: string
  tx_amountMinor :: int
  tx_feeMinor :: int
  tx_fromBalanceAfterMinor :: int
  tx_toBalanceAfterMinor :: int
  tx_pipeline :: "string list"

datatype audit_line = AuditOk string int | AuditFailed int string

record 'db bank_state =
  bs_ledger :: "'db ledger_state"
  bs_transferLog :: "audit_line list"

abbreviation bs_db :: "'db bank_state \<Rightarrow> 'db" where
  "bs_db s \<equiv> ls_db (bs_ledger s)"

type_synonym 'db transfer_service =
  "env \<Rightarrow> transfer_request \<Rightarrow> 'db bank_state \<Rightarrow> (err + transfer_response) \<times> 'db bank_state"

definition tq_fee :: "transfer_request \<Rightarrow> int" where
  "tq_fee q = (case tq_feeMinor q of None \<Rightarrow> 0 | Some f \<Rightarrow> f)"

definition request_input :: "transfer_request \<Rightarrow> int \<Rightarrow> ledger_transfer_input" where
  "request_input q fee =
     \<lparr>ti_fromAccountId = tq_fromAccountId q, ti_toAccountId = tq_toAccountId q,
      ti_amountMinor = tq_amountMinor q, ti_feeMinor = fee, ti_description = tq_description q\<rparr>"

definition ledger_transfer_service :: "'db entity_manager \<Rightarrow> 'db transfer_service" where
  "ledger_transfer_service M e q s =
     (case transfer M e (request_input q (tq_fee q)) (bs_ledger s) of
        (Inl x, l) \<Rightarrow> (Inl x, s\<lparr>bs_ledger := l\<rparr>)
      | (Inr result, l) \<Rightarrow>
          (Inr \<lparr>tx_reference = tr_reference result, tx_amountMinor = tq_amountMinor q, tx_feeMinor = tr_feeMinor result,
                tx_fromBalanceAfterMinor = tr_fromBalanceAfterMinor result,
                tx_toBalanceAfterMinor = tr_toBalanceAfterMinor result, tx_pipeline = [''ledger'']\<rparr>,
           s\<lparr>bs_ledger := l\<rparr>))"

text \<open>\<open>{ ...result, pipeline: [layer, ...result.pipeline] }\<close>.\<close>

definition add_layer :: "string \<Rightarrow> err + transfer_response \<Rightarrow> err + transfer_response" where
  "add_layer layer r = ebind r (\<lambda>result. Inr (result\<lparr>tx_pipeline := layer # tx_pipeline result\<rparr>))"

definition fee_for :: "int \<Rightarrow> channel \<Rightarrow> int" where
  "fee_for feeMinor c = (if c = Branch then feeMinor + 10000 else feeMinor)"

definition fee_decorator :: "int \<Rightarrow> 'db transfer_service \<Rightarrow> 'db transfer_service" where
  "fee_decorator feeMinor inner e q s = (let
     fee = fee_for feeMinor (tq_channel q);
     (r, s') = inner e (q\<lparr>tq_feeMinor := Some (tq_fee q + fee)\<rparr>) s
   in (add_layer ''fee'' r, s'))"

definition screening_context :: "env \<Rightarrow> transfer_request \<Rightarrow> rule_context" where
  "screening_context e q =
     [(''amount'', VNum (Finite (of_int (tq_amountMinor q)))), (''channel'', VStr (channel_name (tq_channel q))),
      (''hour'', VNum (Finite (of_int (nowHour e)))), (''dayOfWeek'', VNum (Finite (of_int (nowDay e))))]"

definition fraud_decorator :: "(string \<times> expression) list \<Rightarrow> 'db transfer_service \<Rightarrow> 'db transfer_service" where
  "fraud_decorator rules inner e q s = (let verdict = evaluate rules (screening_context e q) in
     if fv_suspicious verdict
     then (Inl (DomainError FraudSuspected ''Transfer blocked by fraud rules''
             (Some [(''matchedRules'', DList (fv_matchedRules verdict))])), s)
     else let (r, s') = inner e q s in (add_layer ''fraud-screening'' r, s'))"

definition audit_decorator :: "'db transfer_service \<Rightarrow> 'db transfer_service" where
  "audit_decorator inner e q s = (case inner e q s of
     (Inr result, s') \<Rightarrow>
       (add_layer ''audit'' (Inr result),
        s'\<lparr>bs_transferLog := bs_transferLog s' @ [AuditOk (tx_reference result) (tq_amountMinor q)]\<rparr>)
   | (Inl x, s') \<Rightarrow>
       (Inl x, s'\<lparr>bs_transferLog := bs_transferLog s' @ [AuditFailed (tq_amountMinor q) (err_message x)]\<rparr>))"

definition money_transfer :: "'db entity_manager \<Rightarrow> int \<Rightarrow> (string \<times> expression) list \<Rightarrow> 'db transfer_service" where
  "money_transfer M internalTransferFeeMinor rules =
     audit_decorator (fraud_decorator rules (fee_decorator internalTransferFeeMinor (ledger_transfer_service M)))"

section \<open>The interface\<close>

locale money_transfer_service = entity_store M entries
  for M :: "'db entity_manager" and entries +
  fixes svc :: "'db transfer_service"
  assumes svc_ok: "svc e q s = (Inr r, s') \<Longrightarrow>
      (\<exists>d. applies M entries (transfer_postings (request_input q (tx_feeMinor r)) (tx_reference r) d) (bs_db s) (bs_db s')) \<and>
      tx_amountMinor r = tq_amountMinor q \<and> tq_fromAccountId q \<noteq> tq_toAccountId q"
    and svc_failed: "svc e q s = (Inl x, s') \<Longrightarrow>
      bs_db s' = bs_db s \<and> ls_bus (bs_ledger s') = ls_bus (bs_ledger s)"
begin

text \<open>What a client may rely on, whichever layers are wired in.\<close>

lemma svc_applies: "\<exists>ps. applies M entries ps (bs_db s) (bs_db (snd (svc e q s)))"
proof (cases "svc e q s")
  case (Pair r s')
  show ?thesis
  proof (cases r)
    case (Inl x)
    with Pair svc_failed [of e q s x s'] show ?thesis using applies_none by auto
  next
    case (Inr res)
    with Pair svc_ok [of e q s res s'] show ?thesis by auto
  qed
qed

lemma svc_inv: "ledger_inv M entries (bs_db s) \<Longrightarrow> ledger_inv M entries (bs_db (snd (svc e q s)))"
  using svc_applies by (rule applies_ex_inv)

lemma svc_postings_reference:
  "svc e q s = (Inr r, s') \<Longrightarrow> \<exists>ps. applies M entries ps (bs_db s) (bs_db s') \<and> (\<forall>p \<in> set ps. pg_reference p = tx_reference r)"
  using svc_ok [of e q s r s'] by (fastforce simp: transfer_postings_def)

end

lemma request_input_fee [simp]: "request_input (q\<lparr>tq_feeMinor := f\<rparr>) = request_input q"
  by (rule ext) (simp add: request_input_def)

lemma tq_fee_update [simp]: "tq_fee (q\<lparr>tq_feeMinor := Some f\<rparr>) = f"
  by (simp add: tq_fee_def)

lemma ledger_transfer_service_contract:
  assumes "entity_store M entries"
  shows "money_transfer_service M entries (ledger_transfer_service M)"
proof (intro money_transfer_service.intro money_transfer_service_axioms.intro assms)
  fix e q s r s'
  assume "ledger_transfer_service M e q s = (Inr r, s')"
  then obtain res l where t: "transfer M e (request_input q (tq_fee q)) (bs_ledger s) = (Inr res, l)"
    and r: "tx_reference r = tr_reference res" "tx_amountMinor r = tq_amountMinor q" "tx_feeMinor r = tr_feeMinor res"
    and s': "bs_ledger s' = l"
    by (auto simp: ledger_transfer_service_def split: prod.splits sum.splits)
  obtain src dst where "tq_fromAccountId q \<noteq> tq_toAccountId q"
    and a: "applies M entries (transfer_postings (request_input q (tq_fee q)) (fst (next_reference ''TRF'' e (ls_refs (bs_ledger s))))
       (transfer_description (request_input q (tq_fee q)) src dst)) (bs_db s) (ls_db l)"
    and res: "res = \<lparr>tr_reference = fst (next_reference ''TRF'' e (ls_refs (bs_ledger s))), tr_feeMinor = tq_fee q,
      tr_fromBalanceAfterMinor = balanceMinor src - tq_amountMinor q - max 0 (tq_fee q),
      tr_toBalanceAfterMinor = balanceMinor dst + tq_amountMinor q\<rparr>"
    using entity_store.transfer_ok_spec [OF assms t] by (simp add: request_input_def) blast
  with r s' show "(\<exists>d. applies M entries (transfer_postings (request_input q (tx_feeMinor r)) (tx_reference r) d) (bs_db s) (bs_db s')) \<and>
      tx_amountMinor r = tq_amountMinor q \<and> tq_fromAccountId q \<noteq> tq_toAccountId q" by auto
next
  fix e q s x s'
  assume "ledger_transfer_service M e q s = (Inl x, s')"
  then show "bs_db s' = bs_db s \<and> ls_bus (bs_ledger s') = ls_bus (bs_ledger s)"
    using transfer_failed [of M e "request_input q (tq_fee q)" "bs_ledger s"]
    by (auto simp: ledger_transfer_service_def split: prod.splits sum.splits)
qed

lemma add_layer_simps [simp]:
  "add_layer layer (Inl x) = Inl x"
  "add_layer layer (Inr r) = Inr (r\<lparr>tx_pipeline := layer # tx_pipeline r\<rparr>)"
  by (simp_all add: add_layer_def)

lemma add_layer_Inr: "add_layer layer r = Inr r' \<longleftrightarrow> (\<exists>q. r = Inr q \<and> r' = q\<lparr>tx_pipeline := layer # tx_pipeline q\<rparr>)"
  by (cases r) auto

lemma add_layer_Inl: "add_layer layer r = Inl x \<longleftrightarrow> r = Inl x"
  by (cases r) auto

lemma fee_decorator_contract:
  assumes "money_transfer_service M entries svc"
  shows "money_transfer_service M entries (fee_decorator fee svc)"
proof (intro money_transfer_service.intro money_transfer_service_axioms.intro)
  show "entity_store M entries" by (rule money_transfer_service.axioms(1) [OF assms])
  fix e q s r s' x
  let ?q = "q\<lparr>tq_feeMinor := Some (tq_fee q + fee_for fee (tq_channel q))\<rparr>"
  show "fee_decorator fee svc e q s = (Inr r, s') \<Longrightarrow>
      (\<exists>d. applies M entries (transfer_postings (request_input q (tx_feeMinor r)) (tx_reference r) d) (bs_db s) (bs_db s')) \<and>
      tx_amountMinor r = tq_amountMinor q \<and> tq_fromAccountId q \<noteq> tq_toAccountId q"
    using money_transfer_service.svc_ok [OF assms, of e ?q s]
    by (auto simp: fee_decorator_def Let_def add_layer_Inr split: prod.splits)
  show "fee_decorator fee svc e q s = (Inl x, s') \<Longrightarrow> bs_db s' = bs_db s \<and> ls_bus (bs_ledger s') = ls_bus (bs_ledger s)"
    using money_transfer_service.svc_failed [OF assms, of e ?q s x s']
    by (auto simp: fee_decorator_def Let_def add_layer_Inl split: prod.splits)
qed

lemma fraud_decorator_contract:
  assumes "money_transfer_service M entries svc"
  shows "money_transfer_service M entries (fraud_decorator rules svc)"
proof (intro money_transfer_service.intro money_transfer_service_axioms.intro)
  show "entity_store M entries" by (rule money_transfer_service.axioms(1) [OF assms])
  fix e q s r s' x
  show "fraud_decorator rules svc e q s = (Inr r, s') \<Longrightarrow>
      (\<exists>d. applies M entries (transfer_postings (request_input q (tx_feeMinor r)) (tx_reference r) d) (bs_db s) (bs_db s')) \<and>
      tx_amountMinor r = tq_amountMinor q \<and> tq_fromAccountId q \<noteq> tq_toAccountId q"
    using money_transfer_service.svc_ok [OF assms, of e q s]
    by (auto simp: fraud_decorator_def Let_def add_layer_Inr split: prod.splits if_splits)
  show "fraud_decorator rules svc e q s = (Inl x, s') \<Longrightarrow> bs_db s' = bs_db s \<and> ls_bus (bs_ledger s') = ls_bus (bs_ledger s)"
    using money_transfer_service.svc_failed [OF assms, of e q s x s']
    by (auto simp: fraud_decorator_def Let_def add_layer_Inl split: prod.splits if_splits)
qed

lemma audit_decorator_contract:
  assumes "money_transfer_service M entries svc"
  shows "money_transfer_service M entries (audit_decorator svc)"
proof (intro money_transfer_service.intro money_transfer_service_axioms.intro)
  show "entity_store M entries" by (rule money_transfer_service.axioms(1) [OF assms])
  fix e q s r s' x
  show "audit_decorator svc e q s = (Inr r, s') \<Longrightarrow>
      (\<exists>d. applies M entries (transfer_postings (request_input q (tx_feeMinor r)) (tx_reference r) d) (bs_db s) (bs_db s')) \<and>
      tx_amountMinor r = tq_amountMinor q \<and> tq_fromAccountId q \<noteq> tq_toAccountId q"
    using money_transfer_service.svc_ok [OF assms, of e q s]
    by (auto simp: audit_decorator_def split: prod.splits sum.splits)
  show "audit_decorator svc e q s = (Inl x, s') \<Longrightarrow> bs_db s' = bs_db s \<and> ls_bus (bs_ledger s') = ls_bus (bs_ledger s)"
    using money_transfer_service.svc_failed [OF assms, of e q s x]
    by (auto simp: audit_decorator_def split: prod.splits sum.splits)
qed

lemmas decorator_contracts = audit_decorator_contract fraud_decorator_contract fee_decorator_contract

lemma money_transfer_contract:
  "entity_store M entries \<Longrightarrow> money_transfer_service M entries (money_transfer M fee rules)"
  unfolding money_transfer_def by (intro decorator_contracts ledger_transfer_service_contract)

interpretation app_transfers: money_transfer_service tables_manager entryRows "money_transfer tables_manager fee rules"
  for fee rules
  by (rule money_transfer_contract [OF tables_store])

text \<open>The layers in the order of the wiring, and the fee they add up to.\<close>

lemma money_transfer_ok:
  assumes "money_transfer M fee rules e q s = (Inr r, s')"
  shows "tx_pipeline r = [''audit'', ''fraud-screening'', ''fee'', ''ledger'']"
    and "tx_feeMinor r = tq_fee q + fee_for fee (tq_channel q)"
    and "\<not> fv_suspicious (evaluate rules (screening_context e q))"
    and "bs_transferLog s' = bs_transferLog s @ [AuditOk (tx_reference r) (tq_amountMinor q)]"
proof -
  let ?q = "q\<lparr>tq_feeMinor := Some (tq_fee q + fee_for fee (tq_channel q))\<rparr>"
  from assms obtain res l where t: "transfer M e (request_input q (tq_fee q + fee_for fee (tq_channel q))) (bs_ledger s) = (Inr res, l)"
    and n: "\<not> fv_suspicious (evaluate rules (screening_context e q))"
    and r: "r = \<lparr>tx_reference = tr_reference res, tx_amountMinor = tq_amountMinor q, tx_feeMinor = tr_feeMinor res,
                tx_fromBalanceAfterMinor = tr_fromBalanceAfterMinor res,
                tx_toBalanceAfterMinor = tr_toBalanceAfterMinor res,
                tx_pipeline = [''audit'', ''fraud-screening'', ''fee'', ''ledger'']\<rparr>"
    and s': "s' = s\<lparr>bs_ledger := l, bs_transferLog := bs_transferLog s @ [AuditOk (tr_reference res) (tq_amountMinor q)]\<rparr>"
    by (auto simp: money_transfer_def audit_decorator_def fraud_decorator_def fee_decorator_def ledger_transfer_service_def
        Let_def split: prod.splits sum.splits if_splits)
  have "tr_feeMinor res = tq_fee q + fee_for fee (tq_channel q)"
    using transfer_fee [OF t] by (simp add: request_input_def)
  with n r s' show "tx_pipeline r = [''audit'', ''fraud-screening'', ''fee'', ''ledger'']"
    and "tx_feeMinor r = tq_fee q + fee_for fee (tq_channel q)"
    and "\<not> fv_suspicious (evaluate rules (screening_context e q))"
    and "bs_transferLog s' = bs_transferLog s @ [AuditOk (tx_reference r) (tq_amountMinor q)]"
    by simp_all
qed

lemma money_transfer_succeeds:
  assumes "transfer M e (request_input q (tq_fee q + fee_for fee (tq_channel q))) (bs_ledger s) = (Inr res, l)"
    and "\<not> fv_suspicious (evaluate rules (screening_context e q))"
  shows "\<exists>r s'. money_transfer M fee rules e q s = (Inr r, s')"
  using assms by (simp add: money_transfer_def audit_decorator_def fraud_decorator_def fee_decorator_def
      ledger_transfer_service_def Let_def)

lemma money_transfer_moves:
  assumes "entity_store M entries" "money_transfer M fee rules e q s = (Inr r, s')"
    and "0 \<le> tq_fee q + fee_for fee (tq_channel q)"
  shows "moves_by M (bs_db s) (bs_db s') i
       (if i = tq_fromAccountId q then - tq_amountMinor q - tx_feeMinor r
        else if i = tq_toAccountId q then tq_amountMinor q else 0)"
proof -
  from money_transfer_service.svc_ok [OF money_transfer_contract [OF assms(1)] assms(2)] obtain d where
    a: "applies M entries (transfer_postings (request_input q (tx_feeMinor r)) (tx_reference r) d) (bs_db s) (bs_db s')"
    and ids: "tq_fromAccountId q \<noteq> tq_toAccountId q" by blast
  have "ti_fromAccountId (request_input q (tx_feeMinor r)) \<noteq> ti_toAccountId (request_input q (tx_feeMinor r))"
    using ids by (simp add: request_input_def)
  note net = net_transfer_postings [OF this]
  show ?thesis
    using net assms(3) money_transfer_ok(2) [OF assms(2)]
    by (intro applies_moves_by [OF a]) (auto simp: request_input_def max_def)
qed

lemma money_transfer_blocked:
  assumes "fv_suspicious (evaluate rules (screening_context e q))"
  shows "fst (money_transfer M fee rules e q s) = Inl (DomainError FraudSuspected ''Transfer blocked by fraud rules''
      (Some [(''matchedRules'', DList (fv_matchedRules (evaluate rules (screening_context e q))))]))"
    and "bs_ledger (snd (money_transfer M fee rules e q s)) = bs_ledger s"
  using assms by (simp_all add: money_transfer_def audit_decorator_def fraud_decorator_def Let_def)

section \<open>Properties of the pipeline\<close>

text \<open>
  A transfer through the wired pipeline passes audit, fraud screening, fee and ledger in that
  order. When it succeeds the rules found nothing, the fee is the configured one (10,000 more from a
  branch), exactly amount and fee leave the sender, exactly the amount reaches the receiver, and
  the audit log gained its line.
\<close>

theorem pipeline_moves_exactly:
  assumes "entity_store M entries"
    and "money_transfer M fee rules e q s = (Inr r, s')"
    and "0 \<le> tq_fee q + fee_for fee (tq_channel q)"
  shows "tx_pipeline r = [''audit'', ''fraud-screening'', ''fee'', ''ledger''] \<and>
    tx_feeMinor r = tq_fee q + fee_for fee (tq_channel q) \<and>
    \<not> fv_suspicious (evaluate rules (screening_context e q)) \<and>
    (\<forall>i. moves_by M (bs_db s) (bs_db s') i
       (if i = tq_fromAccountId q then - tq_amountMinor q - tx_feeMinor r
        else if i = tq_toAccountId q then tq_amountMinor q else 0)) \<and>
    bs_transferLog s' = bs_transferLog s @ [AuditOk (tx_reference r) (tq_amountMinor q)]"
  using money_transfer_ok [OF assms(2)] money_transfer_moves [OF assms] by blast

definition sample_bank :: "tables bank_state" where
  "sample_bank = \<lparr>bs_ledger = sample_state, bs_transferLog = []\<rparr>"

definition sample_request :: transfer_request where
  "sample_request = \<lparr>tq_fromAccountId = ''a'', tq_toAccountId = ''b'', tq_amountMinor = 10000, tq_channel = Branch,
     tq_description = None, tq_feeMinor = None\<rparr>"

lemma sample_bank_simps [simp]: "bs_ledger sample_bank = sample_state" "bs_transferLog sample_bank = []"
  by (simp_all add: sample_bank_def)

lemma sample_pipeline_runs:
  obtains r s' where "money_transfer tables_manager 2500 [] sample_env sample_request sample_bank = (Inr r, s')"
proof -
  have "is_ok (fst (transfer tables_manager sample_env (request_input sample_request 12500) sample_state))"
    by (rule tdb.transfer_succeeds [of _ _ "sample_account ''a'' ACTIVE 50000" "sample_account ''b'' ACTIVE 20000"])
      (simp_all add: transfer_ok_def withdrawal_ok_def deposit_ok_def request_input_def sample_request_def)
  then obtain res l where "transfer tables_manager sample_env (request_input sample_request 12500) sample_state = (Inr res, l)"
    by (cases "transfer tables_manager sample_env (request_input sample_request 12500) sample_state";
        cases "fst (transfer tables_manager sample_env (request_input sample_request 12500) sample_state)") auto
  moreover have "tq_fee sample_request + fee_for 2500 (tq_channel sample_request) = 12500"
    by (simp add: tq_fee_def fee_for_def sample_request_def)
  ultimately show thesis
    using that money_transfer_succeeds [of tables_manager sample_env sample_request 2500 sample_bank res l "[]"]
    by (auto simp: evaluate_def)
qed

theorem pipeline_moves_exactly_witness:
  "\<exists>r s'. money_transfer tables_manager 2500 [] sample_env sample_request sample_bank = (Inr r, s') \<and>
     tx_feeMinor r = 12500 \<and> moves_by tables_manager sample_db (bs_db s') ''a'' (- 22500)"
proof -
  obtain r s' where t: "money_transfer tables_manager 2500 [] sample_env sample_request sample_bank = (Inr r, s')"
    by (rule sample_pipeline_runs)
  have fee: "tq_fee sample_request + fee_for 2500 (tq_channel sample_request) = 12500"
    by (simp add: tq_fee_def fee_for_def sample_request_def)
  from pipeline_moves_exactly [OF tables_store t] fee have f: "tx_feeMinor r = 12500"
    and m: "moves_by tables_manager (bs_db sample_bank) (bs_db s') i
       (if i = tq_fromAccountId sample_request then - tq_amountMinor sample_request - tx_feeMinor r
        else if i = tq_toAccountId sample_request then tq_amountMinor sample_request else 0)" for i
    by simp_all
  from m [of "''a''"] f have "moves_by tables_manager sample_db (bs_db s') ''a'' (- 22500)"
    by (simp add: sample_request_def)
  with t f show ?thesis by blast
qed

text \<open>
  A transfer the fraud rules match is blocked before the ledger sees it: it fails with the
  matched rules in its details, and books, bus and reference numbers stay as they were.
\<close>

theorem fraud_blocks_transfer:
  assumes "fv_suspicious (evaluate rules (screening_context e q))"
  shows "fst (money_transfer M fee rules e q s) =
      Inl (DomainError FraudSuspected ''Transfer blocked by fraud rules''
        (Some [(''matchedRules'', DList (map fst (filter (\<lambda>r. interpret_rule (snd r) (screening_context e q)) rules)))])) \<and>
    bs_ledger (snd (money_transfer M fee rules e q s)) = bs_ledger s"
  using assms by (simp add: money_transfer_blocked) (simp add: evaluate_def Let_def)

theorem fraud_blocks_transfer_witness:
  "bs_ledger (snd (money_transfer tables_manager 2500
     [(''channel == branch'', Comparison ''channel'' Eq (VStr ''branch''))] sample_env sample_request sample_bank)) = sample_state"
proof -
  have "fv_suspicious (evaluate [(''channel == branch'', Comparison ''channel'' Eq (VStr ''branch''))]
      (screening_context sample_env sample_request))"
    by (simp add: evaluate_def screening_context_def context_get_def sample_request_def)
  from fraud_blocks_transfer [OF this, of tables_manager 2500 sample_bank] show ?thesis by simp
qed

end
