(* ===== verification/Commands.thy ===== *)
theory Commands
  imports Transfers
begin

text \<open>
  Commands and their invoker (\<open>src/src/modules/transactions/commands/bank.commands.ts\<close>).

  A command object is the record of its two methods. The invoker's \<open>Map\<close> is the list of its items in
  insertion order: \<open>set\<close> on a key that is present replaces the item in place. A record of the history
  is shared with the running command, so the status written after \<open>execute\<close> is an update of the item
  with the command's id. The interface \<open>BankCommand\<close> is the locale \<open>bank_command\<close>, satisfied by the
  three commands of the source.
\<close>

text \<open>What a command returns: the result of the posting, or the response of the transfer pipeline.\<close>

datatype command_result = PostingDone posting_result | TransferDone transfer_response

fun result_reference :: "command_result \<Rightarrow> string" where
  "result_reference (PostingDone p) = pr_reference p"
| "result_reference (TransferDone t) = tx_reference t"

record 'w bank_command =
  cmd_name :: string
  cmd_summary :: payload
  cmd_execute :: "env \<Rightarrow> 'w \<Rightarrow> (err + command_result) \<times> 'w"
  cmd_undo :: "env \<Rightarrow> string \<Rightarrow> 'w \<Rightarrow> (err + (string \<times> nat)) \<times> 'w"

datatype command_status = EXECUTED | FAILED | UNDONE

fun command_status_name :: "command_status \<Rightarrow> string" where
  "command_status_name EXECUTED = ''EXECUTED''"
| "command_status_name FAILED = ''FAILED''"
| "command_status_name UNDONE = ''UNDONE''"

record command_record =
  cr_commandId :: string
  cr_name :: string
  cr_summary :: payload
  cr_status :: command_status
  cr_reference :: "string option"
  cr_error :: "string option"
  cr_executedAt :: string
  cr_undoneAt :: "string option"

section \<open>The three commands\<close>

definition undo_by_reverse ::
  "'db entity_manager \<Rightarrow> env \<Rightarrow> string \<Rightarrow> 'db bank_state \<Rightarrow> (err + (string \<times> nat)) \<times> 'db bank_state" where
  "undo_by_reverse M e reference w = (case reverse M e reference (bs_ledger w) of (r, l) \<Rightarrow> (r, w\<lparr>bs_ledger := l\<rparr>))"

definition DepositCommand :: "'db entity_manager \<Rightarrow> string \<Rightarrow> int \<Rightarrow> string option \<Rightarrow> 'db bank_state bank_command" where
  "DepositCommand M accountId amountMinor description =
     \<lparr>cmd_name = ''deposit'', cmd_summary = [(''accountId'', JStr accountId), (''amountMinor'', JNum amountMinor)],
      cmd_execute = (\<lambda>e w. case deposit M e accountId amountMinor \<lparr>po_description = description, po_type = None\<rparr> (bs_ledger w) of
        (r, l) \<Rightarrow> (ebind r (\<lambda>p. Inr (PostingDone p)), w\<lparr>bs_ledger := l\<rparr>)),
      cmd_undo = undo_by_reverse M\<rparr>"

definition WithdrawCommand :: "'db entity_manager \<Rightarrow> string \<Rightarrow> int \<Rightarrow> string option \<Rightarrow> 'db bank_state bank_command" where
  "WithdrawCommand M accountId amountMinor description =
     \<lparr>cmd_name = ''withdraw'', cmd_summary = [(''accountId'', JStr accountId), (''amountMinor'', JNum amountMinor)],
      cmd_execute = (\<lambda>e w. case withdraw M e accountId amountMinor \<lparr>po_description = description, po_type = None\<rparr> (bs_ledger w) of
        (r, l) \<Rightarrow> (ebind r (\<lambda>p. Inr (PostingDone p)), w\<lparr>bs_ledger := l\<rparr>)),
      cmd_undo = undo_by_reverse M\<rparr>"

definition request_summary :: "transfer_request \<Rightarrow> payload" where
  "request_summary q =
     [(''fromAccountId'', JStr (tq_fromAccountId q)), (''toAccountId'', JStr (tq_toAccountId q)),
      (''amountMinor'', JNum (tq_amountMinor q)), (''channel'', JStr (channel_name (tq_channel q)))] @
     (case tq_description q of None \<Rightarrow> [] | Some d \<Rightarrow> [(''description'', JStr d)])"

definition TransferCommand ::
  "'db transfer_service \<Rightarrow> 'db entity_manager \<Rightarrow> transfer_request \<Rightarrow> 'db bank_state bank_command" where
  "TransferCommand transfers M request =
     \<lparr>cmd_name = ''transfer'', cmd_summary = request_summary request,
      cmd_execute = (\<lambda>e w. case transfers e request w of (r, w') \<Rightarrow> (ebind r (\<lambda>p. Inr (TransferDone p)), w')),
      cmd_undo = undo_by_reverse M\<rparr>"

section \<open>The invoker\<close>

type_synonym 'w history = "(string \<times> 'w bank_command \<times> command_record) list"

definition MAX_HISTORY :: nat where
  "MAX_HISTORY = 500"

definition remember :: "'w bank_command \<Rightarrow> command_record \<Rightarrow> 'w history \<Rightarrow> 'w history" where
  "remember c r h = (let h' = map_set (cr_commandId r) (c, r) h in
     if MAX_HISTORY < length h' then filter (\<lambda>x. fst x \<noteq> fst (hd h')) h' else h')"

definition update_record :: "string \<Rightarrow> (command_record \<Rightarrow> command_record) \<Rightarrow> 'w history \<Rightarrow> 'w history" where
  "update_record i f h = map (\<lambda>(k, c, r). (k, c, if k = i then f r else r)) h"

definition run :: "'w bank_command \<Rightarrow> string \<Rightarrow> env \<Rightarrow> 'w history \<times> 'w \<Rightarrow> (err + (string \<times> command_result)) \<times> 'w history \<times> 'w" where
  "run c uuid e hw = (let
     record = \<lparr>cr_commandId = uuid, cr_name = cmd_name c, cr_summary = cmd_summary c, cr_status = EXECUTED,
       cr_reference = None, cr_error = None, cr_executedAt = isoNow e, cr_undoneAt = None\<rparr>;
     h = remember c record (fst hw)
   in case cmd_execute c e (snd hw) of
        (Inr result, w) \<Rightarrow>
          (Inr (uuid, result), update_record uuid (\<lambda>r. r\<lparr>cr_reference := Some (result_reference result)\<rparr>) h, w)
      | (Inl x, w) \<Rightarrow>
          (Inl x, update_record uuid (\<lambda>r. r\<lparr>cr_status := FAILED, cr_error := Some (err_message x)\<rparr>) h, w))"

definition undo :: "string \<Rightarrow> env \<Rightarrow> 'w history \<times> 'w \<Rightarrow> (err + (string \<times> string \<times> nat)) \<times> 'w history \<times> 'w" where
  "undo commandId e hw =
     (case map_of (fst hw) commandId of
        None \<Rightarrow> (Inl (NotFoundError (''Command '' @ commandId @ '' not found on this instance'')), hw)
      | Some (c, r) \<Rightarrow>
          if cr_status r \<noteq> EXECUTED \<or> cr_reference r = None \<or> cr_reference r = Some []
          then (Inl (BusinessRuleError (''Command '' @ commandId @ '' is '' @ command_status_name (cr_status r) @
                  '' and cannot be undone'')), hw)
          else case cmd_undo c e (the (cr_reference r)) (snd hw) of
              (Inl x, w) \<Rightarrow> (Inl x, fst hw, w)
            | (Inr (reference, n), w) \<Rightarrow>
                (Inr (commandId, reference, n),
                 update_record commandId (\<lambda>r. r\<lparr>cr_status := UNDONE, cr_undoneAt := Some (isoNow e)\<rparr>) (fst hw), w))"

definition list_commands :: "'w history \<Rightarrow> command_record list" where
  "list_commands h = rev (map (\<lambda>(k, c, r). r) h)"

section \<open>The interface of a command\<close>

locale bank_command = entity_store M entries
  for M :: "'db entity_manager" and entries +
  fixes c :: "'db bank_state bank_command"
  assumes execute_ok: "cmd_execute c e w = (Inr res, w') \<Longrightarrow>
      \<exists>ps. applies M entries ps (bs_db w) (bs_db w') \<and> (\<forall>p \<in> set ps. pg_reference p = result_reference res)"
    and execute_failed: "cmd_execute c e w = (Inl x, w') \<Longrightarrow> bs_db w' = bs_db w"
    and undo_reverses: "cmd_undo c = undo_by_reverse M"
begin

lemma amount_under_fresh:
  assumes "entries db' = entries db @ es" "map posting_of es = ps" "\<forall>p \<in> set ps. pg_reference p = ref"
    and "\<forall>r \<in> set (entries db). entry_reference r \<noteq> ref"
  shows "amount_under ref i (entries db') = net i ps"
proof -
  have old: "filter (\<lambda>r. entry_reference r = ref \<and> entry_accountId r = i) (entries db) = []"
    using assms(4) by (auto simp: filter_empty_conv)
  have "entry_reference r = ref" if "r \<in> set es" for r
  proof -
    have "posting_of r \<in> set ps" using that assms(2) by auto
    with assms(3) show ?thesis by (auto simp: posting_of_def)
  qed
  then have "filter (\<lambda>r. entry_reference r = ref \<and> entry_accountId r = i) es = filter (\<lambda>r. entry_accountId r = i) es"
    by (intro filter_cong) auto
  then show ?thesis
    using old by (simp add: amount_under_def assms(1) net_def flip: assms(2)) (simp add: filter_map o_def posting_of_def)
qed

text \<open>Undoing a command whose reference was new brings every balance back.\<close>

lemma undo_restores:
  assumes x: "cmd_execute c e w = (Inr res, w')"
    and new: "\<forall>r \<in> set (entries (bs_db w)). entry_reference r \<noteq> result_reference res"
    and u: "cmd_undo c e' (result_reference res) w' = (Inr (rr, n), w'')"
  shows "moves_by M (bs_db w) (bs_db w'') i 0"
proof -
  define ref where "ref = result_reference res"
  note fresh = new [folded ref_def] and u = u [folded ref_def]
  from execute_ok [OF x] obtain ps where a: "applies M entries ps (bs_db w) (bs_db w')"
    and p: "\<forall>p \<in> set ps. pg_reference p = ref" by (auto simp: ref_def)
  from u obtain l where rv: "reverse M e' ref (bs_ledger w') = (Inr (rr, n), l)" and w'': "bs_db w'' = ls_db l"
    by (auto simp: undo_reverses undo_by_reverse_def split: prod.splits)
  obtain qs where b: "applies M entries qs (bs_db w') (bs_db w'')"
    and net: "\<And>i. net i qs = - amount_under ref i (entries (bs_db w'))"
    unfolding w'' by (rule reverse_ok_spec [OF rv]) blast
  obtain es where "entries (bs_db w') = entries (bs_db w) @ es" "map posting_of es = ps"
    using applies_entries [OF a] by blast
  from amount_under_fresh [OF this p fresh] net have "net i (ps @ qs) = 0" by simp
  then show ?thesis by (rule applies_moves_by [OF applies_trans [OF a b]])
qed

end

lemma deposit_command: "entity_store M entries \<Longrightarrow> bank_command M entries (DepositCommand M i n d)"
proof (intro bank_command.intro bank_command_axioms.intro)
  fix e w res w' x
  assume M: "entity_store M entries"
  let ?o = "\<lparr>po_description = d, po_type = None\<rparr>"
  show "cmd_execute (DepositCommand M i n d) e w = (Inr res, w') \<Longrightarrow>
      \<exists>ps. applies M entries ps (bs_db w) (bs_db w') \<and> (\<forall>p \<in> set ps. pg_reference p = result_reference res)"
  proof -
    assume "cmd_execute (DepositCommand M i n d) e w = (Inr res, w')"
    then obtain r l where "deposit M e i n ?o (bs_ledger w) = (Inr r, l)" "res = PostingDone r" "bs_ledger w' = l"
      by (auto simp: DepositCommand_def result_simps split: prod.splits)
    then show ?thesis by (elim entity_store.deposit_ok_spec [OF M]) auto
  qed
  show "cmd_execute (DepositCommand M i n d) e w = (Inl x, w') \<Longrightarrow> bs_db w' = bs_db w"
    by (auto simp: DepositCommand_def result_simps dest: deposit_failed split: prod.splits)
  show "cmd_undo (DepositCommand M i n d) = undo_by_reverse M" by (simp add: DepositCommand_def)
qed

lemma withdraw_command: "entity_store M entries \<Longrightarrow> bank_command M entries (WithdrawCommand M i n d)"
proof (intro bank_command.intro bank_command_axioms.intro)
  fix e w res w' x
  assume M: "entity_store M entries"
  let ?o = "\<lparr>po_description = d, po_type = None\<rparr>"
  show "cmd_execute (WithdrawCommand M i n d) e w = (Inr res, w') \<Longrightarrow>
      \<exists>ps. applies M entries ps (bs_db w) (bs_db w') \<and> (\<forall>p \<in> set ps. pg_reference p = result_reference res)"
  proof -
    assume "cmd_execute (WithdrawCommand M i n d) e w = (Inr res, w')"
    then obtain r l where "withdraw M e i n ?o (bs_ledger w) = (Inr r, l)" "res = PostingDone r" "bs_ledger w' = l"
      by (auto simp: WithdrawCommand_def result_simps split: prod.splits)
    then show ?thesis by (elim entity_store.withdraw_ok_spec [OF M]) auto
  qed
  show "cmd_execute (WithdrawCommand M i n d) e w = (Inl x, w') \<Longrightarrow> bs_db w' = bs_db w"
    by (auto simp: WithdrawCommand_def result_simps dest: withdraw_failed split: prod.splits)
  show "cmd_undo (WithdrawCommand M i n d) = undo_by_reverse M" by (simp add: WithdrawCommand_def)
qed

lemma transfer_command:
  assumes S: "money_transfer_service M entries svc"
  shows "bank_command M entries (TransferCommand svc M q)"
proof (intro bank_command.intro bank_command_axioms.intro)
  show "entity_store M entries" by (rule money_transfer_service.axioms(1) [OF S])
  fix e w res w' x
  show "cmd_execute (TransferCommand svc M q) e w = (Inr res, w') \<Longrightarrow>
      \<exists>ps. applies M entries ps (bs_db w) (bs_db w') \<and> (\<forall>p \<in> set ps. pg_reference p = result_reference res)"
    using money_transfer_service.svc_postings_reference [OF S, of e q w]
    by (auto simp: TransferCommand_def result_simps split: prod.splits)
  show "cmd_execute (TransferCommand svc M q) e w = (Inl x, w') \<Longrightarrow> bs_db w' = bs_db w"
    using money_transfer_service.svc_failed [OF S, of e q w]
    by (auto simp: TransferCommand_def result_simps split: prod.splits)
  show "cmd_undo (TransferCommand svc M q) = undo_by_reverse M" by (simp add: TransferCommand_def)
qed

interpretation deposit_cmd: bank_command tables_manager entryRows "DepositCommand tables_manager i n d" for i n d
  by (rule deposit_command [OF tables_store])

interpretation withdraw_cmd: bank_command tables_manager entryRows "WithdrawCommand tables_manager i n d" for i n d
  by (rule withdraw_command [OF tables_store])

interpretation transfer_cmd: bank_command tables_manager entryRows
    "TransferCommand (money_transfer tables_manager fee rules) tables_manager q" for fee rules q
  by (rule transfer_command [OF money_transfer_contract [OF tables_store]])

section \<open>Properties of the invoker\<close>

lemma keys_update_record [simp]: "map fst (update_record i f h) = map fst h"
  by (auto simp: update_record_def)

lemma map_of_update_record:
  "map_of (update_record i f h) k = map_option (\<lambda>(c, r). (c, if k = i then f r else r)) (map_of h k)"
  by (induction h) (auto simp: update_record_def)

lemma keys_filter_hd:
  "distinct (map fst h) \<Longrightarrow> h \<noteq> [] \<Longrightarrow> map fst (filter (\<lambda>x. fst x \<noteq> fst (hd h)) h) = tl (map fst h)"
proof (cases h)
  case (Cons x xs)
  assume "distinct (map fst h)"
  with Cons have "\<forall>y \<in> set xs. fst y \<noteq> fst x" by (auto simp: rev_image_eqI)
  then have "filter (\<lambda>y. fst y \<noteq> fst x) xs = xs" by (simp add: filter_id_conv)
  with Cons show ?thesis by simp
qed simp

text \<open>The keys after one command was remembered.\<close>

definition keep_last :: "'a list \<Rightarrow> 'a list" where
  "keep_last ks = (if MAX_HISTORY < length ks then tl ks else ks)"

lemma keys_remember:
  assumes "distinct (map fst h)" "cr_commandId r \<notin> fst ` set h"
  shows "map fst (remember c r h) = keep_last (map fst h @ [cr_commandId r])"
proof -
  let ?h = "map_set (cr_commandId r) (c, r) h"
  have k: "map fst ?h = map fst h @ [cr_commandId r]" using assms(2) by (simp add: keys_map_set)
  then have d: "distinct (map fst ?h)" using assms by simp
  have l: "length ?h = Suc (length h)" using arg_cong [OF k, of length] by simp
  then have "?h \<noteq> []" by auto
  with k l keys_filter_hd [OF d] show ?thesis
    by (simp add: remember_def Let_def keep_last_def)
qed

lemma keys_run:
  "map fst (fst (snd (run c uuid e hw))) = map fst (remember c
     \<lparr>cr_commandId = uuid, cr_name = cmd_name c, cr_summary = cmd_summary c, cr_status = EXECUTED,
       cr_reference = None, cr_error = None, cr_executedAt = isoNow e, cr_undoneAt = None\<rparr> (fst hw))"
  by (auto simp: run_def Let_def split: prod.splits sum.splits)

fun run_all :: "('w bank_command \<times> string \<times> env) list \<Rightarrow> 'w history \<times> 'w \<Rightarrow> 'w history \<times> 'w" where
  "run_all [] hw = hw"
| "run_all ((c, uuid, e) # xs) hw = run_all xs (snd (run c uuid e hw))"

lemma run_all_append: "run_all (xs @ ys) hw = run_all ys (run_all xs hw)"
  by (induction xs hw rule: run_all.induct) auto

lemma keep_last_drop:
  assumes "ks = drop (length is - MAX_HISTORY) is"
  shows "keep_last (ks @ [i]) = drop (length (is @ [i]) - MAX_HISTORY) (is @ [i])"
proof (cases "MAX_HISTORY \<le> length is")
  case True
  then have "length ks = MAX_HISTORY" using assms by simp
  moreover have "tl (ks @ [i]) = tl ks @ [i]" using calculation by (cases ks) (simp_all add: MAX_HISTORY_def)
  moreover have "tl ks = drop (Suc (length is) - MAX_HISTORY) is"
    using True by (simp add: assms Suc_diff_le drop_Suc tl_drop)
  ultimately show ?thesis using True by (simp add: keep_last_def Suc_diff_le) (simp add: MAX_HISTORY_def)
next
  case False
  then have "ks = is" using assms by simp
  with False show ?thesis by (simp add: keep_last_def)
qed

definition command_ids :: "('w bank_command \<times> string \<times> env) list \<Rightarrow> string list" where
  "command_ids xs = map (\<lambda>(c, i, e). i) xs"

lemma command_ids_simps [simp]:
  "command_ids [] = []" "command_ids (x # xs) = fst (snd x) # command_ids xs"
  "command_ids (xs @ ys) = command_ids xs @ command_ids ys" "length (command_ids xs) = length xs"
  by (auto simp: command_ids_def split: prod.splits)

text \<open>
  The history holds exactly the last 500 commands. After any sequence of commands with distinct
  ids, whatever their outcomes, its keys are the ids of the last 500 of them in order.
\<close>

theorem history_keeps_last:
  fixes xs :: "('w bank_command \<times> string \<times> env) list"
  assumes "distinct (command_ids xs)"
  shows "map fst (fst (run_all xs ([], w))) = drop (length xs - MAX_HISTORY) (command_ids xs)"
  using assms
proof (induction xs rule: rev_induct)
  case Nil
  then show ?case by simp
next
  case (snoc x xs)
  obtain c i e where x: "x = (c, i, e)" by (cases x)
  let ?h = "fst (run_all xs ([], w))" and ?is = "command_ids xs"
  have k: "map fst ?h = drop (length ?is - MAX_HISTORY) ?is" using snoc by simp
  have "distinct (map fst ?h)" unfolding k using snoc.prems by simp
  moreover have "i \<notin> fst ` set ?h"
  proof
    assume "i \<in> fst ` set ?h"
    then have "i \<in> set (map fst ?h)" by simp
    then have "i \<in> set ?is" unfolding k by (rule in_set_dropD)
    with snoc.prems x show False by auto
  qed
  ultimately have "map fst (fst (run_all (xs @ [x]) ([], w))) = keep_last (map fst ?h @ [i])"
    by (simp add: run_all_append x keys_run keys_remember)
  also have "\<dots> = drop (length (?is @ [i]) - MAX_HISTORY) (?is @ [i])"
    using k by (rule keep_last_drop)
  finally show ?case by (simp add: x)
qed

definition sample_command :: "tables bank_state bank_command" where
  "sample_command = DepositCommand tables_manager ''a'' 500 None"

theorem history_keeps_last_witness:
  "map fst (fst (run_all [(sample_command, ''c1'', sample_env), (sample_command, ''c2'', sample_env)] ([], sample_bank))) =
     [''c1'', ''c2'']"
  using history_keeps_last [of "[(sample_command, ''c1'', sample_env), (sample_command, ''c2'', sample_env)]" sample_bank]
  by (simp add: MAX_HISTORY_def)

text \<open>
  A command is undone at most once. After an undo has succeeded, undoing the same command again is
  refused, and nothing changes.
\<close>

theorem undo_only_once:
  assumes "undo i e hw = (Inr r, hw')"
  shows "undo i e' hw' = (Inl (BusinessRuleError (''Command '' @ i @ '' is UNDONE and cannot be undone'')), hw')"
proof -
  from assms obtain c rc where "map_of (fst hw) i = Some (c, rc)"
    and "fst hw' = update_record i (\<lambda>r. r\<lparr>cr_status := UNDONE, cr_undoneAt := Some (isoNow e)\<rparr>) (fst hw)"
    by (auto simp: undo_def split: option.splits if_splits prod.splits sum.splits)
  then show ?thesis by (simp add: undo_def map_of_update_record)
qed

text \<open>A command that stands for the opening deposit of the sample bank.\<close>

definition opening_result :: command_result where
  "opening_result = PostingDone
     \<lparr>pr_reference = ''DEP-b'', pr_accountId = ''b'', pr_amountMinor = 20000, pr_balanceAfterMinor = 20000\<rparr>"

definition opening_command :: "tables bank_state bank_command" where
  "opening_command = (DepositCommand tables_manager ''b'' 20000 None)\<lparr>cmd_execute := (\<lambda>e w. (Inr opening_result, w))\<rparr>"

lemma sample_undo:
  "\<exists>r hw. undo ''c1'' sample_env (snd (run opening_command ''c1'' sample_env ([], sample_bank))) = (Inr r, hw)"
proof -
  obtain rr l where "reverse tables_manager sample_env ''DEP-b'' sample_state = (Inr (rr, 1), l)"
    using sample_reverse by blast
  then show ?thesis
    by (simp add: undo_def run_def opening_command_def opening_result_def DepositCommand_def undo_by_reverse_def update_record_def
        remember_def map_set_def MAX_HISTORY_def)
qed

theorem undo_only_once_witness:
  "\<exists>hw :: tables bank_state history \<times> tables bank_state. undo ''c1'' sample_env hw =
     (Inl (BusinessRuleError (''Command '' @ ''c1'' @ '' is UNDONE and cannot be undone'')), hw)"
proof -
  obtain r hw where "undo ''c1'' sample_env (snd (run opening_command ''c1'' sample_env ([], sample_bank))) = (Inr r, hw)"
    using sample_undo by blast
  from undo_only_once [OF this, of sample_env] show ?thesis by blast
qed

lemma sample_reference:
  "next_reference ''DEP'' sample_env \<lparr>sequence = 0, nodeTag = ''OCAL''\<rparr> =
     (''DEP-20260102-OCAL-00000105'', \<lparr>sequence = 1, nodeTag = ''OCAL''\<rparr>)"
proof -
  have "char_of (53 :: nat) = CHR ''5''" by code_simp
  then have "toUpperCase (show_base36 5) = ''5''"
    by (simp add: show_base36.simps [of 5] base36_char_def toUpperCase_def upper_char_def)
  moreover have "show_nat (Suc 0) = ''1''" by (simp add: show_nat.simps [of "Suc 0"])
  moreover have "replicate 5 CHR ''0'' = ''00000''" by (simp add: numeral_eq_Suc)
  ultimately show ?thesis by (simp add: next_reference_def sample_env_def padStart_def)
qed

lemma sample_deposit_undo:
  "\<exists>res w' rr k w''. cmd_execute sample_command sample_env sample_bank = (Inr res, w') \<and>
     result_reference res = ''DEP-20260102-OCAL-00000105'' \<and>
     cmd_undo sample_command sample_env ''DEP-20260102-OCAL-00000105'' w' = (Inr (rr, k), w'')"
  by (simp add: sample_command_def DepositCommand_def undo_by_reverse_def deposit_def validate_accepts deposit_ok_def
      sample_bank_def sample_reference reverse_eval sample_state_def sample_db_def sample_account_def opening_entry_def
      emit_def)



end
