(* ===== verification/History.thy ===== *)
theory History
  imports LedgerLaws
begin

text \<open>
  Reading the ledger page by page (\<open>src/src/modules/transactions/ledger-history.iterator.ts\<close>,
  \<open>src/src/modules/transactions/transaction-history.service.ts\<close>).

  The database keeps time stamps in microseconds; an entity's \<open>createdAt\<close> is a JavaScript date, which
  the driver cuts to milliseconds. \<open>cursor_of\<close> is the cursor the iterator remembers, \<open>row_key\<close> the
  key the query compares it with. The interface \<open>EntryFetcher\<close> is the locale \<open>entry_fetcher\<close>: pages
  of a strictly sorted sequence, and cursors that stand for the keys of its rows.
\<close>

section \<open>Keyset positions\<close>

datatype keyset = Keyset (ks_at: int) (ks_id: string)

instantiation keyset :: linorder
begin

definition less_eq_keyset :: "keyset \<Rightarrow> keyset \<Rightarrow> bool" where
  "less_eq_keyset a b \<longleftrightarrow> ks_at a < ks_at b \<or> (ks_at a = ks_at b \<and> ks_id a \<le> ks_id b)"

definition less_keyset :: "keyset \<Rightarrow> keyset \<Rightarrow> bool" where
  "less_keyset a b \<longleftrightarrow> ks_at a < ks_at b \<or> (ks_at a = ks_at b \<and> ks_id a < ks_id b)"

instance
proof
  fix a b c :: keyset
  show "(a < b) = (a \<le> b \<and> \<not> b \<le> a)" by (auto simp: less_eq_keyset_def less_keyset_def)
  show "a \<le> a" by (simp add: less_eq_keyset_def)
  show "a \<le> b \<Longrightarrow> b \<le> c \<Longrightarrow> a \<le> c" by (auto simp: less_eq_keyset_def)
  show "a \<le> b \<Longrightarrow> b \<le> a \<Longrightarrow> a = b" by (cases a; cases b) (auto simp: less_eq_keyset_def)
  show "a \<le> b \<or> b \<le> a" by (auto simp: less_eq_keyset_def)
qed

end

definition row_key :: "ledger_entry \<Rightarrow> keyset" where
  "row_key r = Keyset (entry_createdAt r) (entry_id r)"

definition js_date_ms :: "int \<Rightarrow> int" where
  "js_date_ms us = us div 1000"

definition cursor_of :: "ledger_entry \<Rightarrow> keyset" where
  "cursor_of r = Keyset (1000 * js_date_ms (entry_createdAt r)) (entry_id r)"

section \<open>The fetcher\<close>

text \<open>\<open>from\<close> and \<open>to\<close> are dates, in milliseconds.\<close>

record history_options =
  ho_pageSize :: "nat option"
  ho_from :: "int option"
  ho_to :: "int option"

definition in_range :: "history_options \<Rightarrow> ledger_entry \<Rightarrow> bool" where
  "in_range opts r \<longleftrightarrow>
     (case ho_from opts of None \<Rightarrow> True | Some t \<Rightarrow> 1000 * t \<le> entry_createdAt r) \<and>
     (case ho_to opts of None \<Rightarrow> True | Some t \<Rightarrow> entry_createdAt r < 1000 * t)"

definition after_cursor :: "keyset option \<Rightarrow> keyset \<Rightarrow> bool" where
  "after_cursor c k \<longleftrightarrow> (case c of None \<Rightarrow> True | Some x \<Rightarrow> x < k)"

definition fetchPage :: "ledger_entry list \<Rightarrow> string \<Rightarrow> keyset option \<Rightarrow> nat \<Rightarrow> history_options \<Rightarrow> ledger_entry list" where
  "fetchPage rows accountId after limit opts =
     take limit (sort_key row_key (filter
       (\<lambda>r. entry_accountId r = accountId \<and> after_cursor after (row_key r) \<and> in_range opts r) rows))"

section \<open>The iterator\<close>

type_synonym fetcher = "keyset option \<Rightarrow> nat \<Rightarrow> ledger_entry list"

record history_iterator =
  hi_buffer :: "ledger_entry list"
  hi_cursor :: "keyset option"
  hi_exhausted :: bool
  hi_pagesFetched :: nat

definition history_init :: history_iterator where
  "history_init = \<lparr>hi_buffer = [], hi_cursor = None, hi_exhausted = False, hi_pagesFetched = 0\<rparr>"

definition page_size :: "history_options \<Rightarrow> nat" where
  "page_size opts = (case ho_pageSize opts of None \<Rightarrow> 200 | Some n \<Rightarrow> n)"

definition loadNextPage :: "fetcher \<Rightarrow> nat \<Rightarrow> history_iterator \<Rightarrow> history_iterator" where
  "loadNextPage fetch pageSize it = (let page = fetch (hi_cursor it) pageSize in
     \<lparr>hi_buffer = page,
      hi_cursor = (if page = [] then hi_cursor it else Some (cursor_of (last page))),
      hi_exhausted = (hi_exhausted it \<or> length page < pageSize),
      hi_pagesFetched = Suc (hi_pagesFetched it)\<rparr>)"

definition next_entry :: "fetcher \<Rightarrow> nat \<Rightarrow> history_iterator \<Rightarrow> ledger_entry option \<times> history_iterator" where
  "next_entry fetch pageSize it = (let
     it' = (if hi_buffer it = [] \<and> \<not> hi_exhausted it then loadNextPage fetch pageSize it else it)
   in case hi_buffer it' of [] \<Rightarrow> (None, it') | r # rs \<Rightarrow> (Some r, it'\<lparr>hi_buffer := rs\<rparr>))"

text \<open>\<open>for await ... of\<close>: the entries up to the first \<open>done\<close>; \<open>None\<close> when \<open>n\<close> calls of \<open>next\<close> did not reach it.\<close>

fun drain :: "fetcher \<Rightarrow> nat \<Rightarrow> nat \<Rightarrow> history_iterator \<Rightarrow> (ledger_entry list \<times> history_iterator) option" where
  "drain fetch pageSize 0 it = None"
| "drain fetch pageSize (Suc n) it =
     (case next_entry fetch pageSize it of
        (None, it') \<Rightarrow> Some ([], it')
      | (Some r, it') \<Rightarrow> map_option (\<lambda>(rs, it''). (r # rs, it'')) (drain fetch pageSize n it'))"

definition iterate_history :: "ledger_entry list \<Rightarrow> string \<Rightarrow> history_options \<Rightarrow> nat \<Rightarrow> (ledger_entry list \<times> history_iterator) option" where
  "iterate_history rows accountId opts n =
     drain (\<lambda>c limit. fetchPage rows accountId c limit opts) (page_size opts) n history_init"

text \<open>\<open>TransactionHistoryService.recent\<close>: newest first.\<close>

definition recent :: "ledger_entry list \<Rightarrow> string \<Rightarrow> nat \<Rightarrow> ledger_entry list" where
  "recent rows accountId limit =
     take (min limit 100) (rev (sort_key row_key (filter (\<lambda>r. entry_accountId r = accountId) rows)))"

section \<open>The interface of a fetcher\<close>

locale entry_fetcher =
  fixes fetch :: fetcher and all :: "ledger_entry list"
  assumes strictly_sorted: "sorted_wrt (<) (map row_key all)"
    and fetch_after: "fetch c n = take n (filter (\<lambda>r. after_cursor c (row_key r)) all)"
    and cursor_exact: "r \<in> set all \<Longrightarrow> cursor_of r = row_key r"
begin

definition remaining :: "history_iterator \<Rightarrow> ledger_entry list" where
  "remaining it = hi_buffer it @ (if hi_exhausted it then [] else filter (\<lambda>r. after_cursor (hi_cursor it) (row_key r)) all)"

lemma filter_after_last:
  assumes "sorted_wrt (<) (map row_key rs)" "take n rs \<noteq> []"
  shows "filter (\<lambda>r. row_key (last (take n rs)) < row_key r) rs = drop n rs"
proof -
  let ?a = "take n rs" and ?b = "drop n rs"
  have s: "sorted_wrt (<) (map row_key (?a @ ?b))" using assms(1) by simp
  have "\<not> row_key (last ?a) < row_key r" if r: "r \<in> set ?a" for r
  proof -
    have "?a = butlast ?a @ [last ?a]" using assms(2) by simp
    moreover have "sorted_wrt (<) (map row_key ?a)" using s unfolding map_append sorted_wrt_append by blast
    ultimately have "sorted_wrt (<) (map row_key (butlast ?a) @ [row_key (last ?a)])" by (metis list.map(1,2) map_append)
    then have "\<forall>x \<in> set (butlast ?a). row_key x < row_key (last ?a)" by (simp add: sorted_wrt_append)
    moreover have "r \<in> set (butlast ?a) \<or> r = last ?a" using r \<open>?a = butlast ?a @ [last ?a]\<close>
      by (metis Un_iff empty_iff insert_iff list.set(1,2) set_append)
    ultimately show ?thesis by (metis less_asym less_irrefl)
  qed
  moreover have "row_key (last ?a) < row_key r" if "r \<in> set ?b" for r
    using s that assms(2) unfolding map_append sorted_wrt_append by (metis (no_types) imageI last_in_set set_map)
  ultimately have "filter (\<lambda>r. row_key (last ?a) < row_key r) (?a @ ?b) = ?b"
    by (simp add: filter_empty_conv filter_id_conv del: append_take_drop_id)
  then show ?thesis by simp
qed

lemma sorted_after: "sorted_wrt (<) (map row_key (filter P all))"
  using strictly_sorted by (induction all) auto

lemma remaining_load:
  assumes "hi_buffer it = []" "\<not> hi_exhausted it" "0 < n"
  shows "remaining (loadNextPage fetch n it) = remaining it"
proof -
  let ?rest = "filter (\<lambda>r. after_cursor (hi_cursor it) (row_key r)) all"
  let ?page = "take n ?rest"
  have page: "fetch (hi_cursor it) n = ?page" by (rule fetch_after)
  show ?thesis
  proof (cases "?page = []")
    case True
    then have "?rest = []" using assms(3) by (cases ?rest) auto
    with assms page show ?thesis by (simp add: remaining_def loadNextPage_def Let_def)
  next
    case False
    then have "last ?page \<in> set ?rest" by (meson in_set_takeD last_in_set)
    then have "last ?page \<in> set all" and last_after: "after_cursor (hi_cursor it) (row_key (last ?page))" by auto
    from \<open>last ?page \<in> set all\<close> have c: "cursor_of (last ?page) = row_key (last ?page)" by (rule cursor_exact)
    have "filter (\<lambda>r. row_key (last ?page) < row_key r) all = drop n ?rest"
    proof -
      have "(after_cursor (hi_cursor it) (row_key r) \<and> row_key (last ?page) < row_key r) = (row_key (last ?page) < row_key r)" for r
        using last_after by (auto simp: after_cursor_def simp del: take_eq_Nil split: option.splits)
      then have "filter (\<lambda>r. row_key (last ?page) < row_key r) all = filter (\<lambda>r. row_key (last ?page) < row_key r) ?rest"
        by (simp only: filter_filter)
      then show ?thesis using filter_after_last [OF sorted_after False] by simp
    qed
    moreover have "length ?page < n \<longleftrightarrow> drop n ?rest = [] \<and> length ?rest < n" by auto
    ultimately show ?thesis
      using assms page c False by (auto simp: remaining_def loadNextPage_def Let_def after_cursor_def)
  qed
qed

lemma next_remaining:
  assumes "0 < n"
  shows "next_entry fetch n it = (Some r, it') \<Longrightarrow> remaining it = r # remaining it'"
    and "next_entry fetch n it = (None, it') \<Longrightarrow> remaining it = []"
proof -
  let ?it = "if hi_buffer it = [] \<and> \<not> hi_exhausted it then loadNextPage fetch n it else it"
  have same: "remaining ?it = remaining it" using remaining_load [of it n] assms by simp
  show "next_entry fetch n it = (Some r, it') \<Longrightarrow> remaining it = r # remaining it'"
    unfolding same [symmetric] by (auto simp: next_entry_def Let_def remaining_def split: list.splits if_splits)
  show "next_entry fetch n it = (None, it') \<Longrightarrow> remaining it = []"
    unfolding same [symmetric]
    using assms fetch_after [of "hi_cursor it" n]
    by (auto simp: next_entry_def Let_def remaining_def loadNextPage_def split: list.splits if_splits)
qed

lemma drain_remaining:
  "0 < n \<Longrightarrow> length (remaining it) < k \<Longrightarrow> \<exists>it'. drain fetch n k it = Some (remaining it, it')"
proof (induction k arbitrary: it)
  case 0
  then show ?case by simp
next
  case (Suc k)
  obtain r it1 where nx: "next_entry fetch n it = (r, it1)" by (cases "next_entry fetch n it")
  show ?case
  proof (cases r)
    case None
    with nx next_remaining(2) [OF Suc.prems(1)] show ?thesis by simp
  next
    case (Some x)
    with nx next_remaining(1) [OF Suc.prems(1)] have e: "remaining it = x # remaining it1" by simp
    with Suc obtain it' where "drain fetch n k it1 = Some (remaining it1, it')" by fastforce
    with nx Some e show ?thesis by simp
  qed
qed

text \<open>Whatever the page size, the loop ends and hands out every entry once, in order.\<close>

lemma iterates_all: "0 < n \<Longrightarrow> length all < k \<Longrightarrow> \<exists>it'. drain fetch n k history_init = Some (all, it')"
  using drain_remaining [of n history_init k] by (simp add: remaining_def history_init_def after_cursor_def)

end

section \<open>The database fetcher\<close>

definition history_rows :: "ledger_entry list \<Rightarrow> string \<Rightarrow> history_options \<Rightarrow> ledger_entry list" where
  "history_rows rows accountId opts = sort_key row_key (filter (\<lambda>r. entry_accountId r = accountId \<and> in_range opts r) rows)"

lemma fetchPage_after:
  "fetchPage rows accountId c n opts = take n (filter (\<lambda>r. after_cursor c (row_key r)) (history_rows rows accountId opts))"
  by (simp add: fetchPage_def history_rows_def filter_sort conj_ac)

text \<open>A table with a primary key, whose time stamps are whole milliseconds.\<close>

definition millisecond_rows :: "ledger_entry list \<Rightarrow> bool" where
  "millisecond_rows rows \<longleftrightarrow> distinct (map entry_id rows) \<and> (\<forall>r \<in> set rows. entry_createdAt r mod 1000 = 0)"

definition truncate_row :: "ledger_entry \<Rightarrow> ledger_entry" where
  "truncate_row r = r\<lparr>entry_createdAt := 1000 * js_date_ms (entry_createdAt r)\<rparr>"

fun distinct_rows :: "ledger_entry list \<Rightarrow> ledger_entry list" where
  "distinct_rows [] = []"
| "distinct_rows (r # rs) = truncate_row r # filter (\<lambda>x. entry_id x \<noteq> entry_id r) (distinct_rows rs)"

lemma distinct_map_filter: "distinct (map f xs) \<Longrightarrow> distinct (map f (filter P xs))"
  by (induction xs) auto

lemma distinct_rows_ok: "millisecond_rows (distinct_rows rows)"
  by (induction rows) (auto simp: millisecond_rows_def truncate_row_def distinct_map_filter)

lemma distinct_rows_id: "millisecond_rows rows \<Longrightarrow> distinct_rows rows = rows"
proof (induction rows)
  case Nil
  then show ?case by simp
next
  case (Cons r rs)
  then have r: "distinct_rows rs = rs" and n: "\<forall>x \<in> set rs. entry_id x \<noteq> entry_id r" and m: "entry_createdAt r mod 1000 = 0"
    by (auto simp: millisecond_rows_def rev_image_eqI)
  from n have "filter (\<lambda>x. entry_id x \<noteq> entry_id r) rs = rs" by (simp add: filter_id_conv)
  moreover have "truncate_row r = r" using m by (simp add: truncate_row_def js_date_ms_def mult_div_mod_eq minus_mod_eq_mult_div [symmetric])
  ultimately show ?case using r by simp
qed

lemma millisecond_fetcher:
  assumes "millisecond_rows rows"
  shows "entry_fetcher (\<lambda>c limit. fetchPage rows accountId c limit opts) (history_rows rows accountId opts)"
proof
  fix c n r
  let ?f = "filter (\<lambda>r. entry_accountId r = accountId \<and> in_range opts r) rows"
  show "fetchPage rows accountId c n opts = take n (filter (\<lambda>r. after_cursor c (row_key r)) (history_rows rows accountId opts))"
    by (rule fetchPage_after)
  have "distinct (map entry_id ?f)" using assms by (simp add: millisecond_rows_def distinct_map_filter)
  then have "distinct (map row_key ?f)" by (auto simp: row_key_def distinct_map inj_on_def)
  then have "distinct (map row_key (history_rows rows accountId opts))"
    by (simp add: history_rows_def distinct_map)
  moreover have "sorted (map row_key (history_rows rows accountId opts))" by (simp add: history_rows_def)
  ultimately show "sorted_wrt (<) (map row_key (history_rows rows accountId opts))"
    by (simp add: strict_sorted_iff)
  assume "r \<in> set (history_rows rows accountId opts)"
  then have "entry_createdAt r mod 1000 = 0" using assms by (auto simp: history_rows_def millisecond_rows_def)
  then show "cursor_of r = row_key r"
    by (simp add: cursor_of_def row_key_def js_date_ms_def minus_mod_eq_mult_div [symmetric])
qed

interpretation table_fetcher: entry_fetcher "\<lambda>c limit. fetchPage (distinct_rows rows) accountId c limit opts"
    "history_rows (distinct_rows rows) accountId opts" for rows accountId opts
  by (rule millisecond_fetcher [OF distinct_rows_ok])

lemma iterate_milliseconds:
  assumes "millisecond_rows rows" "0 < page_size opts" "length rows < n"
  shows "\<exists>it. iterate_history rows accountId opts n = Some (history_rows rows accountId opts, it)"
proof -
  have "length (history_rows rows accountId opts) < n"
    using assms(3) by (simp add: history_rows_def le_less_trans [OF length_filter_le])
  then show ?thesis
    using table_fetcher.iterates_all [OF assms(2), of rows accountId opts n] distinct_rows_id [OF assms(1)]
    by (simp add: iterate_history_def)
qed

section \<open>Properties of the iterator\<close>

text \<open>
  C22: on a table whose time stamps are whole milliseconds the iterator ends and hands out every entry
  of the account in the asked range exactly once, oldest first, whatever the page size.
\<close>

theorem history_complete:
  assumes "millisecond_rows rows" and "0 < page_size opts" and "length rows < n"
  shows "\<exists>it. iterate_history rows accountId opts n = Some (history_rows rows accountId opts, it)"
  using assms by (rule iterate_milliseconds)

definition history_entry :: "string \<Rightarrow> int \<Rightarrow> ledger_entry" where
  "history_entry i t =
     \<lparr>entry_id = i, entry_accountId = ''a'', entry_type = DEPOSIT, entry_amountMinor = 1, entry_balanceAfterMinor = 1,
      entry_reference = [], entry_description = [], entry_createdAt = t\<rparr>"

definition two_per_page :: history_options where
  "two_per_page = \<lparr>ho_pageSize = Some 2, ho_from = None, ho_to = None\<rparr>"

theorem history_complete_witness:
  "\<exists>it. iterate_history [history_entry ''u2'' 2000, history_entry ''u1'' 1000, history_entry ''u3'' 3000] ''a'' two_per_page 9 =
     Some ([history_entry ''u1'' 1000, history_entry ''u2'' 2000, history_entry ''u3'' 3000], it)"
proof -
  have "history_rows [history_entry ''u2'' 2000, history_entry ''u1'' 1000, history_entry ''u3'' 3000] ''a'' two_per_page =
      [history_entry ''u1'' 1000, history_entry ''u2'' 2000, history_entry ''u3'' 3000]"
    by code_simp
  moreover have "millisecond_rows [history_entry ''u2'' 2000, history_entry ''u1'' 1000, history_entry ''u3'' 3000]"
    by (simp add: millisecond_rows_def history_entry_def)
  ultimately show ?thesis
    using history_complete [of "[history_entry ''u2'' 2000, history_entry ''u1'' 1000, history_entry ''u3'' 3000]" two_per_page 9 "''a''"]
    by (simp add: page_size_def two_per_page_def)
qed

text \<open>
  With the microseconds PostgreSQL keeps, the last row of a full page comes again at the head of the
  next one. Three entries in pages of two are handed out as five.
\<close>

theorem history_repeats_rows:
  "map_option (\<lambda>(rs, it). map entry_id rs)
     (iterate_history [history_entry ''u1'' 1500, history_entry ''u2'' 2500, history_entry ''u3'' 3500] ''a'' two_per_page 9) =
   Some [''u1'', ''u2'', ''u2'', ''u3'', ''u3'']"
  by code_simp

end
