(* ===== verification/Products.thy ===== *)
theory Products
  imports Entities
begin

text \<open>
  Account products and the creation of accounts
  (\<open>src/src/modules/accounts/domain/account-product.prototype.ts\<close>,
  \<open>src/src/modules/accounts/domain/account.factory.ts\<close>).

  The prototype pattern is about aliasing, so the objects a product refers to live in an explicit
  heap: its \<open>features\<close> object and that object's \<open>perks\<close> array. An object or an array is allocated by
  appending a cell; \<open>push\<close> writes a cell. A product itself is a record holding the address of its
  features.
\<close>

section \<open>The heap\<close>

record features =
  pf_chequeBook :: bool
  pf_debitCard :: bool
  pf_internationalTransfers :: bool
  pf_perks :: nat

datatype cell = FeaturesObject features | PerksArray "string list"

type_synonym heap = "cell list"

definition alloc :: "cell \<Rightarrow> heap \<Rightarrow> nat \<times> heap" where
  "alloc c h = (length h, h @ [c])"

definition features_at :: "heap \<Rightarrow> nat \<Rightarrow> features option" where
  "features_at h a = (if a < length h then (case h ! a of FeaturesObject f \<Rightarrow> Some f | _ \<Rightarrow> None) else None)"

definition perks_at :: "heap \<Rightarrow> nat \<Rightarrow> string list option" where
  "perks_at h a = (if a < length h then (case h ! a of PerksArray p \<Rightarrow> Some p | _ \<Rightarrow> None) else None)"

record account_product =
  ap_code :: string
  ap_displayName :: string
  ap_accountType :: AccountType
  ap_dailyWithdrawalLimitMinor :: int
  ap_annualInterestRate :: rat
  ap_minimumOpeningBalanceMinor :: int
  ap_features :: nat

text \<open>\<open>product.features.perks.push(perk)\<close>.\<close>

definition push_perk :: "account_product \<Rightarrow> string \<Rightarrow> heap \<Rightarrow> heap" where
  "push_perk p perk h = (case features_at h (ap_features p) of
     None \<Rightarrow> h
   | Some f \<Rightarrow> (case perks_at h (pf_perks f) of None \<Rightarrow> h | Some ps \<Rightarrow> h[pf_perks f := PerksArray (ps @ [perk])]))"

text \<open>What a product looks like from outside, read through the heap.\<close>

record product_view =
  pv_product :: "string \<times> string \<times> AccountType \<times> int \<times> rat \<times> int"
  pv_flags :: "bool \<times> bool \<times> bool"
  pv_perks :: "string list"

definition view :: "heap \<Rightarrow> account_product \<Rightarrow> product_view option" where
  "view h p = (case features_at h (ap_features p) of
     None \<Rightarrow> None
   | Some f \<Rightarrow> map_option (\<lambda>ps. \<lparr>pv_product = (ap_code p, ap_displayName p, ap_accountType p,
         ap_dailyWithdrawalLimitMinor p, ap_annualInterestRate p, ap_minimumOpeningBalanceMinor p),
       pv_flags = (pf_chequeBook f, pf_debitCard f, pf_internationalTransfers f), pv_perks = ps\<rparr>)
       (perks_at h (pf_perks f)))"

section \<open>Cloning\<close>

text \<open>The overrides of \<open>clone\<close>: every field may be missing.\<close>

record overrides =
  ov_code :: "string option"
  ov_displayName :: "string option"
  ov_accountType :: "AccountType option"
  ov_dailyWithdrawalLimitMinor :: "int option"
  ov_annualInterestRate :: "rat option"
  ov_minimumOpeningBalanceMinor :: "int option"
  ov_chequeBook :: "bool option"
  ov_debitCard :: "bool option"
  ov_internationalTransfers :: "bool option"
  ov_perks :: "nat option"

definition no_overrides :: overrides where
  "no_overrides = \<lparr>ov_code = None, ov_displayName = None, ov_accountType = None, ov_dailyWithdrawalLimitMinor = None,
     ov_annualInterestRate = None, ov_minimumOpeningBalanceMinor = None, ov_chequeBook = None, ov_debitCard = None,
     ov_internationalTransfers = None, ov_perks = None\<rparr>"

definition or_else :: "'a option \<Rightarrow> 'a \<Rightarrow> 'a" where
  "or_else m d = (case m of None \<Rightarrow> d | Some x \<Rightarrow> x)"

lemma or_else_simps [simp]: "or_else None d = d" "or_else (Some x) d = x"
  by (simp_all add: or_else_def)

definition clone :: "overrides \<Rightarrow> account_product \<Rightarrow> heap \<Rightarrow> (account_product \<times> heap) option" where
  "clone ov p h = (case features_at h (ap_features p) of
     None \<Rightarrow> None
   | Some f \<Rightarrow> (case perks_at h (pf_perks f) of
       None \<Rightarrow> None
     | Some ps \<Rightarrow> let
         (perks, h1) = alloc (PerksArray ps) h;
         (feats, h2) = alloc (FeaturesObject
           \<lparr>pf_chequeBook = or_else (ov_chequeBook ov) (pf_chequeBook f),
            pf_debitCard = or_else (ov_debitCard ov) (pf_debitCard f),
            pf_internationalTransfers = or_else (ov_internationalTransfers ov) (pf_internationalTransfers f),
            pf_perks = or_else (ov_perks ov) perks\<rparr>) h1
       in Some (\<lparr>ap_code = or_else (ov_code ov) (ap_code p),
            ap_displayName = or_else (ov_displayName ov) (ap_displayName p),
            ap_accountType = or_else (ov_accountType ov) (ap_accountType p),
            ap_dailyWithdrawalLimitMinor = or_else (ov_dailyWithdrawalLimitMinor ov) (ap_dailyWithdrawalLimitMinor p),
            ap_annualInterestRate = or_else (ov_annualInterestRate ov) (ap_annualInterestRate p),
            ap_minimumOpeningBalanceMinor = or_else (ov_minimumOpeningBalanceMinor ov) (ap_minimumOpeningBalanceMinor p),
            ap_features = feats\<rparr>, h2)))"

section \<open>The catalog\<close>

definition new_product ::
  "string \<Rightarrow> string \<Rightarrow> AccountType \<Rightarrow> int \<Rightarrow> rat \<Rightarrow> int \<Rightarrow> bool \<Rightarrow> bool \<Rightarrow> bool \<Rightarrow> string list \<Rightarrow> heap \<Rightarrow> account_product \<times> heap" where
  "new_product code name ty limit rate minimum cheque debit intl perks h = (let
     (pa, h1) = alloc (PerksArray perks) h;
     (fa, h2) = alloc (FeaturesObject \<lparr>pf_chequeBook = cheque, pf_debitCard = debit,
        pf_internationalTransfers = intl, pf_perks = pa\<rparr>) h1
   in (\<lparr>ap_code = code, ap_displayName = name, ap_accountType = ty, ap_dailyWithdrawalLimitMinor = limit,
        ap_annualInterestRate = rate, ap_minimumOpeningBalanceMinor = minimum, ap_features = fa\<rparr>, h2))"

type_synonym catalog = "(string \<times> account_product) list"

definition student_overrides :: overrides where
  "student_overrides = no_overrides\<lparr>ov_code := Some ''STUDENT_SAVER'', ov_displayName := Some ''Student Saver'',
     ov_dailyWithdrawalLimitMinor := Some 2000000, ov_minimumOpeningBalanceMinor := Some 0\<rparr>"

definition freelancer_overrides :: overrides where
  "freelancer_overrides = no_overrides\<lparr>ov_code := Some ''FREELANCER_SAVER'', ov_displayName := Some ''Freelancer Saver'',
     ov_dailyWithdrawalLimitMinor := Some 20000000, ov_annualInterestRate := Some (37 / 4),
     ov_internationalTransfers := Some True\<rparr>"

definition make_catalog :: "(catalog \<times> heap) option" where
  "make_catalog = (let
     (basicSaver, h1) = new_product ''BASIC_SAVER'' ''Basic Saver'' SAVINGS 5000000 (17 / 2) 100000
       False True False [''Free SMS alerts''] []
   in case clone student_overrides basicSaver h1 of
        None \<Rightarrow> None
      | Some (studentSaver, h2) \<Rightarrow> (let h3 = push_perk studentSaver ''No minimum balance'' h2
          in case clone freelancer_overrides basicSaver h3 of
               None \<Rightarrow> None
             | Some (freelancerSaver, h4) \<Rightarrow> let
                 h5 = push_perk freelancerSaver ''Foreign remittance tracking'' h4;
                 (businessCurrent, h6) = new_product ''BUSINESS_CURRENT'' ''Business Current'' CURRENT 100000000 0 2500000
                   True True True [''Unlimited transactions''] h5;
                 (termDeposit, h7) = new_product ''TERM_DEPOSIT_1Y'' ''1-Year Term Deposit'' FIXED_DEPOSIT 0 12 5000000
                   False False False [''Fixed profit for 12 months''] h6
               in Some (map (\<lambda>p. (ap_code p, p)) [basicSaver, studentSaver, freelancerSaver, businessCurrent, termDeposit], h7)))"

definition catalog_get :: "catalog \<Rightarrow> string \<Rightarrow> heap \<Rightarrow> (account_product option \<times> heap)" where
  "catalog_get cat code h = (case map_of cat code of
     None \<Rightarrow> (None, h)
   | Some p \<Rightarrow> (case clone no_overrides p h of None \<Rightarrow> (None, h) | Some (q, h') \<Rightarrow> (Some q, h')))"

fun catalog_list :: "catalog \<Rightarrow> heap \<Rightarrow> account_product list \<times> heap" where
  "catalog_list [] h = ([], h)"
| "catalog_list ((k, p) # cat) h = (case clone no_overrides p h of
     None \<Rightarrow> ([], h)
   | Some (q, h1) \<Rightarrow> let (qs, h2) = catalog_list cat h1 in (q # qs, h2))"

section \<open>Cloning shares nothing\<close>

definition old_cells_kept :: "heap \<Rightarrow> heap \<Rightarrow> bool" where
  "old_cells_kept h h' \<longleftrightarrow> length h \<le> length h' \<and> (\<forall>a < length h. h' ! a = h ! a)"

lemma old_cells_append [simp]: "old_cells_kept h (h @ cs)"
  by (simp add: old_cells_kept_def nth_append)

lemma old_cells_at:
  assumes "old_cells_kept h h'"
  shows "features_at h a = Some f \<Longrightarrow> features_at h' a = Some f" "perks_at h a = Some ps \<Longrightarrow> perks_at h' a = Some ps"
  using assms by (auto simp: old_cells_kept_def features_at_def perks_at_def split: if_splits)

lemma view_kept: "view h p = Some v \<Longrightarrow> old_cells_kept h h' \<Longrightarrow> view h' p = Some v"
  using old_cells_at [of h h'] by (auto simp: view_def split: option.splits)

text \<open>The addresses a product reaches.\<close>

definition reach :: "heap \<Rightarrow> account_product \<Rightarrow> nat set" where
  "reach h p = {ap_features p} \<union> (case features_at h (ap_features p) of None \<Rightarrow> {} | Some f \<Rightarrow> {pf_perks f})"

lemma clone_spec:
  assumes "clone no_overrides p h = Some (q, h')"
  shows "old_cells_kept h h'" "view h' q = view h p" "\<forall>a \<in> reach h' q. length h \<le> a \<and> a < length h'"
  using assms
  by (auto simp: clone_def no_overrides_def alloc_def Let_def view_def features_at_def perks_at_def reach_def nth_append
      old_cells_kept_def split: option.splits if_splits)

lemma clone_total: "view h p = Some v \<Longrightarrow> \<exists>q h'. clone ov p h = Some (q, h')"
  by (auto simp: view_def clone_def alloc_def Let_def split: option.splits)

text \<open>What any program that holds a product may do to the heap: it can write the cells it reaches and allocate.\<close>

definition client_writes :: "nat set \<Rightarrow> heap \<Rightarrow> heap \<Rightarrow> bool" where
  "client_writes A h h' \<longleftrightarrow> length h \<le> length h' \<and> (\<forall>a < length h. a \<notin> A \<longrightarrow> h' ! a = h ! a)"

text \<open>
  Nobody outside can change the catalog. A product obtained from \<open>get\<close> equals the stored
  prototype, and whatever its holder then does to the objects it reaches, every prototype of the
  catalog still looks the same.
\<close>

theorem catalog_isolated:
  assumes "catalog_get cat code h = (Some q, h1)"
    and "client_writes (reach h1 q) h1 h2"
  shows "(\<exists>p. map_of cat code = Some p \<and> view h1 q = view h p) \<and>
    (\<forall>(k, p) \<in> set cat. view h p \<noteq> None \<longrightarrow> view h2 p = view h p)"
proof -
  from assms(1) obtain p where p: "map_of cat code = Some p" and c: "clone no_overrides p h = Some (q, h1)"
    by (auto simp: catalog_get_def split: option.splits)
  note spec = clone_spec [OF c]
  have "h2 ! a = h ! a" if a: "a < length h" for a
  proof -
    have "a \<notin> reach h1 q" using spec(3) a by (metis not_less)
    moreover have "a < length h1" using spec(1) a unfolding old_cells_kept_def by linarith
    ultimately have "h2 ! a = h1 ! a" using assms(2) by (simp add: client_writes_def)
    then show ?thesis using spec(1) a by (simp add: old_cells_kept_def)
  qed
  moreover have "length h \<le> length h2"
    using spec(1) assms(2) by (auto simp: old_cells_kept_def client_writes_def)
  ultimately have "old_cells_kept h h2" by (simp add: old_cells_kept_def)
  then have "view h p' \<noteq> None \<longrightarrow> view h2 p' = view h p'" for p'
    using view_kept [of h p' _ h2] \<open>old_cells_kept h h2\<close> by (cases "view h p'") auto
  with p spec(2) show ?thesis by blast
qed

definition sample_catalog :: catalog where
  "sample_catalog = fst (the make_catalog)"

definition sample_heap :: heap where
  "sample_heap = snd (the make_catalog)"

lemma perks_of_catalog:
  "map (\<lambda>(k, p). (k, map_option pv_perks (view sample_heap p))) sample_catalog =
     [(''BASIC_SAVER'', Some [''Free SMS alerts'']),
      (''STUDENT_SAVER'', Some [''Free SMS alerts'', ''No minimum balance'']),
      (''FREELANCER_SAVER'', Some [''Free SMS alerts'', ''Foreign remittance tracking'']),
      (''BUSINESS_CURRENT'', Some [''Unlimited transactions'']),
      (''TERM_DEPOSIT_1Y'', Some [''Fixed profit for 12 months''])]"
  by code_simp

theorem catalog_isolated_witness:
  "\<exists>q h1. catalog_get sample_catalog ''BASIC_SAVER'' sample_heap = (Some q, h1) \<and>
     (\<forall>(k, p) \<in> set sample_catalog. view sample_heap p \<noteq> None \<longrightarrow>
        view (push_perk q ''Gift'' h1) p = view sample_heap p)"
proof -
  have "fst (catalog_get sample_catalog ''BASIC_SAVER'' sample_heap) \<noteq> None" by code_simp
  then obtain q h1 where g: "catalog_get sample_catalog ''BASIC_SAVER'' sample_heap = (Some q, h1)"
    by (cases "catalog_get sample_catalog ''BASIC_SAVER'' sample_heap") auto
  have "client_writes (reach h1 q) h1 (push_perk q ''Gift'' h1)"
    by (auto simp: client_writes_def push_perk_def reach_def split: option.splits)
  from catalog_isolated [OF g this] g show ?thesis by blast
qed

text \<open>
  The catalog is built without any product leaking into another: the perks added to a clone are in
  that clone only.
\<close>

theorem catalog_contents:
  "\<exists>cat h. make_catalog = Some (cat, h) \<and>
     map (\<lambda>(k, p). (k, map_option pv_perks (view h p))) cat =
       [(''BASIC_SAVER'', Some [''Free SMS alerts'']),
        (''STUDENT_SAVER'', Some [''Free SMS alerts'', ''No minimum balance'']),
        (''FREELANCER_SAVER'', Some [''Free SMS alerts'', ''Foreign remittance tracking'']),
        (''BUSINESS_CURRENT'', Some [''Unlimited transactions'']),
        (''TERM_DEPOSIT_1Y'', Some [''Fixed profit for 12 months''])]"
proof -
  have "make_catalog \<noteq> None" by code_simp
  then have "make_catalog = Some (sample_catalog, sample_heap)"
    by (auto simp: sample_catalog_def sample_heap_def)
  then show ?thesis
    by (intro exI [of _ sample_catalog] exI [of _ sample_heap] conjI perks_of_catalog)
qed

section \<open>The account factory\<close>

record open_input =
  oi_ownerName :: string
  oi_currency :: string
  oi_initialDepositMinor :: int
  oi_product :: "account_product option"

record blueprint =
  bp_ownerName :: string
  bp_type :: AccountType
  bp_currency :: string
  bp_productCode :: "string option"
  bp_dailyWithdrawalLimitMinor :: int
  bp_annualInterestRate :: rat
  bp_minimumOpeningBalanceMinor :: int
  bp_status :: AccountStatus

text \<open>\<open>base\<close>, with what each creator adds.\<close>

definition base_blueprint :: "open_input \<Rightarrow> AccountType \<Rightarrow> int \<Rightarrow> rat \<Rightarrow> int \<Rightarrow> blueprint" where
  "base_blueprint inp ty limit rate minimum =
     \<lparr>bp_ownerName = js_trim (oi_ownerName inp), bp_type = ty, bp_currency = toUpperCase (oi_currency inp),
      bp_productCode = None, bp_dailyWithdrawalLimitMinor = limit, bp_annualInterestRate = rate,
      bp_minimumOpeningBalanceMinor = minimum, bp_status = PENDING\<rparr>"

fun createBlueprint :: "AccountType \<Rightarrow> open_input \<Rightarrow> blueprint" where
  "createBlueprint SAVINGS inp = base_blueprint inp SAVINGS 5000000 (17 / 2) 100000"
| "createBlueprint CURRENT inp = base_blueprint inp CURRENT 50000000 0 0"
| "createBlueprint FIXED_DEPOSIT inp = base_blueprint inp FIXED_DEPOSIT 0 12 5000000"

definition assign_product :: "account_product \<Rightarrow> blueprint \<Rightarrow> blueprint" where
  "assign_product p b = b\<lparr>bp_productCode := Some (ap_code p),
     bp_dailyWithdrawalLimitMinor := ap_dailyWithdrawalLimitMinor p,
     bp_annualInterestRate := ap_annualInterestRate p,
     bp_minimumOpeningBalanceMinor := ap_minimumOpeningBalanceMinor p\<rparr>"

definition with_product :: "open_input \<Rightarrow> blueprint \<Rightarrow> err + blueprint" where
  "with_product inp b = (case oi_product inp of
     None \<Rightarrow> Inr b
   | Some p \<Rightarrow>
       if ap_accountType p \<noteq> bp_type b
       then Inl (BusinessRuleError (''Product '' @ ap_code p @ '' is not a '' @ type_name (bp_type b) @ '' product''))
       else Inr (assign_product p b))"

definition open_blueprint :: "AccountType \<Rightarrow> open_input \<Rightarrow> err + blueprint" where
  "open_blueprint ty inp =
     ebind (with_product inp (createBlueprint ty inp)) (\<lambda>b.
     ebind (require (\<not> oi_initialDepositMinor inp < bp_minimumOpeningBalanceMinor b)
        (DomainError BusinessRule
           (''Minimum opening balance is '' @ show_int (bp_minimumOpeningBalanceMinor b) @ '' minor units'')
           (Some [(''required'', DNum (bp_minimumOpeningBalanceMinor b))]))) (\<lambda>_. Inr b))"

lemma createBlueprint_simps [simp]:
  "bp_type (createBlueprint ty inp) = ty" "bp_status (createBlueprint ty inp) = PENDING"
  "bp_ownerName (createBlueprint ty inp) = js_trim (oi_ownerName inp)"
  "bp_currency (createBlueprint ty inp) = toUpperCase (oi_currency inp)"
  by (cases ty; simp add: base_blueprint_def)+

lemma with_product_ok:
  "with_product inp b = Inr b' \<longleftrightarrow> (case oi_product inp of None \<Rightarrow> b' = b
     | Some p \<Rightarrow> ap_accountType p = bp_type b \<and> b' = assign_product p b)"
  by (auto simp: with_product_def split: option.splits)

text \<open>
  An account is opened exactly when its product, if any, is of its type and the initial deposit
  reaches the minimum; it starts pending, with the settings of the product in place of the defaults
  of its type.
\<close>

theorem open_blueprint_iff:
  "open_blueprint ty inp = Inr b \<longleftrightarrow>
     (case oi_product inp of
        None \<Rightarrow> b = createBlueprint ty inp
      | Some p \<Rightarrow> ap_accountType p = ty \<and> b = assign_product p (createBlueprint ty inp)) \<and>
     bp_minimumOpeningBalanceMinor b \<le> oi_initialDepositMinor inp \<and>
     bp_type b = ty \<and> bp_status b = PENDING \<and> bp_ownerName b = js_trim (oi_ownerName inp)"
  by (auto simp: open_blueprint_def result_simps with_product_ok assign_product_def split: option.splits)

end
