(* ===== verification/Portfolio.thy ===== *)
theory Portfolio
  imports SampleData
begin

text \<open>
  The portfolio tree (\<open>src/src/modules/accounts/domain/portfolio.composite.ts\<close>): leaves are accounts,
  groups hold leaves and groups. A \<open>Record<string, number>\<close> is an association list in insertion
  order, which is the order \<open>Object.entries\<close> and \<open>JSON.stringify\<close> use for currency codes.
\<close>

datatype portfolio_component =
  AccountLeaf account
| PortfolioGroup string "portfolio_component list"

definition group_add :: "portfolio_component list \<Rightarrow> portfolio_component \<Rightarrow> portfolio_component" where
  "group_add components g = (case g of
     PortfolioGroup name children \<Rightarrow> PortfolioGroup name (children @ components)
   | AccountLeaf a \<Rightarrow> AccountLeaf a)"

fun component_name :: "portfolio_component \<Rightarrow> string" where
  "component_name (AccountLeaf a) = type_name (acc_type a) @ '' '' @ accountNumber a"
| "component_name (PortfolioGroup name children) = name"

section \<open>Objects as association lists\<close>

text \<open>\<open>sum[k] = (sum[k] ?? 0) + v\<close>: an existing property keeps its place, a new one goes last.\<close>

fun add_total :: "string \<Rightarrow> int \<Rightarrow> (string \<times> int) list \<Rightarrow> (string \<times> int) list" where
  "add_total k v [] = [(k, 0 + v)]"
| "add_total k v ((k', w) # s) = (if k' = k then (k', w + v) # s else (k', w) # add_total k v s)"

definition merge_totals :: "(string \<times> int) list \<Rightarrow> (string \<times> int) list \<Rightarrow> (string \<times> int) list" where
  "merge_totals s child = foldl (\<lambda>s (currency, amount). add_total currency amount s) s child"

fun totals :: "portfolio_component \<Rightarrow> (string \<times> int) list" where
  "totals (AccountLeaf a) = [(acc_currency a, balanceMinor a)]"
| "totals (PortfolioGroup name children) = foldl (\<lambda>s c. merge_totals s (totals c)) [] children"

fun accountCount :: "portfolio_component \<Rightarrow> nat" where
  "accountCount (AccountLeaf a) = 1"
| "accountCount (PortfolioGroup name children) = foldl (\<lambda>n c. n + accountCount c) 0 children"

datatype portfolio_json =
  JAccount string AccountStatus "(string \<times> int) list"
| JGroup string nat "(string \<times> int) list" "portfolio_json list"

fun component_json :: "portfolio_component \<Rightarrow> portfolio_json" where
  "component_json (AccountLeaf a) = JAccount (component_name (AccountLeaf a)) (acc_status a) (totals (AccountLeaf a))"
| "component_json (PortfolioGroup name children) =
     JGroup name (accountCount (PortfolioGroup name children)) (totals (PortfolioGroup name children))
       (map component_json children)"

section \<open>The tree as the list of its accounts\<close>

fun leaves :: "portfolio_component \<Rightarrow> account list" where
  "leaves (AccountLeaf a) = [a]"
| "leaves (PortfolioGroup name children) = concat (map leaves children)"

definition total_in :: "string \<Rightarrow> account list \<Rightarrow> int option" where
  "total_in c accounts = (let own = filter (\<lambda>a. acc_currency a = c) accounts in
     if own = [] then None else Some (sum_list (map balanceMinor own)))"

fun plus_total :: "int option \<Rightarrow> int option \<Rightarrow> int option" where
  "plus_total None y = y"
| "plus_total x None = x"
| "plus_total (Some a) (Some b) = Some (a + b)"

lemma plus_total_None [simp]: "plus_total x None = x"
  by (cases x) simp_all

lemma plus_total_assoc: "plus_total (plus_total x y) z = plus_total x (plus_total y z)"
  by (cases x; cases y; cases z) simp_all

lemma total_in_append: "total_in c (xs @ ys) = plus_total (total_in c xs) (total_in c ys)"
  by (simp add: total_in_def Let_def)

lemma map_of_add_total:
  "map_of (add_total k v s) c = (if c = k then plus_total (map_of s k) (Some v) else map_of s c)"
  by (induction s) auto

lemma keys_add_total: "set (map fst (add_total k v s)) = insert k (set (map fst s))"
  by (induction k v s rule: add_total.induct) (simp_all add: insert_commute)

lemma distinct_add_total: "distinct (map fst s) \<Longrightarrow> distinct (map fst (add_total k v s))"
proof (induction s)
  case (Cons x s)
  then show ?case using keys_add_total [of k v s] by (cases x) auto
qed simp

lemma merge_totals_simps [simp]:
  "merge_totals s [] = s" "merge_totals s ((k, v) # t) = merge_totals (add_total k v s) t"
  by (simp_all add: merge_totals_def)

lemma distinct_merge: "distinct (map fst s) \<Longrightarrow> distinct (map fst (merge_totals s t))"
  by (induction t arbitrary: s) (auto simp: distinct_add_total)

lemma map_of_merge:
  "distinct (map fst t) \<Longrightarrow> map_of (merge_totals s t) c = plus_total (map_of s c) (map_of t c)"
proof (induction t arbitrary: s)
  case (Cons x t)
  obtain k v where x: "x = (k, v)" by (cases x)
  with Cons.prems have "map_of t k = None" by (simp add: map_of_eq_None_iff)
  with Cons x show ?case by (simp add: map_of_add_total)
qed simp

lemma distinct_totals: "distinct (map fst (totals p))"
proof (cases p)
  case (PortfolioGroup name children)
  have "distinct (map fst s) \<Longrightarrow> distinct (map fst (foldl (\<lambda>s c. merge_totals s (totals c)) s children))" for s
    by (induction children arbitrary: s) (auto simp: distinct_merge)
  with PortfolioGroup show ?thesis by simp
qed simp

lemma map_of_totals: "map_of (totals p) c = total_in c (leaves p)"
proof (induction p rule: totals.induct)
  case (1 a)
  then show ?case by (simp add: total_in_def)
next
  case (2 name children)
  have "map_of (foldl (\<lambda>s c. merge_totals s (totals c)) s cs) c = plus_total (map_of s c) (total_in c (concat (map leaves cs)))"
    if "set cs \<subseteq> set children" for s cs
    using that
  proof (induction cs arbitrary: s)
    case Nil
    then show ?case by (simp add: total_in_def)
  next
    case (Cons x cs)
    with "2.IH" [of x] show ?case
      by (simp add: map_of_merge distinct_totals total_in_append plus_total_assoc)
  qed
  from this [of children "[]"] show ?case by simp
qed

lemma accountCount_leaves: "accountCount p = length (leaves p)"
proof (induction p rule: accountCount.induct)
  case (2 name children)
  have "foldl (\<lambda>n c. n + accountCount c) k cs = k + length (concat (map leaves cs))"
    if "set cs \<subseteq> set children" for k cs
    using that by (induction cs arbitrary: k) (auto simp: "2.IH")
  from this [of children 0] show ?case by simp
qed simp

text \<open>
  Whatever the shape of the tree, its totals list each currency once, and hold for a currency the
  sum of the balances of all the accounts below it, without an entry for a currency no account has;
  its count is the number of those accounts.
\<close>

theorem portfolio_totals:
  "distinct (map fst (totals p)) \<and> (\<forall>c. map_of (totals p) c = total_in c (leaves p)) \<and>
   accountCount p = length (leaves p)"
  using distinct_totals map_of_totals accountCount_leaves by blast

end
