(* ===== verification/Interest.thy ===== *)
theory Interest
  imports SampleData
begin

text \<open>
  Interest strategies (\<open>src/src/modules/accounts/domain/interest.strategy.ts\<close>), the account visitors
  (\<open>src/src/modules/accounts/domain/account.visitor.ts\<close>) and the portfolio tree
  (\<open>src/src/modules/accounts/domain/portfolio.composite.ts\<close>).

  Amounts are integers, rates and intermediate results doubles: every arithmetic operation of the
  code is rounded by \<open>dbl\<close>, in the order of the code. The interface \<open>InterestStrategy\<close> is the
  locale \<open>interest_strategy\<close>.
\<close>

section \<open>Strategies\<close>

type_synonym strategy = "int \<Rightarrow> rat \<Rightarrow> int"

definition no_interest :: strategy where
  "no_interest b rate = 0"

definition flat_rate :: strategy where
  "flat_rate b rate = \<lfloor>dbl (dbl (dbl (of_int b * rate) / 100) / 12)\<rfloor>"

definition SLAB_MINOR :: int where
  "SLAB_MINOR = 100000000"

definition BONUS_PERCENT :: rat where
  "BONUS_PERCENT = 3 / 2"

definition tiered_rate :: strategy where
  "tiered_rate b rate = (let
     base = min b SLAB_MINOR;
     above = max 0 (b - SLAB_MINOR);
     yearly = dbl (dbl (of_int base * rate) + dbl (of_int above * dbl (rate + BONUS_PERCENT)))
   in \<lfloor>dbl (dbl (yearly / 100) / 12)\<rfloor>)"

text \<open>\<open>Math.pow(x, 1)\<close> is \<open>x\<close>.\<close>

definition compound_monthly :: strategy where
  "compound_monthly b rate = (let monthlyRate = dbl (dbl (rate / 100) / 12) in
     \<lfloor>dbl (of_int b * dbl (dbl (1 + monthlyRate) - 1))\<rfloor>)"

fun strategyFor :: "AccountType \<Rightarrow> string \<times> strategy" where
  "strategyFor CURRENT = (''none'', no_interest)"
| "strategyFor SAVINGS = (''tiered'', tiered_rate)"
| "strategyFor FIXED_DEPOSIT = (''compound-monthly'', compound_monthly)"

definition calculate_interest :: "AccountType \<Rightarrow> int \<Rightarrow> rat \<Rightarrow> string \<times> int" where
  "calculate_interest ty b rate = (fst (strategyFor ty), snd (strategyFor ty) b rate)"

section \<open>The interface of a strategy\<close>

locale interest_strategy =
  fixes monthly :: strategy
  assumes nothing_on_nothing: "monthly 0 rate = 0"
    and monthly_mono: "0 \<le> rate \<Longrightarrow> b \<le> b' \<Longrightarrow> monthly b rate \<le> monthly b' rate"
begin

lemma monthly_nonneg: "0 \<le> rate \<Longrightarrow> 0 \<le> b \<Longrightarrow> 0 \<le> monthly b rate"
  using monthly_mono [of rate 0 b] nothing_on_nothing [of rate] by simp

text \<open>Interest posted month after month never lowers the balance.\<close>

fun accrue :: "rat \<Rightarrow> nat \<Rightarrow> int \<Rightarrow> int" where
  "accrue rate 0 b = b"
| "accrue rate (Suc n) b = accrue rate n (b + monthly b rate)"

lemma accrue_ge: "0 \<le> rate \<Longrightarrow> 0 \<le> b \<Longrightarrow> b \<le> accrue rate n b"
proof (induction n arbitrary: b)
  case 0
  then show ?case by simp
next
  case (Suc n)
  from monthly_nonneg [OF Suc.prems] Suc.IH [of "b + monthly b rate"] Suc.prems show ?case by simp
qed

end

lemma mult_dbl_mono: "a \<le> b \<Longrightarrow> 0 \<le> r \<Longrightarrow> dbl (of_int a * r) \<le> dbl (of_int b * r)"
  by (intro dbl_mono mult_right_mono) simp_all

interpretation no_interest: interest_strategy no_interest
  by unfold_locales (simp_all add: no_interest_def)

interpretation flat: interest_strategy flat_rate
proof
  show "flat_rate 0 rate = 0" for rate by (simp add: flat_rate_def)
  show "0 \<le> rate \<Longrightarrow> b \<le> b' \<Longrightarrow> flat_rate b rate \<le> flat_rate b' rate" for rate b b'
    unfolding flat_rate_def by (intro floor_mono dbl_mono divide_right_mono mult_dbl_mono) simp_all
qed

interpretation tiered: interest_strategy tiered_rate
proof
  show "tiered_rate 0 rate = 0" for rate by (simp add: tiered_rate_def SLAB_MINOR_def)
  fix rate :: rat and b b' :: int
  assume r: "0 \<le> rate" and b: "b \<le> b'"
  have s: "0 \<le> dbl (rate + BONUS_PERCENT)" using r by (intro dbl_nonneg) (simp add: BONUS_PERCENT_def)
  show "tiered_rate b rate \<le> tiered_rate b' rate"
    unfolding tiered_rate_def Let_def using b
    by (intro floor_mono dbl_mono divide_right_mono add_mono mult_dbl_mono r s) auto
qed

interpretation compound: interest_strategy compound_monthly
proof
  show "compound_monthly 0 rate = 0" for rate by (simp add: compound_monthly_def)
  fix rate :: rat and b b' :: int
  assume r: "0 \<le> rate" and b: "b \<le> b'"
  have "0 \<le> dbl (dbl (rate / 100) / 12)" using r by (intro dbl_nonneg divide_nonneg_nonneg) simp_all
  then have "dbl 1 \<le> dbl (1 + dbl (dbl (rate / 100) / 12))" by (intro dbl_mono) simp
  then have "0 \<le> dbl (dbl (1 + dbl (dbl (rate / 100) / 12)) - 1)" using dbl_of_int [of 1] by (intro dbl_nonneg) simp
  then show "compound_monthly b rate \<le> compound_monthly b' rate"
    unfolding compound_monthly_def Let_def by (intro floor_mono mult_dbl_mono b)
qed

lemma strategyFor_contract: "interest_strategy (snd (strategyFor ty))"
  by (cases ty) (simp_all add: no_interest.interest_strategy_axioms tiered.interest_strategy_axioms
      compound.interest_strategy_axioms)

section \<open>Visitors\<close>

record 'r account_visitor =
  visitSavings :: "account \<Rightarrow> 'r"
  visitCurrent :: "account \<Rightarrow> 'r"
  visitFixedDeposit :: "account \<Rightarrow> 'r"

definition accept :: "account \<Rightarrow> 'r account_visitor \<Rightarrow> 'r" where
  "accept a v = (case acc_type a of
     SAVINGS \<Rightarrow> visitSavings v a | CURRENT \<Rightarrow> visitCurrent v a | FIXED_DEPOSIT \<Rightarrow> visitFixedDeposit v a)"

definition MaintenanceFeeVisitor :: "int account_visitor" where
  "MaintenanceFeeVisitor = \<lparr>visitSavings = (\<lambda>a. if balanceMinor a < 1000000 then 15000 else 0),
     visitCurrent = (\<lambda>a. 50000), visitFixedDeposit = (\<lambda>a. 0)\<rparr>"

definition withholding :: "account \<Rightarrow> int \<Rightarrow> int" where
  "withholding a percent = (let m = snd (calculate_interest (acc_type a) (balanceMinor a) (annualInterestRate a)) in
     \<lfloor>dbl (dbl (of_int (m * percent)) / 100)\<rfloor>)"

definition WithholdingTaxVisitor :: "int account_visitor" where
  "WithholdingTaxVisitor = \<lparr>visitSavings = (\<lambda>a. withholding a 15), visitCurrent = (\<lambda>a. 0),
     visitFixedDeposit = (\<lambda>a. withholding a 20)\<rparr>"

datatype risk = LOW | MEDIUM | HIGH

definition RiskExposureVisitor :: "risk account_visitor" where
  "RiskExposureVisitor = \<lparr>visitSavings = (\<lambda>a. if 500000000 < balanceMinor a then MEDIUM else LOW),
     visitCurrent = (\<lambda>a. if 50000000 < dailyWithdrawalLimitMinor a then HIGH else MEDIUM),
     visitFixedDeposit = (\<lambda>a. LOW)\<rparr>"

record report_row =
  rr_accountNumber :: string
  rr_type :: AccountType
  rr_maintenanceFeeMinor :: int
  rr_withholdingTaxMinor :: int
  rr_risk :: risk

definition report_row_of :: "account \<Rightarrow> report_row" where
  "report_row_of a =
     \<lparr>rr_accountNumber = accountNumber a, rr_type = acc_type a, rr_maintenanceFeeMinor = accept a MaintenanceFeeVisitor,
      rr_withholdingTaxMinor = accept a WithholdingTaxVisitor, rr_risk = accept a RiskExposureVisitor\<rparr>"

record month_end_report =
  me_accounts :: nat
  me_totalFeesMinor :: int
  me_totalTaxMinor :: int
  me_highRisk :: nat
  me_rows :: "report_row list"

definition month_end :: "account list \<Rightarrow> month_end_report" where
  "month_end accounts = (let rows = map report_row_of accounts in
     \<lparr>me_accounts = length rows,
      me_totalFeesMinor = foldl (\<lambda>s r. s + rr_maintenanceFeeMinor r) 0 rows,
      me_totalTaxMinor = foldl (\<lambda>s r. s + rr_withholdingTaxMinor r) 0 rows,
      me_highRisk = length (filter (\<lambda>r. rr_risk r = HIGH) rows),
      me_rows = rows\<rparr>)"

lemma dbl_upper: "0 \<le> x \<Longrightarrow> dbl x \<le> x * (1 + 1 / 2 ^ 53)"
proof -
  assume "0 \<le> x"
  then have "dbl x - x \<le> x / 2 ^ 53" using dbl_error [of x] by (simp only: abs_le_iff abs_of_nonneg)
  then show ?thesis by (simp add: distrib_left)
qed

lemma tax_bounds:
  assumes "0 \<le> m" "0 \<le> p" "p \<le> 50"
  shows "0 \<le> \<lfloor>dbl (dbl (of_int (m * p)) / 100)\<rfloor>" "\<lfloor>dbl (dbl (of_int (m * p)) / 100)\<rfloor> \<le> m"
proof -
  define x where "x = (of_int (m * p) :: rat)"
  have x: "0 \<le> x" using assms by (simp add: x_def)
  have y: "0 \<le> dbl x / 100" using dbl_nonneg [OF x] by simp
  have "dbl (dbl x / 100) \<le> dbl x / 100 * (1 + 1 / 2 ^ 53)" by (rule dbl_upper [OF y])
  also have "\<dots> \<le> x * (1 + 1 / 2 ^ 53) / 100 * (1 + 1 / 2 ^ 53)"
    using dbl_upper [OF x] by (intro mult_right_mono divide_right_mono) simp_all
  also have "\<dots> \<le> x / 50" using x by (simp add: field_simps)
  also have "\<dots> \<le> of_int m"
  proof -
    have "m * p \<le> m * 50" using assms by (intro mult_left_mono)
    then have "x \<le> of_int (m * 50)" by (simp only: x_def of_int_le_iff)
    then show ?thesis by simp
  qed
  finally have up: "dbl (dbl x / 100) \<le> of_int m" .
  show "0 \<le> \<lfloor>dbl (dbl (of_int (m * p)) / 100)\<rfloor>" using dbl_nonneg [OF y] by (simp add: x_def)
  show "\<lfloor>dbl (dbl (of_int (m * p)) / 100)\<rfloor> \<le> m" using floor_mono [OF up] by (simp add: x_def)
qed

section \<open>What the strategies and visitors guarantee\<close>

lemma foldl_plus_int: "foldl (\<lambda>s r. s + f r) (z :: int) xs = z + sum_list (map f xs)"
  by (induction xs arbitrary: z) simp_all

abbreviation monthly_interest :: "account \<Rightarrow> int" where
  "monthly_interest a \<equiv> snd (calculate_interest (acc_type a) (balanceMinor a) (annualInterestRate a))"

lemma monthly_interest_nonneg: "0 \<le> annualInterestRate a \<Longrightarrow> 0 \<le> balanceMinor a \<Longrightarrow> 0 \<le> monthly_interest a"
  using interest_strategy.monthly_nonneg [OF strategyFor_contract [of "acc_type a"]]
  by (simp add: calculate_interest_def)

lemma tax_bounds_account:
  assumes "0 \<le> annualInterestRate a" "0 \<le> balanceMinor a"
  shows "0 \<le> accept a WithholdingTaxVisitor \<and> accept a WithholdingTaxVisitor \<le> monthly_interest a"
  using monthly_interest_nonneg [OF assms] tax_bounds [OF monthly_interest_nonneg [OF assms], of 15]
    tax_bounds [OF monthly_interest_nonneg [OF assms], of 20]
  by (cases "acc_type a") (simp_all add: accept_def WithholdingTaxVisitor_def withholding_def Let_def del: of_int_mult)

text \<open>
  With a rate that is not negative, every account type's monthly interest is zero on nothing,
  never negative, and a larger balance never earns less.
\<close>

theorem interest_monotone:
  assumes "0 \<le> rate" "b \<le> b'"
  shows "snd (calculate_interest ty 0 rate) = 0 \<and>
    snd (calculate_interest ty b rate) \<le> snd (calculate_interest ty b' rate) \<and>
    (if 0 \<le> b then 0 \<le> snd (calculate_interest ty b rate) else True)"
  using interest_strategy.nothing_on_nothing [OF strategyFor_contract [of ty]]
    interest_strategy.monthly_mono [OF strategyFor_contract [of ty] assms]
    interest_strategy.monthly_nonneg [OF strategyFor_contract [of ty] assms(1), of b]
  by (simp add: calculate_interest_def)

theorem interest_monotone_witness:
  "snd (calculate_interest SAVINGS 5 3) \<le> snd (calculate_interest SAVINGS 7 3)"
  using interest_monotone [of 3 5 7 SAVINGS] by simp

text \<open>
  The month-end report: the fees, the tax and the number of high-risk accounts are those of its
  rows, one row per account; the tax withheld is never negative and never more than the month's
  interest.
\<close>

theorem month_end_consistent:
  assumes "\<forall>a \<in> set accounts. 0 \<le> balanceMinor a \<and> 0 \<le> annualInterestRate a"
  shows "me_accounts (month_end accounts) = length accounts \<and>
    map rr_accountNumber (me_rows (month_end accounts)) = map accountNumber accounts \<and>
    me_totalFeesMinor (month_end accounts) = (\<Sum>a\<leftarrow>accounts. accept a MaintenanceFeeVisitor) \<and>
    me_totalTaxMinor (month_end accounts) = (\<Sum>a\<leftarrow>accounts. accept a WithholdingTaxVisitor) \<and>
    me_highRisk (month_end accounts) = length (filter (\<lambda>a. acc_type a = CURRENT \<and> 50000000 < dailyWithdrawalLimitMinor a) accounts) \<and>
    0 \<le> me_totalTaxMinor (month_end accounts) \<and>
    me_totalTaxMinor (month_end accounts) \<le> (\<Sum>a\<leftarrow>accounts. monthly_interest a)"
proof -
  have risk: "accept a RiskExposureVisitor = HIGH \<longleftrightarrow> acc_type a = CURRENT \<and> 50000000 < dailyWithdrawalLimitMinor a" for a
    by (cases "acc_type a") (simp_all add: accept_def RiskExposureVisitor_def)
  have tax: "me_totalTaxMinor (month_end accounts) = (\<Sum>a\<leftarrow>accounts. accept a WithholdingTaxVisitor)"
    by (simp add: month_end_def Let_def foldl_plus_int report_row_of_def o_def)
  have "0 \<le> (\<Sum>a\<leftarrow>accounts. accept a WithholdingTaxVisitor)"
    using assms tax_bounds_account by (intro sum_list_nonneg) auto
  moreover have "(\<Sum>a\<leftarrow>accounts. accept a WithholdingTaxVisitor) \<le> (\<Sum>a\<leftarrow>accounts. monthly_interest a)"
    using assms tax_bounds_account by (intro sum_list_mono) auto
  ultimately show ?thesis unfolding tax
    by (simp add: month_end_def Let_def foldl_plus_int report_row_of_def o_def filter_map risk)
qed

theorem month_end_consistent_witness:
  "me_accounts (month_end [sample_account ''a'' ACTIVE 50000, sample_account ''b'' ACTIVE 20000]) = 2 \<and>
   me_totalFeesMinor (month_end [sample_account ''a'' ACTIVE 50000, sample_account ''b'' ACTIVE 20000]) = 30000"
  using month_end_consistent [of "[sample_account ''a'' ACTIVE 50000, sample_account ''b'' ACTIVE 20000]"]
  by (simp add: sample_account_def accept_def MaintenanceFeeVisitor_def)

end
