(* ===== verification/Accounts.thy ===== *)
theory Accounts
  imports Products Portfolio Interest AccountState
begin

text \<open>
  \<open>AccountsService\<close> (\<open>src/src/modules/accounts/accounts.service.ts\<close>): opening an account, its
  lifecycle, and the reports over the accounts of the bank.

  The repository of accounts is an argument: \<open>account_repository\<close> holds the calls the service makes
  beyond those of the entity manager, and the locale \<open>account_store\<close> what it relies on. The state is
  the ledger's state, the pool of currencies and the heap of the product catalog. \<open>changeStatus\<close> is
  split where other transactions can run: \<open>status_read\<close> loads the account and chooses the next state,
  \<open>status_write\<close> saves the whole loaded entity.
\<close>

section \<open>The repository\<close>

text \<open>
  \<open>ar_find\<close>, \<open>ar_findSome\<close>, \<open>ar_findNewest\<close>: \<open>find\<close> with a condition, with \<open>take\<close>, and with \<open>take\<close> and
  \<open>order: { createdAt: 'DESC' }\<close>. \<open>ar_insert\<close> is \<open>save\<close> of a created entity: the database gives it an
  id, a zero balance, version 1 and a time, or rejects it (\<open>None\<close>).
\<close>

record 'db account_repository =
  ar_find :: "'db \<Rightarrow> (account \<Rightarrow> bool) \<Rightarrow> account list"
  ar_findSome :: "'db \<Rightarrow> (account \<Rightarrow> bool) \<Rightarrow> nat \<Rightarrow> account list"
  ar_findNewest :: "'db \<Rightarrow> (account \<Rightarrow> bool) \<Rightarrow> nat \<Rightarrow> account list"
  ar_insert :: "'db \<Rightarrow> blueprint \<Rightarrow> string \<Rightarrow> ('db \<times> account) option"

definition new_row :: "string \<Rightarrow> int \<Rightarrow> blueprint \<Rightarrow> string \<Rightarrow> account" where
  "new_row uuid now b number =
     \<lparr>acc_id = uuid, accountNumber = number, ownerName = bp_ownerName b, acc_type = bp_type b,
      acc_currency = bp_currency b, productCode = bp_productCode b, balanceMinor = 0,
      dailyWithdrawalLimitMinor = bp_dailyWithdrawalLimitMinor b, annualInterestRate = bp_annualInterestRate b,
      acc_status = bp_status b, acc_version = 1, acc_createdAt = now\<rparr>"

lemma new_row_simps [simp]:
  "acc_id (new_row u t b n) = u" "accountNumber (new_row u t b n) = n" "ownerName (new_row u t b n) = bp_ownerName b"
  "acc_type (new_row u t b n) = bp_type b" "acc_currency (new_row u t b n) = bp_currency b"
  "balanceMinor (new_row u t b n) = 0" "acc_status (new_row u t b n) = bp_status b"
  by (simp_all add: new_row_def)

locale account_store = entity_store M entries
  for M :: "'db entity_manager" and entries +
  fixes R :: "'db account_repository" and accounts :: "'db \<Rightarrow> account list"
  assumes find_in: "em_findAccount M db i = Some a \<Longrightarrow> a \<in> set (accounts db)"
    and repo_find: "mset (ar_find R db P) = mset (filter P (accounts db))"
    and repo_some: "\<exists>xs. mset xs = mset (filter P (accounts db)) \<and> ar_findSome R db P n = take n xs"
    and repo_newest: "\<exists>xs. mset xs = mset (filter P (accounts db)) \<and>
      sorted_wrt (\<lambda>a b. acc_createdAt b \<le> acc_createdAt a) xs \<and> ar_findNewest R db P n = take n xs"
    and repo_insert: "ar_insert R db b num = Some (db', a) \<Longrightarrow>
      (\<exists>u t. a = new_row u t b num) \<and> em_findAccount M db (acc_id a) = None \<and>
      em_findAccount M db' = (em_findAccount M db)(acc_id a := Some a) \<and>
      entries db' = entries db \<and> accounts db' = accounts db @ [a] \<and> num \<notin> accountNumber ` set (accounts db)"

definition tables_account_insert :: "tables \<Rightarrow> blueprint \<Rightarrow> string \<Rightarrow> (tables \<times> account) option" where
  "tables_account_insert db b number = (let a = new_row (dbUuids db (dbUuidCount db)) (dbNow db) b number in
     if acc_id a \<in> acc_id ` set (accountRows db) \<or> number \<in> accountNumber ` set (accountRows db) then None
     else Some (db\<lparr>accountRows := accountRows db @ [a], dbUuidCount := Suc (dbUuidCount db)\<rparr>, a))"

definition tables_repository :: "tables account_repository" where
  "tables_repository =
     \<lparr>ar_find = (\<lambda>db P. filter P (accountRows db)),
      ar_findSome = (\<lambda>db P n. take n (filter P (accountRows db))),
      ar_findNewest = (\<lambda>db P n. take n (sort_key (\<lambda>a. - acc_createdAt a) (filter P (accountRows db)))),
      ar_insert = tables_account_insert\<rparr>"

lemma tables_repository_simps [simp]:
  "ar_find tables_repository = (\<lambda>db P. filter P (accountRows db))"
  "ar_findSome tables_repository = (\<lambda>db P n. take n (filter P (accountRows db)))"
  "ar_findNewest tables_repository = (\<lambda>db P n. take n (sort_key (\<lambda>a. - acc_createdAt a) (filter P (accountRows db))))"
  "ar_insert tables_repository = tables_account_insert"
  by (simp_all add: tables_repository_def)

interpretation tas: account_store tables_manager entryRows tables_repository accountRows
proof
  fix db db' :: tables and a :: account and i n :: string and P :: "account \<Rightarrow> bool" and k :: nat and b :: blueprint
  show "em_findAccount tables_manager db i = Some a \<Longrightarrow> a \<in> set (accountRows db)"
    by (auto dest: find_row_in)
  show "mset (ar_find tables_repository db P) = mset (filter P (accountRows db))" by simp
  show "\<exists>xs. mset xs = mset (filter P (accountRows db)) \<and> ar_findSome tables_repository db P k = take k xs"
    by (intro exI [of _ "filter P (accountRows db)"]) simp
  have "sorted_wrt (\<lambda>a b. acc_createdAt b \<le> acc_createdAt a) (sort_key (\<lambda>a. - acc_createdAt a) (filter P (accountRows db)))"
    using sorted_sort_key [of "\<lambda>a. - acc_createdAt a" "filter P (accountRows db)"] by (simp add: sorted_map)
  then show "\<exists>xs. mset xs = mset (filter P (accountRows db)) \<and>
      sorted_wrt (\<lambda>a b. acc_createdAt b \<le> acc_createdAt a) xs \<and> ar_findNewest tables_repository db P k = take k xs"
    by (intro exI [of _ "sort_key (\<lambda>a. - acc_createdAt a) (filter P (accountRows db))"]) simp
  show "ar_insert tables_repository db b n = Some (db', a) \<Longrightarrow>
      (\<exists>u t. a = new_row u t b n) \<and> em_findAccount tables_manager db (acc_id a) = None \<and>
      em_findAccount tables_manager db' = (em_findAccount tables_manager db)(acc_id a := Some a) \<and>
      entryRows db' = entryRows db \<and> accountRows db' = accountRows db @ [a] \<and> n \<notin> accountNumber ` set (accountRows db)"
    by (auto simp: tables_account_insert_def Let_def find_row_append fun_eq_iff
        simp flip: find_row_None_iff split: if_splits option.splits)
qed

section \<open>The service\<close>

record 'db accounts_deps =
  ad_manager :: "'db entity_manager"
  ad_repository :: "'db account_repository"
  ad_catalog :: catalog
  ad_locale :: "rat \<Rightarrow> nat \<Rightarrow> string"

record 'db accounts_state =
  as_ledger :: "'db ledger_state"
  as_pool :: currency_pool
  as_heap :: heap

abbreviation as_db :: "'db accounts_state \<Rightarrow> 'db" where
  "as_db s \<equiv> ls_db (as_ledger s)"

record open_dto =
  od_ownerName :: string
  od_type :: AccountType
  od_currency :: string
  od_productCode :: "string option"
  od_initialDepositMinor :: "int option"

text \<open>The digits are those \<open>randomInt\<close> draws: sixteen below 10, then one number below 99.\<close>

definition newAccountNumber :: "nat list \<times> nat \<Rightarrow> string" where
  "newAccountNumber rnd = ''PK'' @ show_nat (snd rnd) @ ''NBPT'' @ concat (map show_nat (fst rnd))"

text \<open>\<open>dto.productCode ? this.catalog.get(dto.productCode) : undefined\<close>.\<close>

definition product_of :: "catalog \<Rightarrow> open_dto \<Rightarrow> heap \<Rightarrow> (err + account_product option) \<times> heap" where
  "product_of cat dto h = (case od_productCode dto of
     None \<Rightarrow> (Inr None, h)
   | Some code \<Rightarrow>
       if code = [] then (Inr None, h)
       else case catalog_get cat code h of
           (None, h') \<Rightarrow> (Inl (NotFoundError (''Unknown product '' @ code)), h')
         | (Some p, h') \<Rightarrow> (Inr (Some p), h'))"

definition opened_payload :: "account \<Rightarrow> payload" where
  "opened_payload a =
     [(''accountId'', JStr (acc_id a)), (''accountNumber'', JStr (accountNumber a)), (''ownerName'', JStr (ownerName a)),
      (''type'', JStr (type_name (acc_type a))), (''currency'', JStr (acc_currency a))]"

definition open_input_of :: "open_dto \<Rightarrow> account_product option \<Rightarrow> open_input" where
  "open_input_of dto product =
     \<lparr>oi_ownerName = od_ownerName dto, oi_currency = od_currency dto,
      oi_initialDepositMinor = (case od_initialDepositMinor dto of None \<Rightarrow> 0 | Some n \<Rightarrow> n), oi_product = product\<rparr>"

definition insert_violation :: err where
  "insert_violation = PlainError ''duplicate key value violates unique constraint''"

definition open_account ::
  "'db accounts_deps \<Rightarrow> env \<Rightarrow> nat list \<times> nat \<Rightarrow> open_dto \<Rightarrow> 'db accounts_state \<Rightarrow> (err + account) \<times> 'db accounts_state" where
  "open_account d e rnd dto s =
     (if \<not> isSupported (od_currency dto)
      then (Inl (DomainError BusinessRule (''Currency '' @ od_currency dto @ '' is not supported'')
              (Some [(''supported'', DList supportedCodes)])), s)
      else let (product, h) = product_of (ad_catalog d) dto (as_heap s); s1 = s\<lparr>as_heap := h\<rparr> in
        case ebind product (\<lambda>p. open_blueprint (od_type dto) (open_input_of dto p)) of
          Inl x \<Rightarrow> (Inl x, s1)
        | Inr blueprint \<Rightarrow>
            (case ar_insert (ad_repository d) (as_db s) blueprint (newAccountNumber rnd) of
               None \<Rightarrow> (Inl insert_violation, s1)
             | Some (db', account) \<Rightarrow>
                 (Inr account, s1\<lparr>as_ledger := emit e 0 ACCOUNT_OPENED (opened_payload account) ((as_ledger s)\<lparr>ls_db := db'\<rparr>)\<rparr>)))"

definition findById :: "'db entity_manager \<Rightarrow> 'db \<Rightarrow> string \<Rightarrow> err + account" where
  "findById M db i = (case em_findAccount M db i of
     None \<Rightarrow> Inl (NotFoundError (''Account '' @ i @ '' not found'')) | Some a \<Rightarrow> Inr a)"

definition list_accounts :: "'db account_repository \<Rightarrow> 'db \<Rightarrow> string option \<Rightarrow> account list" where
  "list_accounts R db owner =
     ar_findNewest R db (\<lambda>a. case owner of None \<Rightarrow> True | Some n \<Rightarrow> n = [] \<or> ownerName a = n) 100"

definition status_read :: "'db entity_manager \<Rightarrow> string \<Rightarrow> account_action \<Rightarrow> 'db \<Rightarrow> err + (account \<times> AccountStatus)" where
  "status_read M i action db =
     ebind (findById M db i) (\<lambda>a. ebind (next_state action (acc_status a) (balanceMinor a)) (\<lambda>next. Inr (a, next)))"

definition status_payload :: "string \<Rightarrow> AccountStatus \<Rightarrow> AccountStatus \<Rightarrow> payload" where
  "status_payload i from to =
     [(''accountId'', JStr i), (''from'', JStr (status_name from)), (''to'', JStr (status_name to))]"

definition status_write ::
  "'db entity_manager \<Rightarrow> env \<Rightarrow> string \<Rightarrow> account \<times> AccountStatus \<Rightarrow> 'db ledger_state \<Rightarrow> (err + account) \<times> 'db ledger_state" where
  "status_write M e i loaded st = (case loaded of (account, next) \<Rightarrow>
     case em_saveAccount M (ls_db st) (account\<lparr>acc_status := next\<rparr>) of
       None \<Rightarrow> (Inl check_violation, st)
     | Some (db', saved) \<Rightarrow>
         (Inr saved, emit e 0 ACCOUNT_STATUS_CHANGED (status_payload i (acc_status account) next) (st\<lparr>ls_db := db'\<rparr>)))"

definition changeStatus ::
  "'db entity_manager \<Rightarrow> env \<Rightarrow> string \<Rightarrow> account_action \<Rightarrow> 'db ledger_state \<Rightarrow> (err + account) \<times> 'db ledger_state" where
  "changeStatus M e i action st = (case status_read M i action (ls_db st) of
     Inl x \<Rightarrow> (Inl x, st) | Inr loaded \<Rightarrow> status_write M e i loaded st)"

section \<open>Portfolio, previews and reports\<close>

definition in_portfolio :: "string \<Rightarrow> account \<Rightarrow> bool" where
  "in_portfolio owner a \<longleftrightarrow> ownerName a = owner \<and> acc_status a \<in> {ACTIVE, FROZEN, PENDING}"

definition portfolio_tree :: "string \<Rightarrow> account list \<Rightarrow> portfolio_component" where
  "portfolio_tree owner accounts = (let
     leaves_of = (\<lambda>P. map AccountLeaf (filter P accounts));
     everyday = group_add (leaves_of (\<lambda>a. acc_type a = CURRENT)) (PortfolioGroup ''Everyday banking'' []);
     savings = group_add (leaves_of (\<lambda>a. acc_type a = SAVINGS)) (PortfolioGroup ''Savings'' []);
     investments = group_add (leaves_of (\<lambda>a. acc_type a \<noteq> CURRENT \<and> acc_type a \<noteq> SAVINGS)) (PortfolioGroup ''Investments'' []);
     wealth = group_add [savings, investments] (PortfolioGroup ''Wealth'' [])
   in group_add [everyday, wealth] (PortfolioGroup (owner @ '' - total relationship'') []))"

fun format_totals ::
  "(rat \<Rightarrow> nat \<Rightarrow> string) \<Rightarrow> (string \<times> int) list \<Rightarrow> currency_pool \<Rightarrow> (err + string list) \<times> currency_pool" where
  "format_totals loc [] pool = (Inr [], pool)"
| "format_totals loc ((code, minor) # rest) pool =
     (case registry_get code pool of
        (Inl x, pool1) \<Rightarrow> (Inl x, pool1)
      | (Inr c, pool1) \<Rightarrow>
          (case format_totals loc rest pool1 of (r, pool2) \<Rightarrow>
             (ebind r (\<lambda>fs. Inr (currency_format loc c minor # fs)), pool2)))"

definition portfolio ::
  "'db accounts_deps \<Rightarrow> string \<Rightarrow> 'db accounts_state \<Rightarrow> (err + (portfolio_json \<times> string list)) \<times> 'db accounts_state" where
  "portfolio d owner s = (let accounts = ar_find (ad_repository d) (as_db s) (in_portfolio owner) in
     if accounts = [] then (Inl (NotFoundError (''No accounts for '' @ owner)), s)
     else let root = portfolio_tree owner accounts;
              (r, pool') = format_totals (ad_locale d) (totals root) (as_pool s)
          in (ebind r (\<lambda>formatted. Inr (component_json root, formatted)), s\<lparr>as_pool := pool'\<rparr>))"

record interest_preview =
  ip_accountId :: string
  ip_type :: AccountType
  ip_strategy :: string
  ip_annualRate :: rat
  ip_monthlyInterestMinor :: int
  ip_formatted :: string

definition interestPreview ::
  "'db accounts_deps \<Rightarrow> string \<Rightarrow> 'db accounts_state \<Rightarrow> (err + interest_preview) \<times> 'db accounts_state" where
  "interestPreview d i s = (case findById (ad_manager d) (as_db s) i of
     Inl x \<Rightarrow> (Inl x, s)
   | Inr a \<Rightarrow> (let
        (strategy, monthly) = calculate_interest (acc_type a) (balanceMinor a) (annualInterestRate a);
        (c, pool') = registry_get (acc_currency a) (as_pool s)
      in (ebind c (\<lambda>currency. Inr
            \<lparr>ip_accountId = i, ip_type = acc_type a, ip_strategy = strategy, ip_annualRate = annualInterestRate a,
             ip_monthlyInterestMinor = monthly, ip_formatted = currency_format (ad_locale d) currency monthly\<rparr>),
          s\<lparr>as_pool := pool'\<rparr>)))"

definition monthEndReport :: "'db account_repository \<Rightarrow> 'db \<Rightarrow> month_end_report" where
  "monthEndReport R db = month_end (ar_findSome R db (\<lambda>a. acc_status a \<in> {ACTIVE, FROZEN}) 1000)"

definition products :: "'db accounts_deps \<Rightarrow> 'db accounts_state \<Rightarrow> account_product list \<times> 'db accounts_state" where
  "products d s = (let (ps, h) = catalog_list (ad_catalog d) (as_heap s) in (ps, s\<lparr>as_heap := h\<rparr>))"

record presented_account =
  pa_account :: account
  pa_balanceFormatted :: string
  pa_dailyLimitFormatted :: string

definition present ::
  "'db accounts_deps \<Rightarrow> account \<Rightarrow> 'db accounts_state \<Rightarrow> (err + presented_account) \<times> 'db accounts_state" where
  "present d a s = (let (c, pool') = registry_get (acc_currency a) (as_pool s) in
     (ebind c (\<lambda>currency. Inr
        \<lparr>pa_account = a, pa_balanceFormatted = currency_format (ad_locale d) currency (balanceMinor a),
         pa_dailyLimitFormatted = currency_format (ad_locale d) currency (dailyWithdrawalLimitMinor a)\<rparr>),
      s\<lparr>as_pool := pool'\<rparr>))"

definition currencyStats :: "currency_pool \<Rightarrow> string list \<times> nat" where
  "currencyStats pool = (supportedCodes, sharedInstanceCount pool)"

section \<open>What the service guarantees\<close>

lemma emit_simps [simp]: "ls_db (emit e i t p st) = ls_db st" "ls_refs (emit e i t p st) = ls_refs st"
  "ls_bus (emit e i t p st) = app_publish (createEvent e i t p) (ls_bus st)"
  by (simp_all add: emit_def)

lemma ledger_inv_sum:
  assumes "ledger_inv M entries db" "em_findAccount M db i = Some a"
  shows "sum_list (map entry_amountMinor (entries_for i (entries db))) = balanceMinor a"
proof -
  have "trail_ok 0 (entries_for i (entries db)) (balanceMinor a)" using assms by (simp add: ledger_inv_def)
  from trail_ok_sum [OF this] show ?thesis by simp
qed

lemma findById_ok [result_simps]: "findById M db i = Inr a \<longleftrightarrow> em_findAccount M db i = Some a"
  by (simp add: findById_def split: option.splits)

lemma open_account_ok:
  assumes "open_account d e rnd dto s = (Inr a, s')"
  obtains p h b db' where "isSupported (od_currency dto)" "product_of (ad_catalog d) dto (as_heap s) = (Inr p, h)"
    "open_blueprint (od_type dto) (open_input_of dto p) = Inr b"
    "ar_insert (ad_repository d) (as_db s) b (newAccountNumber rnd) = Some (db', a)"
    "s' = s\<lparr>as_heap := h, as_ledger := emit e 0 ACCOUNT_OPENED (opened_payload a) ((as_ledger s)\<lparr>ls_db := db'\<rparr>)\<rparr>"
  using assms
  by (cases "product_of (ad_catalog d) dto (as_heap s)"; cases "fst (product_of (ad_catalog d) dto (as_heap s))")
    (auto simp: open_account_def Let_def split: if_splits sum.splits option.splits)

lemma open_account_error: "open_account d e rnd dto s = (Inl x, s') \<Longrightarrow> as_ledger s' = as_ledger s"
  by (auto simp: open_account_def Let_def split: if_splits sum.splits option.splits prod.splits)

context account_store
begin

lemma insert_inv:
  assumes "ledger_inv M entries db" "ar_insert R db b num = Some (db', a)"
  shows "ledger_inv M entries db'"
proof -
  note i = repo_insert [OF assms(2)]
  then obtain u t where a: "a = new_row u t b num" by blast
  have "entries_for (acc_id a) (entries db) = []"
    using assms(1) i by (force simp: ledger_inv_def entries_for_def filter_empty_conv)
  then show ?thesis
    using assms(1) i a by (auto simp: ledger_inv_def)
qed

lemma status_write_db:
  assumes "em_findAccount M (ls_db st) (acc_id a) = Some cur" "status_write M e i (a, nxt) st = (Inr saved, st')"
  shows "saved = a\<lparr>acc_status := nxt, acc_version := Suc (acc_version cur)\<rparr> \<and> 0 \<le> balanceMinor a \<and>
    entries (ls_db st') = entries (ls_db st) \<and>
    em_findAccount M (ls_db st') = (em_findAccount M (ls_db st))(acc_id a := Some saved)"
  using assms save_Some [of "ls_db st" "a\<lparr>acc_status := nxt\<rparr>"]
  by (auto simp: status_write_def split: option.splits)

lemma changeStatus_ok:
  assumes "changeStatus M e i action st = (Inr saved, st')"
  obtains a nxt where "em_findAccount M (ls_db st) i = Some a" "lifecycle (acc_status a) action (balanceMinor a) nxt"
    "saved = a\<lparr>acc_status := nxt, acc_version := Suc (acc_version a)\<rparr>"
    "entries (ls_db st') = entries (ls_db st)"
    "em_findAccount M (ls_db st') = (em_findAccount M (ls_db st))(i := Some saved)"
proof -
  obtain a nxt where r: "status_read M i action (ls_db st) = Inr (a, nxt)" and w: "status_write M e i (a, nxt) st = (Inr saved, st')"
    using assms by (auto simp: changeStatus_def split: sum.splits)
  have a: "em_findAccount M (ls_db st) i = Some a" "lifecycle (acc_status a) action (balanceMinor a) nxt"
    using r by (auto simp: status_read_def result_simps simp flip: next_state_lifecycle)
  with find_key [OF a(1)] status_write_db [OF _ w, of a] show thesis by (intro that [of a nxt]) simp_all
qed

lemma changeStatus_inv:
  assumes "ledger_inv M entries (ls_db st)"
  shows "ledger_inv M entries (ls_db (snd (changeStatus M e i action st)))"
proof (cases "fst (changeStatus M e i action st)")
  case (Inl x)
  then show ?thesis using assms by (auto simp: changeStatus_def status_write_def split: sum.splits option.splits prod.splits)
next
  case (Inr saved)
  then have "changeStatus M e i action st = (Inr saved, snd (changeStatus M e i action st))" by (simp add: prod_eq_iff)
  from changeStatus_ok [OF this] obtain a nxt where
    "em_findAccount M (ls_db st) i = Some a" "saved = a\<lparr>acc_status := nxt, acc_version := Suc (acc_version a)\<rparr>"
    "entries (ls_db (snd (changeStatus M e i action st))) = entries (ls_db st)"
    "em_findAccount M (ls_db (snd (changeStatus M e i action st))) = (em_findAccount M (ls_db st))(i := Some saved)" .
  with assms show ?thesis by (auto simp: ledger_inv_def)
qed

lemma changeStatus_succeeds_iff:
  assumes "ledger_inv M entries (ls_db st)"
  shows "is_ok (fst (changeStatus M e i action st)) \<longleftrightarrow>
    (\<exists>a nxt. em_findAccount M (ls_db st) i = Some a \<and> lifecycle (acc_status a) action (balanceMinor a) nxt)"
    (is "?l \<longleftrightarrow> ?r")
proof
  assume ?l
  then obtain saved where "changeStatus M e i action st = (Inr saved, snd (changeStatus M e i action st))"
    by (cases "fst (changeStatus M e i action st)") (auto simp: prod_eq_iff)
  then show ?r by (blast elim: changeStatus_ok)
next
  assume ?r
  then obtain a nxt where a: "em_findAccount M (ls_db st) i = Some a" "next_state action (acc_status a) (balanceMinor a) = Inr nxt"
    by (auto simp flip: next_state_lifecycle)
  then have "0 \<le> balanceMinor a" using assms by (simp add: ledger_inv_def)
  with save_None [of "ls_db st" "a\<lparr>acc_status := nxt\<rparr>"] a show ?l
    by (cases "em_saveAccount M (ls_db st) (a\<lparr>acc_status := nxt\<rparr>)")
      (auto simp: changeStatus_def status_read_def status_write_def findById_def)
qed

end

lemma opening_account:
  assumes "account_store M entries R accounts" "ad_repository d = R"
    and "ledger_inv M entries (as_db s)" "open_account d e rnd dto s = (Inr a, s')"
  shows "em_findAccount M (as_db s) (acc_id a) = None \<and> accountNumber a \<notin> accountNumber ` set (accounts (as_db s)) \<and>
    em_findAccount M (as_db s') = (em_findAccount M (as_db s))(acc_id a := Some a) \<and>
    acc_status a = PENDING \<and> balanceMinor a = 0 \<and> acc_type a = od_type dto \<and>
    acc_currency a = toUpperCase (od_currency dto) \<and> isSupported (od_currency dto) \<and>
    ownerName a = js_trim (od_ownerName dto) \<and>
    entries (as_db s') = entries (as_db s) \<and> ledger_inv M entries (as_db s') \<and>
    ls_bus (as_ledger s') = app_publish (createEvent e 0 ACCOUNT_OPENED (opened_payload a)) (ls_bus (as_ledger s))"
proof -
  obtain p h b db' where o: "isSupported (od_currency dto)" "product_of (ad_catalog d) dto (as_heap s) = (Inr p, h)"
    "open_blueprint (od_type dto) (open_input_of dto p) = Inr b"
    "ar_insert R (as_db s) b (newAccountNumber rnd) = Some (db', a)"
    "s' = s\<lparr>as_heap := h, as_ledger := emit e 0 ACCOUNT_OPENED (opened_payload a) ((as_ledger s)\<lparr>ls_db := db'\<rparr>)\<rparr>"
    using open_account_ok [OF assms(4)] assms(2) by metis
  have b: "bp_type b = od_type dto" "bp_status b = PENDING" "bp_ownerName b = js_trim (od_ownerName dto)"
    "bp_currency b = toUpperCase (od_currency dto)"
    using o(3) by (auto simp: open_blueprint_def result_simps with_product_ok assign_product_def open_input_of_def
        split: option.splits)
  note i = account_store.repo_insert [OF assms(1) o(4)]
  then obtain u t where a: "a = new_row u t b (newAccountNumber rnd)" by blast
  have db: "as_db s' = db'" by (simp add: o(5))
  from account_store.insert_inv [OF assms(1,3) o(4)] have inv: "ledger_inv M entries (as_db s')" by (simp only: db)
  have bus: "ls_bus (as_ledger s') = app_publish (createEvent e 0 ACCOUNT_OPENED (opened_payload a)) (ls_bus (as_ledger s))"
    by (simp add: o(5))
  show ?thesis using i a b o(1) inv bus unfolding db by simp
qed

text \<open>
  An account that is opened is new (fresh id, unused number), pending and empty, of the requested
  type, in a supported currency, with the terms of its product or type; no other account and no ledger
  entry changes, the books stay balanced, and exactly one event is published.
\<close>

theorem account_opened:
  assumes "account_store M entries R accounts" "ad_repository d = R"
    and "ledger_inv M entries (as_db s)" "open_account d e rnd dto s = (Inr a, s')"
  shows "em_findAccount M (as_db s) (acc_id a) = None \<and> accountNumber a \<notin> accountNumber ` set (accounts (as_db s)) \<and>
    em_findAccount M (as_db s') = (em_findAccount M (as_db s))(acc_id a := Some a) \<and>
    acc_status a = PENDING \<and> balanceMinor a = 0 \<and> acc_type a = od_type dto \<and>
    acc_currency a = toUpperCase (od_currency dto) \<and> isSupported (od_currency dto) \<and>
    ownerName a = js_trim (od_ownerName dto) \<and>
    entries (as_db s') = entries (as_db s) \<and> ledger_inv M entries (as_db s') \<and>
    ls_bus (as_ledger s') = app_publish (createEvent e 0 ACCOUNT_OPENED (opened_payload a)) (ls_bus (as_ledger s))"
  using assms by (rule opening_account)

definition sample_deps :: "tables accounts_deps" where
  "sample_deps = \<lparr>ad_manager = tables_manager, ad_repository = tables_repository, ad_catalog = sample_catalog,
     ad_locale = (\<lambda>x k. toFixed k x)\<rparr>"

definition sample_accounts :: "tables accounts_state" where
  "sample_accounts = \<lparr>as_ledger = sample_state, as_pool = [], as_heap = sample_heap\<rparr>"

definition sample_dto :: open_dto where
  "sample_dto = \<lparr>od_ownerName = '' Bilal '', od_type = CURRENT, od_currency = ''pkr'', od_productCode = None,
     od_initialDepositMinor = Some 5000\<rparr>"

lemma tables_account_store: "account_store tables_manager entryRows tables_repository accountRows"
  by (rule tas.account_store_axioms)

lemma sample_isSupported [simp]: "isSupported ''pkr''" "isSupported ''PKR''"
  by code_simp+

lemma sample_open:
  obtains a s' where "open_account sample_deps sample_env (replicate 16 7, 42) sample_dto sample_accounts = (Inr a, s')"
proof -
  have "open_blueprint CURRENT (open_input_of sample_dto None) = Inr (createBlueprint CURRENT (open_input_of sample_dto None))"
    by (simp add: open_blueprint_def with_product_def open_input_of_def sample_dto_def base_blueprint_def)
  moreover have "tables_account_insert sample_db (createBlueprint CURRENT (open_input_of sample_dto None))
      (newAccountNumber (replicate 16 7, 42)) \<noteq> None"
    by (simp add: tables_account_insert_def Let_def sample_defs newAccountNumber_def show_nat.simps)
  ultimately have "is_ok (fst (open_account sample_deps sample_env (replicate 16 7, 42) sample_dto sample_accounts))"
    by (auto simp: open_account_def sample_deps_def sample_accounts_def sample_dto_def product_of_def)
  then show thesis
    using that by (cases "open_account sample_deps sample_env (replicate 16 7, 42) sample_dto sample_accounts";
        cases "fst (open_account sample_deps sample_env (replicate 16 7, 42) sample_dto sample_accounts)") auto
qed

theorem account_opened_witness:
  "\<exists>a s'. open_account sample_deps sample_env (replicate 16 7, 42) sample_dto sample_accounts = (Inr a, s') \<and>
     acc_status a = PENDING \<and> balanceMinor a = 0 \<and> acc_type a = CURRENT \<and> ledger_inv tables_manager entryRows (as_db s')"
proof -
  obtain a s' where o: "open_account sample_deps sample_env (replicate 16 7, 42) sample_dto sample_accounts = (Inr a, s')"
    by (rule sample_open)
  have "ad_repository sample_deps = tables_repository" by (simp add: sample_deps_def)
  moreover have "ledger_inv tables_manager entryRows (as_db sample_accounts)"
    using sample_inv by (simp add: sample_accounts_def)
  ultimately show ?thesis
    using account_opened [OF tables_account_store _ _ o] o by (auto simp: sample_dto_def)
qed



text \<open>
  C33: a change of status can lose money. \<open>changeStatus\<close> loads the account without a lock and saves the
  whole entity; the version column is never compared. A deposit that commits between the two is
  overwritten: its ledger entry stays, the balance goes back, and the books no longer add up.
\<close>

theorem status_change_loses_deposit:
  assumes "account_store M entries R accounts" "ledger_inv M entries (ls_db st)"
    and "status_read M i action (ls_db st) = Inr loaded"
    and "deposit M e i amount options st = (Inr r, st')"
    and "status_write M e' i loaded st' = (Inr saved, st'')"
  shows "em_findAccount M (ls_db st'') i = Some saved \<and> balanceMinor saved = balanceMinor (fst loaded) \<and>
    sum_list (map entry_amountMinor (entries_for i (entries (ls_db st'')))) = balanceMinor saved + amount \<and>
    \<not> ledger_inv M entries (ls_db st'')"
proof -
  have es: "entity_store M entries" using assms(1) by (simp add: account_store_def)
  obtain a nxt where l: "loaded = (a, nxt)" "em_findAccount M (ls_db st) i = Some a"
    using assms(3) by (auto simp: status_read_def result_simps)
  have i: "acc_id a = i" by (rule entity_store.find_key [OF es l(2)])
  obtain b p where d: "deposit_ok amount b" "applies M entries [p] (ls_db st) (ls_db st')" "pg_accountId p = i" "pg_amountMinor p = amount"
    by (rule entity_store.deposit_ok_spec [OF es assms(4)]) (rule that, assumption+, simp_all)
  then have n: "net i [p] = amount" and pos: "0 < amount" by (simp_all add: deposit_ok_def)
  obtain a' where a': "em_findAccount M (ls_db st') i = Some a'" "balanceMinor a' = balanceMinor a + amount"
    using applies_account [OF d(2) l(2)] n by auto
  have inv: "ledger_inv M entries (ls_db st')" by (rule applies_inv [OF d(2) assms(2)])
  have w: "balanceMinor saved = balanceMinor a" "em_findAccount M (ls_db st'') i = Some saved" "entries (ls_db st'') = entries (ls_db st')"
    using account_store.status_write_db [OF assms(1) _ assms(5) [unfolded l(1)], of a'] a'(1) i by simp_all
  have sum: "sum_list (map entry_amountMinor (entries_for i (entries (ls_db st'')))) = balanceMinor a + amount"
    using ledger_inv_sum [OF inv a'(1)] a'(2) w(3) by simp
  moreover have "\<not> ledger_inv M entries (ls_db st'')"
    using sum w(1) pos ledger_inv_sum [OF _ w(2)] by auto
  ultimately show ?thesis using w l(1) by simp
qed

theorem status_change_loses_deposit_witness:
  "\<exists>st' st'' saved r.
     deposit tables_manager sample_env ''a'' 700 \<lparr>po_description = None, po_type = None\<rparr> sample_state = (Inr r, st') \<and>
     status_write tables_manager sample_env ''a'' (sample_account ''a'' ACTIVE 50000, FROZEN) st' = (Inr saved, st'') \<and>
     balanceMinor saved = 50000 \<and> \<not> ledger_inv tables_manager entryRows (ls_db st'')"
proof -
  have inv: "ledger_inv tables_manager entryRows (ls_db sample_state)" using sample_inv by simp
  have rd: "status_read tables_manager ''a'' Freeze (ls_db sample_state) = Inr (sample_account ''a'' ACTIVE 50000, FROZEN)"
    by (simp add: status_read_def findById_def)
  have "is_ok (fst (deposit tables_manager sample_env ''a'' 700 \<lparr>po_description = None, po_type = None\<rparr> sample_state))"
    by (rule tdb.deposit_succeeds [of _ _ "sample_account ''a'' ACTIVE 50000"]) (simp_all add: deposit_ok_def)
  then obtain r st' where d: "deposit tables_manager sample_env ''a'' 700 \<lparr>po_description = None, po_type = None\<rparr> sample_state = (Inr r, st')"
    by (cases "deposit tables_manager sample_env ''a'' 700 \<lparr>po_description = None, po_type = None\<rparr> sample_state";
        cases "fst (deposit tables_manager sample_env ''a'' 700 \<lparr>po_description = None, po_type = None\<rparr> sample_state)") auto
  obtain saved st'' where w: "status_write tables_manager sample_env ''a'' (sample_account ''a'' ACTIVE 50000, FROZEN) st' = (Inr saved, st'')"
    by (auto simp: status_write_def tables_save_def Let_def sample_account_def)
  show ?thesis
    using status_change_loses_deposit [OF tables_account_store inv rd d w] d w by auto
qed

text \<open>
  The month-end report covers at most 1000 accounts, whatever the size of the bank: exactly
  \<open>min 1000 n\<close> of the \<open>n\<close> active or frozen ones.
\<close>

theorem month_end_capped:
  assumes "account_store M entries R accounts"
  shows "me_accounts (monthEndReport R db) =
    min 1000 (length (filter (\<lambda>a. acc_status a \<in> {ACTIVE, FROZEN}) (accounts db)))"
proof -
  obtain xs where xs: "mset xs = mset (filter (\<lambda>a. acc_status a \<in> {ACTIVE, FROZEN}) (accounts db))"
    "ar_findSome R db (\<lambda>a. acc_status a \<in> {ACTIVE, FROZEN}) 1000 = take 1000 xs"
    using account_store.repo_some [OF assms] by blast
  have "length xs = length (filter (\<lambda>a. acc_status a \<in> {ACTIVE, FROZEN}) (accounts db))"
    using mset_eq_length [OF xs(1)] .
  with xs(2) show ?thesis by (simp add: monthEndReport_def month_end_def Let_def min.commute)
qed

theorem month_end_capped_witness:
  "me_accounts (monthEndReport tables_repository sample_db) = 2"
  using month_end_capped [OF tables_account_store, of sample_db] by (simp add: sample_defs)

text \<open>
  The event of a successful opening satisfies its contract exactly when the trimmed owner name is
  not empty. The request's check of the length sees the name before it is trimmed, so a name of
  spaces opens an account whose event no consumer accepts.
\<close>

theorem opened_event_valid_iff:
  assumes "account_store M entries R accounts" "ad_repository d = R" "ledger_inv M entries (as_db s)"
    and "open_account d e rnd dto s = (Inr a, s')" "joi_uuid j (acc_id a)"
  shows "schema_ok j (payloadSchema ACCOUNT_OPENED) (opened_payload a) \<longleftrightarrow> js_trim (od_ownerName dto) \<noteq> []"
proof -
  note o = opening_account [OF assms(1-4)]
  obtain p h b db' where ins: "ar_insert R (as_db s) b (newAccountNumber rnd) = Some (db', a)"
    using open_account_ok [OF assms(4)] assms(2) by metis
  from account_store.repo_insert [OF assms(1) ins] have num: "accountNumber a \<noteq> []"
    by (auto simp: newAccountNumber_def)
  have "length (toUpperCase (od_currency dto)) = 3"
    using o by (auto simp: isSupported_def KNOWN_CURRENCIES_def)
  moreover have "type_name (acc_type a) \<noteq> []" by (cases "acc_type a") simp_all
  ultimately show ?thesis
    using o num assms(5) by (auto simp: schema_ok_def opened_payload_def)
qed

theorem opened_event_valid_iff_witness:
  "\<exists>a s'. open_account sample_deps sample_env (replicate 16 7, 42) sample_dto sample_accounts = (Inr a, s') \<and>
     schema_ok \<lparr>joi_uuid = (\<lambda>_. True), joi_isoDate = (\<lambda>_. True), joi_castNumber = (\<lambda>_. None)\<rparr>
       (payloadSchema ACCOUNT_OPENED) (opened_payload a)"
proof -
  obtain a s' where o: "open_account sample_deps sample_env (replicate 16 7, 42) sample_dto sample_accounts = (Inr a, s')"
    by (rule sample_open)
  have "ad_repository sample_deps = tables_repository" by (simp add: sample_deps_def)
  moreover have "ledger_inv tables_manager entryRows (as_db sample_accounts)"
    using sample_inv by (simp add: sample_accounts_def)
  moreover have "js_trim (od_ownerName sample_dto) \<noteq> []" by (simp add: sample_dto_def js_trim_def is_space_def)
  ultimately show ?thesis
    using opened_event_valid_iff [OF tables_account_store _ _ o] o by auto
qed

end
