(* ===== verification/Facade.thy ===== *)
theory Facade
  imports Accounts History
begin

text \<open>
  \<open>BankingFacade\<close> (\<open>src/src/modules/banking/banking.facade.ts\<close>): onboarding a customer and the
  customer overview.

  Onboarding is a sequence of calls on the accounts service and the ledger, each in its own database
  transaction; \<open>es k\<close> is what the \<open>k\<close>-th of them reads from its environment. \<open>compensate\<close> is the
  \<open>catch\<close> block. \<open>bank_step\<close> collects the operations that change the books, and \<open>bank_run\<close> any
  sequence of them.
\<close>

record onboard_input =
  oc_ownerName :: string
  oc_type :: AccountType
  oc_currency :: string
  oc_initialDepositMinor :: int
  oc_productCode :: "string option"

record onboard_result =
  or_account :: presented_account
  or_initialDepositReference :: "string option"
  or_nextSteps :: "string list"

definition onboard_dto :: "onboard_input \<Rightarrow> open_dto" where
  "onboard_dto inp =
     \<lparr>od_ownerName = oc_ownerName inp, od_type = oc_type inp, od_currency = oc_currency inp,
      od_productCode = oc_productCode inp, od_initialDepositMinor = Some (oc_initialDepositMinor inp)\<rparr>"

definition next_steps :: "string list" where
  "next_steps = [''Download the mobile app'', ''Set up RAAST ID'', ''Order a debit card'']"

definition initial_deposit ::
  "'db entity_manager \<Rightarrow> env \<Rightarrow> string \<Rightarrow> int \<Rightarrow> 'db ledger_state \<Rightarrow> (err + string option) \<times> 'db ledger_state" where
  "initial_deposit M e i amount st =
     (if 0 < amount
      then case deposit M e i amount \<lparr>po_description = Some ''Initial deposit'', po_type = None\<rparr> st of
          (r, st') \<Rightarrow> (ebind r (\<lambda>p. Inr (Some (pr_reference p))), st')
      else (Inr None, st))"

text \<open>
  The compensation: reverse the deposit if there is one (an error of the reversal replaces the
  original one), close the account ignoring errors, and throw the original error again.
\<close>

definition compensate ::
  "'db entity_manager \<Rightarrow> env \<Rightarrow> env \<Rightarrow> string \<Rightarrow> string option \<Rightarrow> err \<Rightarrow> 'db ledger_state \<Rightarrow> err \<times> 'db ledger_state" where
  "compensate M e1 e2 i ref x st =
     (case (if ref = None \<or> ref = Some [] then (Inr None, st)
            else case reverse M e1 (the ref) st of (r, st') \<Rightarrow> (ebind r (\<lambda>y. Inr (Some y)), st')) of
        (Inl y, st1) \<Rightarrow> (y, st1)
      | (Inr _, st1) \<Rightarrow> (x, snd (changeStatus M e2 i Close st1)))"

definition onboarded_payload :: "account \<Rightarrow> int \<Rightarrow> payload" where
  "onboarded_payload a amount =
     [(''accountId'', JStr (acc_id a)), (''ownerName'', JStr (ownerName a)), (''initialDepositMinor'', JNum amount)]"

definition onboardCustomer ::
  "'db accounts_deps \<Rightarrow> (nat \<Rightarrow> env) \<Rightarrow> nat list \<times> nat \<Rightarrow> onboard_input \<Rightarrow> 'db accounts_state \<Rightarrow>
     (err + onboard_result) \<times> 'db accounts_state" where
  "onboardCustomer d es rnd inp s = (let M = ad_manager d in
     case open_account d (es 0) rnd (onboard_dto inp) s of
       (Inl x, s1) \<Rightarrow> (Inl x, s1)
     | (Inr account, s1) \<Rightarrow>
         (case initial_deposit M (es 1) (acc_id account) (oc_initialDepositMinor inp) (as_ledger s1) of
            (Inl x, l) \<Rightarrow>
              (case compensate M (es 3) (es 4) (acc_id account) None x l of (y, l') \<Rightarrow> (Inl y, s1\<lparr>as_ledger := l'\<rparr>))
          | (Inr ref, l) \<Rightarrow>
              (case changeStatus M (es 2) (acc_id account) Activate l of
                 (Inl x, l1) \<Rightarrow>
                   (case compensate M (es 3) (es 4) (acc_id account) ref x l1 of (y, l') \<Rightarrow> (Inl y, s1\<lparr>as_ledger := l'\<rparr>))
               | (Inr _, l1) \<Rightarrow>
                   (let l2 = emit (es 5) 0 CUSTOMER_ONBOARDED (onboarded_payload account (oc_initialDepositMinor inp)) l1;
                        s2 = s1\<lparr>as_ledger := l2\<rparr>
                    in case findById M (ls_db l2) (acc_id account) of
                         Inl x \<Rightarrow> (Inl x, s2)
                       | Inr fresh \<Rightarrow>
                           (case present d fresh s2 of (shown, s3) \<Rightarrow>
                              (ebind shown (\<lambda>p. Inr \<lparr>or_account = p, or_initialDepositReference = ref,
                                 or_nextSteps = next_steps\<rparr>), s3))))))"

record overview =
  cv_portfolio :: "portfolio_json \<times> string list"
  cv_recentActivity :: "(string \<times> ledger_entry list) list"

definition customerOverview ::
  "'db accounts_deps \<Rightarrow> string \<Rightarrow> 'db accounts_state \<Rightarrow> (err + overview) \<times> 'db accounts_state" where
  "customerOverview d owner s = (let M = ad_manager d in
     case portfolio d owner s of (r, s1) \<Rightarrow>
       (ebind r (\<lambda>p. Inr
          \<lparr>cv_portfolio = p,
           cv_recentActivity = map (\<lambda>a. (accountNumber a,
               recent (em_findEntries M (as_db s) (\<lambda>x. entry_accountId x = acc_id a)) (acc_id a) 5))
             (list_accounts (ad_repository d) (as_db s) (Some owner))\<rparr>), s1))"

section \<open>Onboarding\<close>

lemma upper_char_idem [simp]: "upper_char (upper_char c) = upper_char c"
proof -
  let ?n = "of_char c :: nat"
  have "(of_char (char_of (?n - 32) :: char) :: nat) = ?n - 32" if "97 \<le> ?n" "?n \<le> 122"
    using that by (simp only: of_char_of) simp
  then show ?thesis by (auto simp: upper_char_def Let_def)
qed

lemma toUpperCase_idem [simp]: "toUpperCase (toUpperCase s) = toUpperCase s"
  by (simp add: toUpperCase_def)

lemma isSupported_upper [simp]: "isSupported (toUpperCase c) = isSupported c"
  by (simp add: isSupported_def)

lemma present_succeeds:
  assumes "pool_ok (as_pool s)" "isSupported (acc_currency a)"
  shows "is_ok (fst (present d a s)) \<and> as_ledger (snd (present d a s)) = as_ledger s"
  using registry_get_ok_iff [OF assms(1), of "acc_currency a"] assms(2)
  by (cases "registry_get (acc_currency a) (as_pool s)"; cases "fst (registry_get (acc_currency a) (as_pool s))")
    (auto simp: present_def)

lemma open_account_pool: "as_pool (snd (open_account d e rnd dto s)) = as_pool s"
  by (auto simp: open_account_def Let_def split: sum.splits option.splits prod.splits)

context account_store
begin

lemma initial_deposit_ok:
  assumes "em_findAccount M (ls_db st) i = Some a" "acc_status a = PENDING" "balanceMinor a = 0" "0 \<le> amount"
  obtains ref st' ps where "initial_deposit M e i amount st = (Inr ref, st')"
    "applies M entries ps (ls_db st) (ls_db st')" "net i ps = amount" "\<And>j. j \<noteq> i \<Longrightarrow> net j ps = 0"
    "length ps = (if 0 < amount then 1 else 0)"
proof (cases "0 < amount")
  case False
  with assms(4) applies_refl [of M entries "ls_db st"] show thesis
    by (intro that [of None st "[]"]) (simp_all add: initial_deposit_def)
next
  case True
  let ?o = "\<lparr>po_description = Some ''Initial deposit'', po_type = None\<rparr>"
  have "is_ok (fst (deposit M e i amount ?o st))"
    using True assms by (intro deposit_succeeds [of st i a]) (simp_all add: deposit_ok_def)
  then obtain r st' where d: "deposit M e i amount ?o st = (Inr r, st')"
    by (cases "deposit M e i amount ?o st"; cases "fst (deposit M e i amount ?o st)") auto
  obtain p where p: "applies M entries [p] (ls_db st) (ls_db st')" "pg_accountId p = i" "pg_amountMinor p = amount"
    by (rule deposit_ok_spec [OF d]) (rule that, assumption, simp_all)
  with True d show thesis
    by (intro that [of "Some (pr_reference r)" st' "[p]"]) (simp_all add: initial_deposit_def)
qed

lemma onboard_ok:
  assumes d: "ad_manager d = M" "ad_repository d = R"
    and inv: "ledger_inv M entries (as_db s)" and pool: "pool_ok (as_pool s)" and amount: "0 \<le> oc_initialDepositMinor inp"
    and opened: "open_account d (es 0) rnd (onboard_dto inp) s = (Inr account, s1)"
  obtains res s' fresh ps dbl where "onboardCustomer d es rnd inp s = (Inr res, s')" "pa_account (or_account res) = fresh"
    "acc_status fresh = ACTIVE" "balanceMinor fresh = oc_initialDepositMinor inp" "acc_id fresh = acc_id account"
    "em_findAccount M (as_db s') = (em_findAccount M dbl)(acc_id account := Some fresh)"
    "applies M entries ps (as_db s1) dbl" "\<And>j. j \<noteq> acc_id account \<Longrightarrow> net j ps = 0"
    "length ps = (if 0 < oc_initialDepositMinor inp then 1 else 0)"
    "entries (as_db s') = entries dbl" "ledger_inv M entries (as_db s')"
proof -
  note o = opening_account [OF account_store_axioms d(2) inv opened]
  have a1: "em_findAccount M (as_db s1) (acc_id account) = Some account" and inv1: "ledger_inv M entries (as_db s1)"
    using o by simp_all
  have new: "acc_status account = PENDING" "balanceMinor account = 0" using o by simp_all
  obtain ref l ps where dep: "initial_deposit M (es 1) (acc_id account) (oc_initialDepositMinor inp) (as_ledger s1) = (Inr ref, l)"
    "applies M entries ps (as_db s1) (ls_db l)" "net (acc_id account) ps = oc_initialDepositMinor inp"
    "\<And>j. j \<noteq> acc_id account \<Longrightarrow> net j ps = 0" "length ps = (if 0 < oc_initialDepositMinor inp then 1 else 0)"
    using initial_deposit_ok [OF a1 new amount, where e = "es 1"] by metis
  have inv2: "ledger_inv M entries (ls_db l)" by (rule applies_inv [OF dep(2) inv1])
  obtain a2 where a2: "em_findAccount M (ls_db l) (acc_id account) = Some a2" "same_terms account a2"
    "balanceMinor a2 = oc_initialDepositMinor inp"
    using applies_account [OF dep(2) a1] dep(3) o by auto
  have pend: "acc_status a2 = PENDING" using same_termsD(2) [OF a2(2)] o by simp
  have "is_ok (fst (changeStatus M (es 2) (acc_id account) Activate l))"
    unfolding changeStatus_succeeds_iff [OF inv2] using a2 pend by auto
  then obtain saved l1 where cs: "changeStatus M (es 2) (acc_id account) Activate l = (Inr saved, l1)"
    by (cases "changeStatus M (es 2) (acc_id account) Activate l";
        cases "fst (changeStatus M (es 2) (acc_id account) Activate l)") auto
  have saved: "saved = a2\<lparr>acc_status := ACTIVE, acc_version := Suc (acc_version a2)\<rparr>"
    "em_findAccount M (ls_db l1) = (em_findAccount M (ls_db l))(acc_id account := Some saved)"
    "entries (ls_db l1) = entries (ls_db l)"
    by (rule changeStatus_ok [OF cs]; use a2(1) pend in simp)+
  have inv3: "ledger_inv M entries (ls_db l1)" using changeStatus_inv [OF inv2, of "es 2" "acc_id account" Activate] cs by simp
  define l2 where "l2 = emit (es 5) 0 CUSTOMER_ONBOARDED (onboarded_payload account (oc_initialDepositMinor inp)) l1"
  define s2 where "s2 = s1\<lparr>as_ledger := l2\<rparr>"
  have db2: "ls_db l2 = ls_db l1" by (simp add: l2_def)
  have find2: "findById M (ls_db l2) (acc_id account) = Inr saved"
    unfolding findById_ok db2 saved(2) by simp
  have "as_pool s2 = as_pool s" using open_account_pool [of d "es 0" rnd "onboard_dto inp" s] opened by (simp add: s2_def)
  moreover have "isSupported (acc_currency saved)"
    using same_termsD(3) [OF a2(2)] o by (simp add: saved(1))
  ultimately have pr: "is_ok (fst (present d saved s2))" "as_ledger (snd (present d saved s2)) = l2"
    using present_succeeds [of s2 saved d] pool by (simp_all add: s2_def)
  obtain shown s3 where p: "present d saved s2 = (Inr shown, s3)" using pr(1)
    by (cases "present d saved s2"; cases "fst (present d saved s2)") auto
  have shown: "pa_account shown = saved" using p
    by (auto simp: present_def case_prod_beta Let_def result_simps)
  have s3: "as_ledger s3 = l2" using pr(2) p by simp
  have run: "onboardCustomer d es rnd inp s =
      (Inr \<lparr>or_account = shown, or_initialDepositReference = ref, or_nextSteps = next_steps\<rparr>, s3)"
    using opened dep(1) cs find2 p by (simp add: onboardCustomer_def d l2_def s2_def)
  have "acc_id saved = acc_id account" using same_termsD(1) [OF a2(2)] by (simp add: saved(1))
  then show thesis
    using dep(2,4,5) inv3 by (intro that [OF run, of saved "ls_db l" ps]) (simp_all add: shown saved a2(3) s3 db2)
qed

lemma initial_deposit_inv:
  "ledger_inv M entries (ls_db st) \<Longrightarrow> initial_deposit M e i amount st = (r, st') \<Longrightarrow> ledger_inv M entries (ls_db st')"
  using applies_ex_inv [OF deposit_applies]
  by (auto simp: initial_deposit_def split: if_splits prod.splits) (metis snd_conv)

lemma compensate_inv:
  assumes "ledger_inv M entries (ls_db st)"
  shows "ledger_inv M entries (ls_db (snd (compensate M e1 e2 i ref x st)))"
proof -
  have rev: "ledger_inv M entries (ls_db (snd (reverse M e1 y st)))" for y
    using reverse_applies assms by (rule applies_ex_inv)
  show ?thesis
    using rev [of "the ref"] changeStatus_inv assms
    by (auto simp: compensate_def split: prod.splits sum.splits)
qed

lemma open_account_inv:
  assumes "ad_repository d = R" "ledger_inv M entries (as_db s)" "open_account d e rnd dto s = (r, s')"
  shows "ledger_inv M entries (as_db s')"
proof (cases r)
  case (Inl x)
  with assms open_account_error [of d e rnd dto s x s'] show ?thesis by simp
next
  case (Inr a)
  then show ?thesis
    using opening_account [OF account_store_axioms assms(1,2)] assms(3) by simp
qed

lemma present_ledger: "as_ledger (snd (present d a s)) = as_ledger s"
  by (simp add: present_def case_prod_beta Let_def)

lemma onboard_inv:
  assumes d: "ad_manager d = M" "ad_repository d = R" and inv: "ledger_inv M entries (as_db s)"
  shows "ledger_inv M entries (as_db (snd (onboardCustomer d es rnd inp s)))"
proof (cases "open_account d (es 0) rnd (onboard_dto inp) s")
  case (Pair r s1)
  have inv1: "ledger_inv M entries (as_db s1)" by (rule open_account_inv [OF d(2) inv Pair])
  show ?thesis
  proof (cases r)
    case (Inl x)
    with Pair inv1 show ?thesis by (simp add: onboardCustomer_def Let_def)
  next
    case (Inr account)
    obtain q l where dep: "initial_deposit M (es 1) (acc_id account) (oc_initialDepositMinor inp) (as_ledger s1) = (q, l)"
      by fastforce
    have inv2: "ledger_inv M entries (ls_db l)" by (rule initial_deposit_inv [OF inv1 dep])
    obtain c l1 where cs: "changeStatus M (es 2) (acc_id account) Activate l = (c, l1)" by fastforce
    have inv3: "ledger_inv M entries (ls_db l1)" using changeStatus_inv [OF inv2, of "es 2" "acc_id account" Activate] cs by simp
    show ?thesis
      using compensate_inv [OF inv2] compensate_inv [OF inv3] inv3 Pair Inr
      by (cases q; cases c) (auto simp: onboardCustomer_def d dep cs case_prod_beta Let_def present_ledger
          simp del: One_nat_def split: sum.splits)
  qed
qed

end

section \<open>Any sequence of operations\<close>

datatype bank_op =
    BankLedger ledger_command
  | BankOpen "nat list \<times> nat" open_dto
  | BankStatus string account_action
  | BankOnboard "nat list \<times> nat" onboard_input

fun bank_step :: "'db accounts_deps \<Rightarrow> (nat \<Rightarrow> env) \<Rightarrow> bank_op \<Rightarrow> 'db accounts_state \<Rightarrow> 'db accounts_state" where
  "bank_step d es (BankLedger c) s = s\<lparr>as_ledger := ledger_step (ad_manager d) (es 0) c (as_ledger s)\<rparr>"
| "bank_step d es (BankOpen rnd dto) s = snd (open_account d (es 0) rnd dto s)"
| "bank_step d es (BankStatus i action) s = s\<lparr>as_ledger := snd (changeStatus (ad_manager d) (es 0) i action (as_ledger s))\<rparr>"
| "bank_step d es (BankOnboard rnd inp) s = snd (onboardCustomer d es rnd inp s)"

fun bank_run :: "'db accounts_deps \<Rightarrow> ((nat \<Rightarrow> env) \<times> bank_op) list \<Rightarrow> 'db accounts_state \<Rightarrow> 'db accounts_state" where
  "bank_run d [] s = s"
| "bank_run d ((es, c) # cs) s = bank_run d cs (bank_step d es c s)"

lemma bank_step_inv:
  assumes "account_store M entries R accounts" "ad_manager d = M" "ad_repository d = R"
    and "ledger_inv M entries (as_db s)"
  shows "ledger_inv M entries (as_db (bank_step d es c s))"
proof (cases c)
  case (BankLedger x)
  have "entity_store M entries" using assms(1) by (simp add: account_store_def)
  from applies_ex_inv [OF entity_store.ledger_step_applies [OF this] assms(4)] show ?thesis
    by (simp add: BankLedger assms(2))
next
  case (BankOpen rnd dto)
  then show ?thesis
    using account_store.open_account_inv [OF assms(1,3,4)] by (simp add: prod_eq_iff)
next
  case (BankStatus i a)
  then show ?thesis using account_store.changeStatus_inv [OF assms(1,4)] assms(2) by simp
next
  case (BankOnboard rnd inp)
  then show ?thesis using account_store.onboard_inv [OF assms(1-4)] by simp
qed

lemma bank_run_inv:
  assumes "account_store M entries R accounts" "ad_manager d = M" "ad_repository d = R"
    and "ledger_inv M entries (as_db s)"
  shows "ledger_inv M entries (as_db (bank_run d cs s))"
  using assms(4)
proof (induction cs arbitrary: s)
  case (Cons x cs)
  then show ?case using bank_step_inv [OF assms(1-3)] by (cases x) simp
qed simp

text \<open>
  The books of the whole bank: whatever accounts are opened, activated, frozen or closed, whatever
  customers are onboarded and whatever money moves, one operation after the other, every balance is
  at any time the sum of the account's ledger entries and never negative.
\<close>

theorem bank_books_balance:
  assumes "account_store M entries R accounts" "ad_manager d = M" "ad_repository d = R"
    and "ledger_inv M entries (as_db s)" "em_findAccount M (as_db (bank_run d cs s)) i = Some a"
  shows "balanceMinor a = sum_list (map entry_amountMinor (entries_for i (entries (as_db (bank_run d cs s))))) \<and>
    0 \<le> balanceMinor a"
  using ledger_inv_sum [OF bank_run_inv [OF assms(1-4)] assms(5)] bank_run_inv [OF assms(1-4), of cs] assms(5)
  by (simp add: ledger_inv_def)

lemma sample_deps_simps [simp]: "ad_manager sample_deps = tables_manager" "ad_repository sample_deps = tables_repository"
  by (simp_all add: sample_deps_def)

lemma sample_accounts_simps [simp]: "as_db sample_accounts = sample_db" "pool_ok (as_pool sample_accounts)"
  by (simp_all add: sample_accounts_def)

definition sample_onboard :: onboard_input where
  "sample_onboard = \<lparr>oc_ownerName = '' Bilal '', oc_type = CURRENT, oc_currency = ''pkr'', oc_initialDepositMinor = 5000,
     oc_productCode = None\<rparr>"

theorem bank_books_balance_witness:
  "\<exists>a. em_findAccount tables_manager (as_db (bank_run sample_deps
        [(\<lambda>_. sample_env, BankStatus ''a'' Freeze)] sample_accounts)) ''b'' = Some a \<and> balanceMinor a = 20000 \<and>
      0 \<le> balanceMinor a"
proof -
  let ?s = "bank_run sample_deps [(\<lambda>_. sample_env, BankStatus ''a'' Freeze)] sample_accounts"
  have inv: "ledger_inv tables_manager entryRows (as_db sample_accounts)" using sample_inv by simp
  have "em_findAccount tables_manager (as_db ?s) ''b'' = Some (sample_account ''b'' ACTIVE 20000)"
    by (simp add: changeStatus_def status_read_def findById_def status_write_def tables_save_def sample_accounts_def Let_def)
  from bank_books_balance [OF tables_account_store sample_deps_simps inv this] this show ?thesis
    by simp
qed



end
