(* ===== verification/LoanDesks.thy ===== *)
theory LoanDesks
  imports Core Entities
begin

text \<open>
  The domain of loans (\<open>src/src/modules/loans/domain/\<close>): the builder of an application
  (\<open>loan-application.builder.ts\<close>), the adapter around the legacy credit bureau
  (\<open>credit-bureau.adapter.ts\<close>) and the desks with their mediator (\<open>loan-approval.mediator.ts\<close>).

  The interface \<open>CreditReportProvider\<close> is the locale \<open>credit_report_provider\<close>. ECMAScript leaves the
  result of \<open>Math.pow\<close> to the implementation, so it is an argument.
\<close>

section \<open>The application and its builder\<close>

record collateral =
  co_description :: string
  co_valueMinor :: int

record loan_application =
  la_applicantName :: string
  la_accountId :: string
  la_amountMinor :: int
  la_termMonths :: int
  la_purpose :: string
  la_monthlyIncomeMinor :: int
  la_collateral :: "collateral option"
  la_coApplicantName :: "string option"

record loan_builder =
  lb_applicantName :: "string option"
  lb_accountId :: "string option"
  lb_amountMinor :: "int option"
  lb_termMonths :: int
  lb_purpose :: string
  lb_monthlyIncomeMinor :: "int option"
  lb_collateral :: "collateral option"
  lb_coApplicantName :: "string option"

definition new_loan_builder :: loan_builder where
  "new_loan_builder = \<lparr>lb_applicantName = None, lb_accountId = None, lb_amountMinor = None, lb_termMonths = 12,
     lb_purpose = ''personal'', lb_monthlyIncomeMinor = None, lb_collateral = None, lb_coApplicantName = None\<rparr>"

definition forApplicant :: "string \<Rightarrow> loan_builder \<Rightarrow> loan_builder" where
  "forApplicant name b = b\<lparr>lb_applicantName := Some (js_trim name)\<rparr>"

definition disbursedTo :: "string \<Rightarrow> loan_builder \<Rightarrow> loan_builder" where
  "disbursedTo accountId b = b\<lparr>lb_accountId := Some accountId\<rparr>"

definition borrowing :: "int \<Rightarrow> loan_builder \<Rightarrow> loan_builder" where
  "borrowing amountMinor b = b\<lparr>lb_amountMinor := Some amountMinor\<rparr>"

definition overMonths :: "int \<Rightarrow> loan_builder \<Rightarrow> loan_builder" where
  "overMonths termMonths b = b\<lparr>lb_termMonths := termMonths\<rparr>"

definition for_purpose :: "string \<Rightarrow> loan_builder \<Rightarrow> loan_builder" where
  "for_purpose purpose b = b\<lparr>lb_purpose := purpose\<rparr>"

definition earningMonthly :: "int \<Rightarrow> loan_builder \<Rightarrow> loan_builder" where
  "earningMonthly incomeMinor b = b\<lparr>lb_monthlyIncomeMinor := Some incomeMinor\<rparr>"

definition securedBy :: "string \<Rightarrow> int \<Rightarrow> loan_builder \<Rightarrow> loan_builder" where
  "securedBy description valueMinor b =
     b\<lparr>lb_collateral := Some \<lparr>co_description = description, co_valueMinor = valueMinor\<rparr>\<rparr>"

definition withCoApplicant :: "string \<Rightarrow> loan_builder \<Rightarrow> loan_builder" where
  "withCoApplicant name b = b\<lparr>lb_coApplicantName := Some name\<rparr>"

text \<open>\<open>!x || x <= 0\<close> for a number that may be missing; \<open>!s\<close> for a text that may be.\<close>

definition not_positive :: "int option \<Rightarrow> bool" where
  "not_positive m = (case m of None \<Rightarrow> True | Some n \<Rightarrow> n \<le> 0)"

definition no_text :: "string option \<Rightarrow> bool" where
  "no_text m = (case m of None \<Rightarrow> True | Some s \<Rightarrow> s = [])"

definition LARGE_LOAN_MINOR :: int where
  "LARGE_LOAN_MINOR = 200000000"

definition amount_or_0 :: "loan_builder \<Rightarrow> int" where
  "amount_or_0 b = (case lb_amountMinor b of None \<Rightarrow> 0 | Some n \<Rightarrow> n)"

definition undersecured :: "loan_builder \<Rightarrow> bool" where
  "undersecured b \<longleftrightarrow> LARGE_LOAN_MINOR < amount_or_0 b \<and>
     (case lb_collateral b of None \<Rightarrow> True
      | Some c \<Rightarrow> of_int (co_valueMinor c) < dbl (of_int (amount_or_0 b) / 2))"

definition builder_errors :: "loan_builder \<Rightarrow> string list" where
  "builder_errors b =
     (if no_text (lb_applicantName b) then [''applicant name is required''] else []) @
     (if no_text (lb_accountId b) then [''disbursement account is required''] else []) @
     (if not_positive (lb_amountMinor b) then [''amount must be positive''] else []) @
     (if not_positive (lb_monthlyIncomeMinor b) then [''monthly income is required''] else []) @
     (if lb_termMonths b < 3 \<or> 84 < lb_termMonths b then [''term must be between 3 and 84 months''] else []) @
     (if undersecured b then [''loans above Rs 2,000,000 need collateral worth at least 50% of the amount''] else [])"

definition build :: "loan_builder \<Rightarrow> err + loan_application" where
  "build b = (let errors = builder_errors b in
     if errors \<noteq> []
     then Inl (DomainError BusinessRule (''Invalid loan application: '' @ js_join ''; '' errors) (Some [(''errors'', DList errors)]))
     else Inr \<lparr>la_applicantName = the (lb_applicantName b), la_accountId = the (lb_accountId b),
       la_amountMinor = the (lb_amountMinor b), la_termMonths = lb_termMonths b, la_purpose = lb_purpose b,
       la_monthlyIncomeMinor = the (lb_monthlyIncomeMinor b), la_collateral = lb_collateral b,
       la_coApplicantName = lb_coApplicantName b\<rparr>)"

section \<open>The credit bureau\<close>

record credit_report =
  rep_score :: jsnum
  rep_hasDefaults :: bool
  rep_recentEnquiries :: jsnum

definition bureau_hash :: "string \<Rightarrow> nat" where
  "bureau_hash customerName = foldl (\<lambda>sum ch. (sum * 31 + of_char ch) mod 100000) 7 (toUpperCase customerName)"

definition FETCH_RPT :: "string \<Rightarrow> string" where
  "FETCH_RPT customerName = (let
     hash = bureau_hash customerName;
     score = 550 + hash mod 300;
     defaulted = (if js_includes ''default'' (toLowerCase customerName) then ''Y'' else ''N'')
   in ''CUST='' @ toUpperCase customerName @ ''|SCR='' @ padStart 4 CHR ''0'' (show_nat score) @
      ''|DFLT='' @ defaulted @ ''|ENQ='' @ padStart 2 CHR ''0'' (show_nat (hash mod 6)))"

text \<open>\<open>Number.parseInt(s, 10)\<close>: the longest prefix of digits after white space and a sign.\<close>

definition parse_int10 :: "string option \<Rightarrow> jsnum" where
  "parse_int10 m = (case m of None \<Rightarrow> NaN | Some s \<Rightarrow> (let
     t = dropWhile is_space s; neg = (take 1 t = ''-'');
     ds = takeWhile is_digit (if take 1 t \<in> {''-'', ''+''} then tl t else t)
   in if ds = [] then NaN else Finite (dbl (of_int (if neg then - int (digits_val ds) else int (digits_val ds))))))"

text \<open>
  \<open>Object.fromEntries(raw.split('|').map((pair) => pair.split('=')))\<close>: an entry's first two pieces are
  its key and value; a later entry replaces an earlier one of the same key.
\<close>

definition bureau_entry :: "string \<Rightarrow> string \<times> string option" where
  "bureau_entry pair = (case js_split CHR ''='' pair of
     k # v # _ \<Rightarrow> (k, Some v) | k # _ \<Rightarrow> (k, None) | [] \<Rightarrow> ([], None))"

definition bureau_fields :: "string \<Rightarrow> (string \<times> string option) list" where
  "bureau_fields raw = foldl (\<lambda>m (k, v). map_set k v m) [] (map bureau_entry (js_split CHR ''|'' raw))"

definition bureau_field :: "string \<Rightarrow> string \<Rightarrow> string option" where
  "bureau_field k raw = (case map_of (bureau_fields raw) k of None \<Rightarrow> None | Some v \<Rightarrow> v)"

definition getReport :: "string \<Rightarrow> credit_report" where
  "getReport applicantName = (let raw = FETCH_RPT applicantName in
     \<lparr>rep_score = parse_int10 (bureau_field ''SCR'' raw),
      rep_hasDefaults = (bureau_field ''DFLT'' raw = Some ''Y''),
      rep_recentEnquiries = parse_int10 (bureau_field ''ENQ'' raw)\<rparr>)"

section \<open>The desks\<close>

datatype desk_event =
    CreditPassed | CreditBorderline | CreditRejected
  | AffordabilityPassed | AffordabilityFailed
  | CompliancePassed | ComplianceManualReview

fun desk_event_name :: "desk_event \<Rightarrow> string" where
  "desk_event_name CreditPassed = ''credit.passed''"
| "desk_event_name CreditBorderline = ''credit.borderline''"
| "desk_event_name CreditRejected = ''credit.rejected''"
| "desk_event_name AffordabilityPassed = ''affordability.passed''"
| "desk_event_name AffordabilityFailed = ''affordability.failed''"
| "desk_event_name CompliancePassed = ''compliance.passed''"
| "desk_event_name ComplianceManualReview = ''compliance.manual-review''"

datatype desk = CreditDesk | AffordabilityDesk | ComplianceDesk

fun desk_name :: "desk \<Rightarrow> string" where
  "desk_name CreditDesk = ''Credit desk''"
| "desk_name AffordabilityDesk = ''Affordability desk''"
| "desk_name ComplianceDesk = ''Compliance desk''"

definition credit_review :: "(string \<Rightarrow> credit_report) \<Rightarrow> loan_application \<Rightarrow> desk_event \<times> string" where
  "credit_review bureau app = (let
     report = bureau (la_applicantName app);
     detail = ''score '' @ number_to_string (rep_score report) @ '', defaults '' @
       (if rep_hasDefaults report then ''yes'' else ''no'') @ '', enquiries '' @ number_to_string (rep_recentEnquiries report)
   in (if rep_hasDefaults report \<or> num_less (rep_score report) (Finite 600) then CreditRejected
       else if num_less (rep_score report) (Finite 680) then CreditBorderline
       else CreditPassed, detail))"

type_synonym math_pow = "rat \<Rightarrow> int \<Rightarrow> rat"

definition ANNUAL_RATE :: rat where
  "ANNUAL_RATE = dbl (1 / 5)"

definition monthlyInstalmentMinor :: "math_pow \<Rightarrow> int \<Rightarrow> int \<Rightarrow> int" where
  "monthlyInstalmentMinor pow amountMinor termMonths = (let r = dbl (ANNUAL_RATE / 12) in
     math_round (dbl (dbl (of_int amountMinor * r) / dbl (1 - pow (dbl (1 + r)) (- termMonths)))))"

definition instalment_ratio :: "math_pow \<Rightarrow> loan_application \<Rightarrow> rat" where
  "instalment_ratio pow app =
     dbl (of_int (monthlyInstalmentMinor pow (la_amountMinor app) (la_termMonths app)) / of_int (la_monthlyIncomeMinor app))"

definition affordability_review :: "math_pow \<Rightarrow> loan_application \<Rightarrow> desk_event \<times> string" where
  "affordability_review pow app = (let
     instalment = monthlyInstalmentMinor pow (la_amountMinor app) (la_termMonths app);
     ratio = instalment_ratio pow app;
     detail = ''instalment '' @ toFixed 0 (dbl (of_int instalment / 100)) @ '' = '' @ toFixed 1 (dbl (ratio * 100)) @ ''% of income''
   in (if dbl (2 / 5) < ratio then AffordabilityFailed else AffordabilityPassed, detail))"

definition RESTRICTED_PURPOSES :: "string list" where
  "RESTRICTED_PURPOSES = [''crypto'', ''gambling'', ''speculation'']"

definition restricted :: "string \<Rightarrow> bool" where
  "restricted purpose = list_ex (\<lambda>p. js_includes p (toLowerCase purpose)) RESTRICTED_PURPOSES"

definition compliance_review :: "loan_application \<Rightarrow> desk_event \<times> string" where
  "compliance_review app =
     (if restricted (la_purpose app)
      then (ComplianceManualReview, ''restricted purpose '' @ [CHR 0x22] @ la_purpose app @ [CHR 0x22])
      else if 500000000 < la_amountMinor app
      then (ComplianceManualReview, ''amount above Rs 5,000,000 requires a senior officer'')
      else (CompliancePassed, ''no issues''))"

fun desk_review :: "(string \<Rightarrow> credit_report) \<Rightarrow> math_pow \<Rightarrow> loan_application \<Rightarrow> desk \<Rightarrow> desk_event \<times> string" where
  "desk_review bureau pow app CreditDesk = credit_review bureau app"
| "desk_review bureau pow app AffordabilityDesk = affordability_review pow app"
| "desk_review bureau pow app ComplianceDesk = compliance_review app"

section \<open>The mediator\<close>

record mediator_state =
  ms_status :: LoanStatus
  ms_borderline :: bool
  ms_log :: "string list"

definition new_mediator :: mediator_state where
  "new_mediator = \<lparr>ms_status = MANUAL_REVIEW, ms_borderline = False, ms_log = []\<rparr>"

text \<open>\<open>notify\<close>: the log line, the state, and the desk that reviews next, if any.\<close>

definition log_line :: "desk \<Rightarrow> desk_event \<Rightarrow> string \<Rightarrow> string" where
  "log_line sender ev detail = desk_name sender @ '': '' @ desk_event_name ev @ '' ('' @ detail @ '')''"

fun react :: "desk_event \<Rightarrow> mediator_state \<Rightarrow> mediator_state \<times> desk option" where
  "react CreditBorderline m = (m\<lparr>ms_borderline := True\<rparr>, Some AffordabilityDesk)"
| "react CreditPassed m = (m, Some AffordabilityDesk)"
| "react AffordabilityPassed m = (m, Some ComplianceDesk)"
| "react CreditRejected m = (m\<lparr>ms_status := REJECTED\<rparr>, None)"
| "react AffordabilityFailed m = (m\<lparr>ms_status := REJECTED\<rparr>, None)"
| "react ComplianceManualReview m = (m\<lparr>ms_status := MANUAL_REVIEW\<rparr>, None)"
| "react CompliancePassed m = (m\<lparr>ms_status := (if ms_borderline m then MANUAL_REVIEW else APPROVED)\<rparr>, None)"

definition notify :: "desk \<Rightarrow> desk_event \<Rightarrow> string \<Rightarrow> mediator_state \<Rightarrow> mediator_state \<times> desk option" where
  "notify sender ev detail m = react ev (m\<lparr>ms_log := ms_log m @ [log_line sender ev detail]\<rparr>)"

text \<open>A desk that receives an application; the calls end because each desk hands on to a later one.\<close>

fun desk_rank :: "desk \<Rightarrow> nat" where
  "desk_rank CreditDesk = 2"
| "desk_rank AffordabilityDesk = 1"
| "desk_rank ComplianceDesk = 0"

function drive :: "(string \<Rightarrow> credit_report) \<Rightarrow> math_pow \<Rightarrow> loan_application \<Rightarrow> desk \<Rightarrow> mediator_state \<Rightarrow> mediator_state" where
  "drive bureau pow app d m = (case notify d (fst (desk_review bureau pow app d)) (snd (desk_review bureau pow app d)) m of
     (m', None) \<Rightarrow> m' | (m', Some d') \<Rightarrow> drive bureau pow app d' m')"
  by pat_completeness auto

lemma next_desk_rank:
  "notify d (fst (desk_review bureau pow app d)) s m = (m', Some d') \<Longrightarrow> desk_rank d' < desk_rank d"
  by (cases d)
    (auto simp: notify_def credit_review_def affordability_review_def compliance_review_def Let_def split: if_splits)

termination drive
  by (relation "measure (\<lambda>(bureau, pow, app, d, m). desk_rank d)") (auto dest!: next_desk_rank [OF sym])

declare drive.simps [simp del]

definition decide :: "(string \<Rightarrow> credit_report) \<Rightarrow> math_pow \<Rightarrow> loan_application \<Rightarrow> LoanStatus \<times> string list" where
  "decide bureau pow app = (let m = drive bureau pow app CreditDesk new_mediator in (ms_status m, ms_log m))"

section \<open>The adapter reads what the bureau wrote\<close>

lemma map_of_fold_set:
  "map_of (foldl (\<lambda>m (k, v). map_set k v m) m es) x = (case map_of (rev es) x of None \<Rightarrow> map_of m x | Some v \<Rightarrow> Some v)"
  by (induction es arbitrary: m) (auto simp: map_of_map_set map_add_def split: option.splits)

lemma digits_no_char: "\<not> is_digit c \<Longrightarrow> c \<notin> set (show_nat n)"
  using show_nat_digits by blast

lemma padded_digits: "\<forall>c \<in> set (padStart k CHR ''0'' (show_nat n)). is_digit c"
  using show_nat_digits [of n] by (auto simp: padStart_def is_digit_def)

lemma parse_int10_padded:
  assumes "int n \<le> 2 ^ 53"
  shows "parse_int10 (Some (padStart k CHR ''0'' (show_nat n))) = Finite (of_nat n)"
proof -
  let ?s = "padStart k CHR ''0'' (show_nat n)"
  have ne: "?s \<noteq> []" by (simp add: padStart_def)
  then obtain c cs where s: "?s = c # cs" by (cases ?s) auto
  have c: "is_digit c" "\<forall>x \<in> set ?s. is_digit x" using padded_digits [of k n] by (simp_all add: s)
  have dw: "dropWhile is_space ?s = ?s" using c(1) by (auto simp: s is_space_def is_digit_def)
  have tw: "takeWhile is_digit ?s = ?s" using c(2) by (simp add: takeWhile_eq_all_conv)
  have sign: "c \<noteq> CHR ''-''" "c \<noteq> CHR ''+''" using c(1) by (auto simp: is_digit_def)
  have v: "digits_val ?s = n" by (simp add: padStart_def digits_val_zeros)
  have first: "take 1 ?s = [c]" by (simp add: s)
  have "parse_int10 (Some ?s) = Finite (dbl (of_int (int n)))"
    unfolding parse_int10_def option.case Let_def dw first using sign ne v by (simp add: tw)
  with assms dbl_of_int [of "int n"] show ?thesis by simp
qed

lemma bureau_entry_pair: "CHR ''='' \<notin> set k \<Longrightarrow> CHR ''='' \<notin> set v \<Longrightarrow> bureau_entry (k @ CHR ''='' # v) = (k, Some v)"
  by (simp add: bureau_entry_def js_split_append js_split_single)

lemma bureau_hash_bound: "bureau_hash name < 100000"
proof -
  have "foldl (\<lambda>sum ch. (sum * 31 + of_char ch) mod 100000) (m :: nat) s < 100000" if "m < 100000" for m s
    using that by (induction s arbitrary: m) simp_all
  then show ?thesis by (simp add: bureau_hash_def)
qed

lemma getReport_spec:
  "getReport name =
     \<lparr>rep_score = Finite (of_nat (550 + bureau_hash name mod 300)),
      rep_hasDefaults = js_includes ''default'' (toLowerCase name),
      rep_recentEnquiries = Finite (of_nat (bureau_hash name mod 6))\<rparr>"
proof -
  define scr where "scr = padStart 4 CHR ''0'' (show_nat (550 + bureau_hash name mod 300))"
  define dflt where "dflt = (if js_includes ''default'' (toLowerCase name) then ''Y'' else ''N'')"
  define enq where "enq = padStart 2 CHR ''0'' (show_nat (bureau_hash name mod 6))"
  have scr: "CHR ''|'' \<notin> set scr" "CHR ''='' \<notin> set scr" and enq: "CHR ''|'' \<notin> set enq" "CHR ''='' \<notin> set enq"
    using padded_digits unfolding scr_def enq_def by (fastforce simp: is_digit_def)+
  have dflt: "CHR ''|'' \<notin> set dflt" "CHR ''='' \<notin> set dflt" by (auto simp: dflt_def)
  have raw: "FETCH_RPT name = (''CUST='' @ toUpperCase name) @ CHR ''|'' # (''SCR'' @ CHR ''='' # scr) @ CHR ''|'' #
      (''DFLT'' @ CHR ''='' # dflt) @ CHR ''|'' # (''ENQ'' @ CHR ''='' # enq)"
    by (simp add: FETCH_RPT_def Let_def scr_def dflt_def enq_def)
  have split: "js_split CHR ''|'' (FETCH_RPT name) = js_split CHR ''|'' (''CUST='' @ toUpperCase name) @
      [''SCR'' @ CHR ''='' # scr, ''DFLT'' @ CHR ''='' # dflt, ''ENQ'' @ CHR ''='' # enq]"
    unfolding raw js_split_append using scr dflt enq by (simp add: js_split_single)
  have f: "bureau_field k (FETCH_RPT name) =
      (if k = ''ENQ'' then Some enq else if k = ''DFLT'' then Some dflt else if k = ''SCR'' then Some scr
       else bureau_field k (FETCH_RPT name))" for k
    using bureau_entry_pair [of "''SCR''" scr] bureau_entry_pair [of "''DFLT''" dflt] bureau_entry_pair [of "''ENQ''" enq] scr dflt enq
    by (simp add: bureau_field_def bureau_fields_def map_of_fold_set map_of_map_set split)
  have "bureau_field ''SCR'' (FETCH_RPT name) = Some scr" "bureau_field ''DFLT'' (FETCH_RPT name) = Some dflt"
    "bureau_field ''ENQ'' (FETCH_RPT name) = Some enq" by (subst f, simp)+
  moreover have "parse_int10 (Some scr) = Finite (of_nat (550 + bureau_hash name mod 300))"
    "parse_int10 (Some enq) = Finite (of_nat (bureau_hash name mod 6))"
    unfolding scr_def enq_def using bureau_hash_bound [of name] by (intro parse_int10_padded; simp)+
  ultimately show ?thesis by (simp add: getReport_def Let_def dflt_def)
qed

lemmas drive_desks = drive.simps [of _ _ _ CreditDesk] drive.simps [of _ _ _ AffordabilityDesk]
  drive.simps [of _ _ _ ComplianceDesk]

section \<open>The interface of a credit report provider\<close>

locale credit_report_provider =
  fixes bureau :: "string \<Rightarrow> credit_report"
  assumes score_number: "\<exists>n :: int. rep_score (bureau name) = Finite (of_int n)"
begin

definition score :: "string \<Rightarrow> int" where
  "score name = (THE n. rep_score (bureau name) = Finite (of_int n))"

lemma score_eq: "rep_score (bureau name) = Finite (of_int (score name))"
proof -
  obtain n :: int where n: "rep_score (bureau name) = Finite (of_int n)" using score_number by blast
  then have "score name = n" by (simp add: score_def)
  with n show ?thesis by simp
qed

lemma decide_status:
  "fst (decide bureau pw la) =
     (if rep_hasDefaults (bureau (la_applicantName la)) \<or> score (la_applicantName la) < 600 \<or> dbl (2 / 5) < instalment_ratio pw la
      then REJECTED
      else if restricted (la_purpose la) \<or> 500000000 < la_amountMinor la \<or> score (la_applicantName la) < 680
      then MANUAL_REVIEW else APPROVED)"
  using score_eq [of "la_applicantName la"]
  by (simp add: decide_def drive_desks notify_def credit_review_def affordability_review_def compliance_review_def
      new_mediator_def Let_def)

end

interpretation bureau: credit_report_provider getReport
proof
  fix name
  have "rep_score (getReport name) = Finite (of_int (int (550 + bureau_hash name mod 300)))"
    by (simp add: getReport_spec)
  then show "\<exists>n :: int. rep_score (getReport name) = Finite (of_int n)" by blast
qed

section \<open>What the desks guarantee\<close>

lemma bureau_score: "bureau.score name = int (550 + bureau_hash name mod 300)"
  using bureau.score_eq [of name] by (simp add: getReport_spec)

text \<open>
  The adapter loses nothing: for every customer name, whatever separators it contains, the report
  read back from the bureau's text has the score, the default flag and the number of enquiries the
  bureau computed; the score is between 550 and 849.
\<close>

theorem bureau_adapter_faithful:
  "rep_score (getReport name) = Finite (of_nat (550 + bureau_hash name mod 300)) \<and>
   rep_hasDefaults (getReport name) = js_includes ''default'' (toLowerCase name) \<and>
   rep_recentEnquiries (getReport name) = Finite (of_nat (bureau_hash name mod 6)) \<and>
   bureau_hash name < 100000 \<and> 550 + bureau_hash name mod 300 \<in> {550..849}"
proof -
  have "bureau_hash name mod 300 < 300" by simp
  then show ?thesis using bureau_hash_bound [of name] by (simp add: getReport_spec)
qed

text \<open>
  C25: the decision the desks reach through the mediator is the decision table of the process: rejected
  on defaults, a score under 600 or an instalment above 40% of the income; otherwise left to an officer
  on a restricted purpose, an amount above the limit or a borderline score; otherwise approved. Each
  desk that reviewed has one line in the log, and no desk reviews after a rejection.
\<close>

theorem loan_decision_table:
  "fst (decide getReport pw la) =
     (let score = 550 + bureau_hash (la_applicantName la) mod 300;
          bad_credit = js_includes ''default'' (toLowerCase (la_applicantName la)) \<or> score < 600;
          unaffordable = dbl (2 / 5) < instalment_ratio pw la
      in if bad_credit \<or> unaffordable then REJECTED
         else if restricted (la_purpose la) \<or> 500000000 < la_amountMinor la \<or> score < 680 then MANUAL_REVIEW
         else APPROVED) \<and>
   length (snd (decide getReport pw la)) =
     (if js_includes ''default'' (toLowerCase (la_applicantName la)) \<or> 550 + bureau_hash (la_applicantName la) mod 300 < 600 then 1
      else if dbl (2 / 5) < instalment_ratio pw la then 2 else 3)"
proof -
  have "length (snd (decide getReport pw la)) =
     (if js_includes ''default'' (toLowerCase (la_applicantName la)) \<or> rat_of_nat (550 + bureau_hash (la_applicantName la) mod 300) < 600 then 1
      else if dbl (2 / 5) < instalment_ratio pw la then 2 else 3)"
    by (simp add: decide_def drive_desks notify_def credit_review_def affordability_review_def compliance_review_def
        new_mediator_def Let_def getReport_spec)
  moreover have "rat_of_nat (550 + n) < 600 \<longleftrightarrow> 550 + n < 600" for n
    by (metis of_nat_less_iff of_nat_numeral)
  ultimately show ?thesis
    by (simp add: bureau.decide_status bureau_score getReport_spec Let_def)
qed

lemma half_exact: "\<bar>n\<bar> < 2 ^ 53 \<Longrightarrow> dbl (of_int n / 2) = of_int n / 2"
  by (rule dbl_scaled_int [of n _ "- 1"]) (simp_all add: power_int_def)

text \<open>
  An application is built exactly when the name and the account are given, amount and income are
  positive, the term is between 3 and 84 months, and a loan above two million rupees has collateral of
  at least half its amount; and then it holds what the builder was given.
\<close>

theorem application_built_iff:
  assumes "\<bar>amount_or_0 b\<bar> < 2 ^ 53"
  shows "build b = Inr la \<longleftrightarrow>
    la = \<lparr>la_applicantName = the (lb_applicantName b), la_accountId = the (lb_accountId b),
       la_amountMinor = the (lb_amountMinor b), la_termMonths = lb_termMonths b, la_purpose = lb_purpose b,
       la_monthlyIncomeMinor = the (lb_monthlyIncomeMinor b), la_collateral = lb_collateral b,
       la_coApplicantName = lb_coApplicantName b\<rparr> \<and>
    (\<exists>name account amount income. lb_applicantName b = Some name \<and> name \<noteq> [] \<and>
       lb_accountId b = Some account \<and> account \<noteq> [] \<and> lb_amountMinor b = Some amount \<and> 0 < amount \<and>
       lb_monthlyIncomeMinor b = Some income \<and> 0 < income \<and> lb_termMonths b \<in> {3..84} \<and>
       (amount \<le> 200000000 \<or> (\<exists>c. lb_collateral b = Some c \<and> amount \<le> 2 * co_valueMinor c)))"
proof -
  have half: "of_int v < dbl (of_int (amount_or_0 b) / 2) \<longleftrightarrow> 2 * v < amount_or_0 b" for v
  proof -
    have "of_int v < (of_int (amount_or_0 b) / 2 :: rat) \<longleftrightarrow> of_int (2 * v) < (of_int (amount_or_0 b) :: rat)" by auto
    then show ?thesis unfolding half_exact [OF assms] of_int_less_iff .
  qed
  have sec: "\<not> undersecured b \<longleftrightarrow> amount_or_0 b \<le> 200000000 \<or> (\<exists>c. lb_collateral b = Some c \<and> amount_or_0 b \<le> 2 * co_valueMinor c)"
    by (auto simp: undersecured_def half LARGE_LOAN_MINOR_def split: option.splits)
  have "builder_errors b = [] \<longleftrightarrow> (\<exists>name account amount income. lb_applicantName b = Some name \<and> name \<noteq> [] \<and>
       lb_accountId b = Some account \<and> account \<noteq> [] \<and> lb_amountMinor b = Some amount \<and> 0 < amount \<and>
       lb_monthlyIncomeMinor b = Some income \<and> 0 < income \<and> lb_termMonths b \<in> {3..84} \<and> \<not> undersecured b)"
    by (auto simp: builder_errors_def no_text_def not_positive_def not_le split: option.splits)
  then show ?thesis
    unfolding build_def Let_def sec by (auto simp: amount_or_0_def)
qed

theorem application_built_iff_witness:
  "\<exists>la. build (forApplicant ''Ali'' (disbursedTo ''a'' (borrowing 300000000 (earningMonthly 50000000
     (securedBy ''House'' 150000000 new_loan_builder))))) = Inr la"
proof -
  let ?b = "forApplicant ''Ali'' (disbursedTo ''a'' (borrowing 300000000 (earningMonthly 50000000
     (securedBy ''House'' 150000000 new_loan_builder))))"
  have "\<bar>amount_or_0 ?b\<bar> < 2 ^ 53"
    by (simp add: amount_or_0_def forApplicant_def disbursedTo_def borrowing_def earningMonthly_def securedBy_def)
  from application_built_iff [OF this] show ?thesis
    by (simp add: forApplicant_def disbursedTo_def borrowing_def earningMonthly_def securedBy_def new_loan_builder_def
        js_trim_def is_space_def)
qed

end
