(* ===== verification/Loans.thy ===== *)
theory Loans
  imports LoanDesks Accounts
begin

text \<open>
  Loan drafts with undo (\<open>src/src/modules/loans/domain/loan-draft.memento.ts\<close>) and \<open>LoansService\<close>
  (\<open>src/src/modules/loans/loans.service.ts\<close>).

  The fields of a draft are a JavaScript object, an association list in which a property may be
  present and \<open>undefined\<close>; \<open>spread\<close> is \<open>{ ...a, ...b }\<close>. The caretaker's \<open>Map\<close> is an association list.
  The repository of loan applications is an argument with the laws of the locale \<open>loan_store\<close>.
\<close>

section \<open>Drafts and mementos\<close>

datatype draft_value = DvText string | DvNum int | DvNull | DvUndefined

type_synonym draft_fields = "(string \<times> draft_value) list"

definition spread :: "draft_fields \<Rightarrow> draft_fields \<Rightarrow> draft_fields" where
  "spread a b = foldl (\<lambda>m (k, v). map_set k v m) a b"

record loan_draft =
  ld_id :: string
  ld_fields :: draft_fields

record draft_memento =
  dm_takenAt :: string
  dm_state :: draft_fields

definition new_draft :: "string \<Rightarrow> draft_fields \<Rightarrow> loan_draft" where
  "new_draft uuid initial = \<lparr>ld_id = uuid, ld_fields = spread [] initial\<rparr>"

definition draft_update :: "draft_fields \<Rightarrow> loan_draft \<Rightarrow> loan_draft" where
  "draft_update changes d = d\<lparr>ld_fields := spread (spread [] (ld_fields d)) changes\<rparr>"

definition draft_save :: "env \<Rightarrow> loan_draft \<Rightarrow> draft_memento" where
  "draft_save e d = \<lparr>dm_takenAt = isoNow e, dm_state = spread [] (ld_fields d)\<rparr>"

definition draft_restore :: "draft_memento \<Rightarrow> loan_draft \<Rightarrow> loan_draft" where
  "draft_restore m d = d\<lparr>ld_fields := spread [] (dm_state m)\<rparr>"

definition draft_values :: "loan_draft \<Rightarrow> draft_fields" where
  "draft_values d = spread [] (ld_fields d)"

section \<open>The caretaker\<close>

type_synonym caretaker = "(string \<times> loan_draft \<times> draft_memento list) list"

definition caretaker_entry :: "string \<Rightarrow> caretaker \<Rightarrow> err + (loan_draft \<times> draft_memento list)" where
  "caretaker_entry i c = (case map_of c i of
     None \<Rightarrow> Inl (NotFoundError (''Loan draft '' @ i @ '' not found'')) | Some x \<Rightarrow> Inr x)"

definition caretaker_create :: "string \<Rightarrow> draft_fields \<Rightarrow> caretaker \<Rightarrow> loan_draft \<times> caretaker" where
  "caretaker_create uuid initial c = (let d = new_draft uuid initial in (d, map_set (ld_id d) (d, []) c))"

text \<open>The history is a stack, its top last.\<close>

definition caretaker_change :: "env \<Rightarrow> string \<Rightarrow> draft_fields \<Rightarrow> caretaker \<Rightarrow> (err + loan_draft) \<times> caretaker" where
  "caretaker_change e i changes c = (case caretaker_entry i c of
     Inl x \<Rightarrow> (Inl x, c)
   | Inr (d, history) \<Rightarrow> (let d' = draft_update changes d in (Inr d', map_set i (d', history @ [draft_save e d]) c)))"

definition caretaker_undo :: "string \<Rightarrow> caretaker \<Rightarrow> (err + loan_draft) \<times> caretaker" where
  "caretaker_undo i c = (case caretaker_entry i c of
     Inl x \<Rightarrow> (Inl x, c)
   | Inr (d, history) \<Rightarrow>
       (if history = [] then (Inl (BusinessRuleError ''Nothing to undo''), c)
        else let d' = draft_restore (last history) d in (Inr d', map_set i (d', butlast history) c)))"

definition caretaker_get :: "string \<Rightarrow> caretaker \<Rightarrow> err + (loan_draft \<times> nat)" where
  "caretaker_get i c = ebind (caretaker_entry i c) (\<lambda>(d, history). Inr (d, length history))"

definition caretaker_remove :: "string \<Rightarrow> caretaker \<Rightarrow> caretaker" where
  "caretaker_remove i c = filter (\<lambda>x. fst x \<noteq> i) c"

section \<open>The service\<close>

record loan =
  loan_id :: string
  loan_applicantName :: string
  loan_accountId :: string
  loan_amountMinor :: int
  loan_termMonths :: int
  loan_purpose :: string
  loan_monthlyIncomeMinor :: int
  loan_status :: LoanStatus
  loan_decisionLog :: "string list"
  loan_createdAt :: int

definition loan_row :: "string \<Rightarrow> int \<Rightarrow> loan_application \<Rightarrow> LoanStatus \<times> string list \<Rightarrow> loan" where
  "loan_row uuid now la decision =
     \<lparr>loan_id = uuid, loan_applicantName = la_applicantName la, loan_accountId = la_accountId la,
      loan_amountMinor = la_amountMinor la, loan_termMonths = la_termMonths la, loan_purpose = la_purpose la,
      loan_monthlyIncomeMinor = la_monthlyIncomeMinor la, loan_status = fst decision, loan_decisionLog = snd decision,
      loan_createdAt = now\<rparr>"

record 'db loan_repository =
  lr_insert :: "'db \<Rightarrow> loan_application \<Rightarrow> LoanStatus \<times> string list \<Rightarrow> ('db \<times> loan) option"
  lr_find :: "'db \<Rightarrow> string \<Rightarrow> loan option"

record 'db loans_deps =
  lp_manager :: "'db entity_manager"
  lp_repository :: "'db loan_repository"
  lp_bureau :: "string \<Rightarrow> credit_report"
  lp_pow :: math_pow

record 'db loans_state =
  lo_ledger :: "'db ledger_state"
  lo_drafts :: caretaker

record draft_view =
  dv_draftId :: string
  dv_fields :: draft_fields
  dv_undoSteps :: nat

definition present_draft :: "string \<Rightarrow> caretaker \<Rightarrow> err + draft_view" where
  "present_draft i c = ebind (caretaker_get i c) (\<lambda>(d, steps).
     Inr \<lparr>dv_draftId = ld_id d, dv_fields = draft_values d, dv_undoSteps = steps\<rparr>)"

definition createDraft :: "string \<Rightarrow> draft_fields \<Rightarrow> caretaker \<Rightarrow> (err + draft_view) \<times> caretaker" where
  "createDraft uuid initial c = (let (d, c') = caretaker_create uuid initial c in (present_draft (ld_id d) c', c'))"

definition updateDraft :: "env \<Rightarrow> string \<Rightarrow> draft_fields \<Rightarrow> caretaker \<Rightarrow> (err + draft_view) \<times> caretaker" where
  "updateDraft e i changes c = (case caretaker_change e i changes c of
     (Inl x, c') \<Rightarrow> (Inl x, c') | (Inr _, c') \<Rightarrow> (present_draft i c', c'))"

definition undoDraft :: "string \<Rightarrow> caretaker \<Rightarrow> (err + draft_view) \<times> caretaker" where
  "undoDraft i c = (case caretaker_undo i c of
     (Inl x, c') \<Rightarrow> (Inl x, c') | (Inr _, c') \<Rightarrow> (present_draft i c', c'))"

definition getDraft :: "string \<Rightarrow> caretaker \<Rightarrow> err + draft_view" where
  "getDraft i c = present_draft i c"

text \<open>\<open>f.k ?? default\<close>: the fields are texts or numbers as the request's validation declares them.\<close>

definition text_field :: "string \<Rightarrow> draft_fields \<Rightarrow> string \<Rightarrow> string" where
  "text_field k f other = (case map_of f k of Some (DvText s) \<Rightarrow> s | _ \<Rightarrow> other)"

definition num_field :: "string \<Rightarrow> draft_fields \<Rightarrow> int \<Rightarrow> int" where
  "num_field k f other = (case map_of f k of Some (DvNum n) \<Rightarrow> n | _ \<Rightarrow> other)"

definition application_of :: "draft_fields \<Rightarrow> err + loan_application" where
  "application_of f = (let
     b = earningMonthly (num_field ''monthlyIncomeMinor'' f 0)
         (for_purpose (text_field ''purpose'' f ''personal'')
         (overMonths (num_field ''termMonths'' f 12)
         (borrowing (num_field ''amountMinor'' f 0)
         (disbursedTo (text_field ''accountId'' f [])
         (forApplicant (text_field ''applicantName'' f []) new_loan_builder)))));
     description = text_field ''collateralDescription'' f [];
     worth = num_field ''collateralValueMinor'' f 0
   in build (if description \<noteq> [] \<and> worth \<noteq> 0 then securedBy description worth b else b))"

definition decided_payload :: "loan \<Rightarrow> payload" where
  "decided_payload l =
     [(''loanId'', JStr (loan_id l)), (''accountId'', JStr (loan_accountId l)),
      (''status'', JStr (loan_status_name (loan_status l))), (''amountMinor'', JNum (loan_amountMinor l))]"

definition submit :: "'db loans_deps \<Rightarrow> env \<Rightarrow> string \<Rightarrow> 'db loans_state \<Rightarrow> (err + (loan \<times> int)) \<times> 'db loans_state" where
  "submit d e i s = (let db = ls_db (lo_ledger s) in
     case ebind (caretaker_get i (lo_drafts s)) (\<lambda>(draft, _).
          ebind (application_of (draft_values draft)) (\<lambda>la.
          ebind (findById (lp_manager d) db (la_accountId la)) (\<lambda>_. Inr la))) of
       Inl x \<Rightarrow> (Inl x, s)
     | Inr la \<Rightarrow>
         (case lr_insert (lp_repository d) db la (decide (lp_bureau d) (lp_pow d) la) of
            None \<Rightarrow> (Inl insert_violation, s)
          | Some (db', saved) \<Rightarrow>
              (Inr (saved, monthlyInstalmentMinor (lp_pow d) (loan_amountMinor saved) (loan_termMonths saved)),
               \<lparr>lo_ledger = emit e 0 LOAN_DECIDED (decided_payload saved) ((lo_ledger s)\<lparr>ls_db := db'\<rparr>),
                lo_drafts = caretaker_remove i (lo_drafts s)\<rparr>)))"

definition find_loan :: "'db loan_repository \<Rightarrow> 'db \<Rightarrow> string \<Rightarrow> err + loan" where
  "find_loan L db i = (case lr_find L db i of
     None \<Rightarrow> Inl (NotFoundError (''Loan '' @ i @ '' not found'')) | Some l \<Rightarrow> Inr l)"

definition creditReport :: "(string \<Rightarrow> credit_report) \<Rightarrow> string \<Rightarrow> credit_report" where
  "creditReport bureau name = bureau name"

text \<open>
  The body of a \<open>PATCH\<close> as the controller passes it on (\<open>src/src/modules/loans/dto/loan.dto.ts\<close>): an
  instance of the class \<open>LoanDraftDto\<close>. The compiler's target (\<open>ES2022\<close> in \<open>tsconfig.json\<close>) gives an
  instance every declared field, \<open>undefined\<close> where the request has none.
\<close>

definition draft_keys :: "string list" where
  "draft_keys = [''applicantName'', ''accountId'', ''amountMinor'', ''termMonths'', ''purpose'', ''monthlyIncomeMinor'',
     ''collateralDescription'', ''collateralValueMinor'']"

definition dto_instance :: "draft_fields \<Rightarrow> draft_fields" where
  "dto_instance body = spread (map (\<lambda>k. (k, DvUndefined)) draft_keys) body"

section \<open>Undo\<close>

definition fields_ok :: "draft_fields \<Rightarrow> bool" where
  "fields_ok f \<longleftrightarrow> distinct (map fst f)"

definition caretaker_ok :: "caretaker \<Rightarrow> bool" where
  "caretaker_ok c \<longleftrightarrow> distinct (map fst c) \<and> (\<forall>(i, d, history) \<in> set c. fields_ok (ld_fields d))"

lemma spread_simps [simp]: "spread a [] = a" "spread a ((k, v) # b) = spread (map_set k v a) b"
  by (simp_all add: spread_def)

lemma spread_append: "distinct (map fst (a @ b)) \<Longrightarrow> spread a b = a @ b"
proof (induction b arbitrary: a)
  case (Cons x b)
  obtain k v where x: "x = (k, v)" by (cases x)
  with Cons.prems have "map_set k v a = a @ [x]" by (simp add: map_set_def)
  with Cons x show ?case by simp
qed simp

lemma spread_copy: "fields_ok f \<Longrightarrow> spread [] f = f"
  using spread_append [of "[]" f] by (simp add: fields_ok_def)

lemma spread_ok: "fields_ok a \<Longrightarrow> fields_ok (spread a b)"
  by (induction b arbitrary: a) (auto simp: fields_ok_def distinct_map_set)

lemma map_of_spread: "map_of (spread a b) k = (case map_of (rev b) k of None \<Rightarrow> map_of a k | Some v \<Rightarrow> Some v)"
  by (simp add: spread_def map_of_fold_set)

lemma caretaker_entry_ok [result_simps]: "caretaker_entry i c = Inr x \<longleftrightarrow> map_of c i = Some x"
  by (simp add: caretaker_entry_def split: option.splits)

lemma caretaker_okD: "caretaker_ok c \<Longrightarrow> map_of c i = Some (d, h) \<Longrightarrow> fields_ok (ld_fields d)"
  by (auto simp: caretaker_ok_def dest: map_of_SomeD)

lemma in_map_set: "x \<in> set (map_set k v m) \<Longrightarrow> x = (k, v) \<or> x \<in> set m"
  by (auto simp: map_set_def split: if_splits)

lemma caretaker_ok_set: "caretaker_ok c \<Longrightarrow> fields_ok (ld_fields d) \<Longrightarrow> caretaker_ok (map_set i (d, h) c)"
  by (auto simp: caretaker_ok_def distinct_map_set dest!: in_map_set)

lemma change_ok:
  assumes "caretaker_ok c" "map_of c i = Some (d, h)"
  shows "caretaker_change e i ch c =
      (Inr (draft_update ch d), map_set i (draft_update ch d, h @ [\<lparr>dm_takenAt = isoNow e, dm_state = ld_fields d\<rparr>]) c)"
    and "caretaker_ok (snd (caretaker_change e i ch c))"
proof -
  have f: "fields_ok (ld_fields d)" by (rule caretaker_okD [OF assms])
  show 1: "caretaker_change e i ch c =
      (Inr (draft_update ch d), map_set i (draft_update ch d, h @ [\<lparr>dm_takenAt = isoNow e, dm_state = ld_fields d\<rparr>]) c)"
    using assms(2) f by (simp add: caretaker_change_def caretaker_entry_def draft_save_def spread_copy Let_def)
  have "fields_ok (ld_fields (draft_update ch d))" by (simp add: draft_update_def spread_copy f spread_ok)
  with assms(1) show "caretaker_ok (snd (caretaker_change e i ch c))" by (simp add: 1 caretaker_ok_set)
qed

lemma undo_change:
  assumes "caretaker_ok c" "map_of c i = Some (d, h)"
  shows "caretaker_undo i (snd (caretaker_change e i ch c)) = (Inr d, c)"
proof -
  have f: "fields_ok (ld_fields d)" by (rule caretaker_okD [OF assms])
  have "map_set i (d, h) c = c" using assms by (intro map_set_same) (auto simp: caretaker_ok_def)
  with f show ?thesis
    by (simp add: change_ok(1) [OF assms] caretaker_undo_def caretaker_entry_def map_of_map_set draft_restore_def
        draft_update_def spread_copy Let_def)
qed

text \<open>A list of changes to one draft, and as many steps back.\<close>

fun change_all :: "string \<Rightarrow> (env \<times> draft_fields) list \<Rightarrow> caretaker \<Rightarrow> caretaker" where
  "change_all i [] c = c"
| "change_all i ((e, ch) # chs) c = change_all i chs (snd (caretaker_change e i ch c))"

fun undo_n :: "string \<Rightarrow> nat \<Rightarrow> caretaker \<Rightarrow> caretaker" where
  "undo_n i 0 c = c"
| "undo_n i (Suc n) c = snd (caretaker_undo i (undo_n i n c))"

text \<open>
  C27: undo takes a draft back step by step: after any changes to it, as many undos restore exactly the
  drafts and histories there were before, and one undo more than there are snapshots is refused.
\<close>

theorem undo_restores_drafts:
  assumes "caretaker_ok c" "map_of c i = Some (d, h)"
  shows "undo_n i (length chs) (change_all i chs c) = c \<and>
    (is_ok (fst (caretaker_undo i c)) \<longleftrightarrow> h \<noteq> [])"
proof
  show "undo_n i (length chs) (change_all i chs c) = c"
    using assms
  proof (induction chs arbitrary: c d h)
    case (Cons x chs)
    obtain e ch where x: "x = (e, ch)" by (cases x)
    let ?c = "snd (caretaker_change e i ch c)"
    have "map_of ?c i = Some (draft_update ch d, h @ [\<lparr>dm_takenAt = isoNow e, dm_state = ld_fields d\<rparr>])"
      by (simp add: change_ok(1) [OF Cons.prems] map_of_map_set)
    from Cons.IH [OF change_ok(2) [OF Cons.prems] this] show ?case
      by (simp add: x undo_change [OF Cons.prems])
  qed simp
  show "is_ok (fst (caretaker_undo i c)) \<longleftrightarrow> h \<noteq> []"
    using assms(2) by (simp add: caretaker_undo_def caretaker_entry_def Let_def)
qed

definition sample_draft :: draft_fields where
  "sample_draft = [(''applicantName'', DvText ''Ali Raza''), (''accountId'', DvText ''a''), (''amountMinor'', DvNum 50000000),
     (''termMonths'', DvNum 24), (''purpose'', DvText ''car''), (''monthlyIncomeMinor'', DvNum 40000000)]"

definition sample_caretaker :: caretaker where
  "sample_caretaker = snd (caretaker_create ''d1'' sample_draft [])"

lemma sample_caretaker: "caretaker_ok sample_caretaker"
  "map_of sample_caretaker ''d1'' = Some (\<lparr>ld_id = ''d1'', ld_fields = sample_draft\<rparr>, [])"
proof -
  have "fields_ok sample_draft" by (simp add: fields_ok_def sample_draft_def)
  then have c: "sample_caretaker = [(''d1'', \<lparr>ld_id = ''d1'', ld_fields = sample_draft\<rparr>, [])]"
    by (simp add: sample_caretaker_def caretaker_create_def new_draft_def spread_copy map_set_def Let_def)
  show "caretaker_ok sample_caretaker" "map_of sample_caretaker ''d1'' = Some (\<lparr>ld_id = ''d1'', ld_fields = sample_draft\<rparr>, [])"
    using \<open>fields_ok sample_draft\<close> by (simp_all add: c caretaker_ok_def)
qed

theorem undo_restores_drafts_witness:
  "undo_n ''d1'' 2 (change_all ''d1'' [(sample_env, [(''amountMinor'', DvNum 90000000)]), (sample_env, [(''purpose'', DvText ''home'')])]
     sample_caretaker) = sample_caretaker"
  using undo_restores_drafts [OF sample_caretaker,
      of "[(sample_env, [(''amountMinor'', DvNum 90000000)]), (sample_env, [(''purpose'', DvText ''home'')])]"]
  by (simp add: numeral_2_eq_2)

text \<open>
  C35: a partial update through the controller erases the other fields. A change with only some fields
  keeps the rest when it is a plain object; the controller's instance of the request class also has the
  fields the request leaves out, as \<open>undefined\<close>, and those overwrite what the draft had.
\<close>

theorem partial_update_erases:
  assumes "caretaker_ok c" "map_of c i = Some (d, h)" "k \<in> set draft_keys" "map_of (rev body) k = None"
  shows "\<exists>v w. fst (updateDraft e i body c) = Inr v \<and> map_of (dv_fields v) k = map_of (ld_fields d) k \<and>
    fst (updateDraft e i (dto_instance body) c) = Inr w \<and> map_of (dv_fields w) k = Some DvUndefined"
proof -
  have f: "fields_ok (ld_fields d)" by (rule caretaker_okD [OF assms(1,2)])
  have upd: "fst (updateDraft e i ch c) = Inr \<lparr>dv_draftId = ld_id d, dv_fields = spread (ld_fields d) ch, dv_undoSteps = Suc (length h)\<rparr>"
    for ch
    by (simp add: updateDraft_def change_ok(1) [OF assms(1,2)] present_draft_def caretaker_get_def caretaker_entry_def
        map_of_map_set draft_values_def draft_update_def spread_copy spread_ok f)
  have k: "map_of (map (\<lambda>k. (k, DvUndefined)) draft_keys) k = Some DvUndefined"
    using assms(3) by (simp add: map_of_eq_Some_iff [symmetric] map_of_map_restrict)
  have dist: "distinct (map fst (dto_instance body))"
    using spread_ok [of "map (\<lambda>k. (k, DvUndefined)) draft_keys" body]
    by (simp add: dto_instance_def fields_ok_def draft_keys_def o_def)
  have "map_of (rev (dto_instance body)) k = map_of (dto_instance body) k"
    using dist map_of_inject_set [of "rev (dto_instance body)" "dto_instance body"] by (simp add: rev_map [symmetric])
  also have "\<dots> = Some DvUndefined"
    using assms(4) k by (simp add: dto_instance_def map_of_spread)
  finally show ?thesis using assms(4) by (simp add: upd map_of_spread)
qed

theorem partial_update_erases_witness:
  "\<exists>v. fst (updateDraft sample_env ''d1'' (dto_instance [(''amountMinor'', DvNum 90000000)]) sample_caretaker) = Inr v \<and>
     map_of (dv_fields v) ''applicantName'' = Some DvUndefined"
  using partial_update_erases [OF sample_caretaker, of "''applicantName''" "[(''amountMinor'', DvNum 90000000)]" sample_env]
  by (auto simp: draft_keys_def)

section \<open>Submitting\<close>

locale loan_store = entity_store M entries
  for M :: "'db entity_manager" and entries +
  fixes L :: "'db loan_repository" and loans :: "'db \<Rightarrow> loan list"
  assumes loan_insert: "lr_insert L db la decision = Some (db', l) \<Longrightarrow>
      (\<exists>u t. l = loan_row u t la decision) \<and> loans db' = loans db @ [l] \<and>
      em_findAccount M db' = em_findAccount M db \<and> entries db' = entries db"
    and loan_found: "lr_find L db i = Some l \<Longrightarrow> l \<in> set (loans db) \<and> loan_id l = i"

text \<open>The table of loan applications beside the others: \<open>beside M\<close> works on the first part of a pair.\<close>

definition beside :: "'db entity_manager \<Rightarrow> ('db \<times> 'x) entity_manager" where
  "beside M =
     \<lparr>em_findAccount = (\<lambda>db. em_findAccount M (fst db)),
      em_saveAccount = (\<lambda>db a. map_option (\<lambda>(db', a'). ((db', snd db), a')) (em_saveAccount M (fst db) a)),
      em_findEntries = (\<lambda>db. em_findEntries M (fst db)),
      em_insertEntry = (\<lambda>db e. (em_insertEntry M (fst db) e, snd db))\<rparr>"

lemma beside_simps [simp]:
  "em_findAccount (beside M) db = em_findAccount M (fst db)"
  "em_saveAccount (beside M) db a = map_option (\<lambda>(db', a'). ((db', snd db), a')) (em_saveAccount M (fst db) a)"
  "em_findEntries (beside M) db P = em_findEntries M (fst db) P"
  "em_insertEntry (beside M) db e = (em_insertEntry M (fst db) e, snd db)"
  by (simp_all add: beside_def)

lemma beside_store:
  assumes "entity_store M entries"
  shows "entity_store (beside M :: ('db \<times> 'x) entity_manager) (entries \<circ> fst)"
proof
  fix db db' :: "'db \<times> 'x" and a a' old :: account and i P e
  show "em_findAccount (beside M) db i = Some a \<Longrightarrow> acc_id a = i"
    by (simp add: entity_store.find_key [OF assms])
  show "em_saveAccount (beside M) db a = Some (db', a') \<Longrightarrow> em_findAccount (beside M) db (acc_id a) = Some old \<Longrightarrow>
      a' = a\<lparr>acc_version := Suc (acc_version old)\<rparr> \<and> 0 \<le> balanceMinor a \<and> (entries \<circ> fst) db' = (entries \<circ> fst) db \<and>
      em_findAccount (beside M) db' = (em_findAccount (beside M) db)(acc_id a := Some a')"
    by (auto dest: entity_store.save_Some [OF assms])
  show "em_saveAccount (beside M) db a = None \<Longrightarrow> balanceMinor a < 0"
    by (simp add: entity_store.save_None [OF assms])
  show "mset (em_findEntries (beside M) db P) = mset (filter P ((entries \<circ> fst) db))"
    using entity_store.find_entries [OF assms, of "fst db" P] by simp
  show "\<exists>u t. (entries \<circ> fst) (em_insertEntry (beside M) db e) = (entries \<circ> fst) db @ [entry_of u t e]"
    using entity_store.insert_entries [OF assms, of "fst db" e] by simp
  show "em_findAccount (beside M) (em_insertEntry (beside M) db e) = em_findAccount (beside M) db"
    using entity_store.insert_accounts [OF assms, of "fst db" e] by simp
qed

definition loan_tables_repository :: "(tables \<times> loan list) loan_repository" where
  "loan_tables_repository =
     \<lparr>lr_insert = (\<lambda>(db, ls) la decision.
        (let l = loan_row (dbUuids db (dbUuidCount db)) (dbNow db) la decision in
         if find_row acc_id (la_accountId la) (accountRows db) = None \<or> 120 < length (la_applicantName la) \<or>
           80 < length (la_purpose la) then None
         else Some ((db\<lparr>dbUuidCount := Suc (dbUuidCount db)\<rparr>, ls @ [l]), l))),
      lr_find = (\<lambda>(db, ls) i. find_row loan_id i ls)\<rparr>"

interpretation loan_tables: loan_store "beside tables_manager" "entryRows \<circ> fst" loan_tables_repository snd
proof -
  show "loan_store (beside tables_manager) (entryRows \<circ> fst) loan_tables_repository snd"
    unfolding loan_store_def loan_store_axioms_def
    by (auto simp: loan_tables_repository_def Let_def intro: beside_store [OF tables_store]
        dest: find_row_in find_row_key split: if_splits)
qed

text \<open>
  C26: submitting a draft decides it once: it succeeds only for an existing draft whose application is
  valid and whose account exists; then exactly one application is stored, with the decision and the log
  of the desks, the draft is gone, one event is published and no account changes. A submission that
  fails changes nothing, so the draft can be corrected.
\<close>

theorem submit_decides_once:
  assumes "loan_store M entries L loans" "lp_manager d = M" "lp_repository d = L" "submit d e i s = (r, s')"
  shows "case r of
      Inl x \<Rightarrow> s' = s
    | Inr (l, instalment) \<Rightarrow> (\<exists>draft n la.
        caretaker_get i (lo_drafts s) = Inr (draft, n) \<and> application_of (draft_values draft) = Inr la \<and>
        em_findAccount M (ls_db (lo_ledger s)) (la_accountId la) \<noteq> None \<and>
        loans (ls_db (lo_ledger s')) = loans (ls_db (lo_ledger s)) @ [l] \<and>
        (loan_status l, loan_decisionLog l) = decide (lp_bureau d) (lp_pow d) la \<and> loan_accountId l = la_accountId la \<and>
        loan_amountMinor l = la_amountMinor la \<and>
        em_findAccount M (ls_db (lo_ledger s')) = em_findAccount M (ls_db (lo_ledger s)) \<and>
        map_of (lo_drafts s') i = None \<and> (\<forall>j. j \<noteq> i \<longrightarrow> map_of (lo_drafts s') j = map_of (lo_drafts s) j) \<and>
        ls_bus (lo_ledger s') = app_publish (createEvent e 0 LOAN_DECIDED (decided_payload l)) (ls_bus (lo_ledger s)))"
proof (cases r)
  case (Inl x)
  with assms(4) show ?thesis by (auto simp: submit_def Let_def split: sum.splits option.splits prod.splits)
next
  case (Inr y)
  obtain l instalment where y: "y = (l, instalment)" by (cases y)
  let ?db = "ls_db (lo_ledger s)"
  from assms(2-4) Inr y obtain draft n la db' where ok: "caretaker_get i (lo_drafts s) = Inr (draft, n)"
    "application_of (draft_values draft) = Inr la" "em_findAccount M ?db (la_accountId la) \<noteq> None"
    "lr_insert L ?db la (decide (lp_bureau d) (lp_pow d) la) = Some (db', l)"
    "s' = \<lparr>lo_ledger = emit e 0 LOAN_DECIDED (decided_payload l) ((lo_ledger s)\<lparr>ls_db := db'\<rparr>),
       lo_drafts = caretaker_remove i (lo_drafts s)\<rparr>"
    by (auto simp: submit_def Let_def result_simps split: sum.splits option.splits)
  have gone: "map_of (caretaker_remove i c) j = (if j = i then None else map_of c j)" for c j
    by (induction c) (auto simp: caretaker_remove_def)
  from loan_store.loan_insert [OF assms(1) ok(4)] obtain u t where
    l: "l = loan_row u t la (decide (lp_bureau d) (lp_pow d) la)" "loans db' = loans ?db @ [l]"
      "em_findAccount M db' = em_findAccount M ?db" by blast
  show ?thesis
    using ok l by (simp add: Inr y gone loan_row_def)
qed

definition sample_loans :: "(tables \<times> loan list) loans_state" where
  "sample_loans = \<lparr>lo_ledger = \<lparr>ls_db = (sample_db, []), ls_refs = \<lparr>sequence = 0, nodeTag = ''OCAL''\<rparr>, ls_bus = sample_bus\<rparr>,
     lo_drafts = sample_caretaker\<rparr>"

definition sample_loan_deps :: "(tables \<times> loan list) loans_deps" where
  "sample_loan_deps = \<lparr>lp_manager = beside tables_manager, lp_repository = loan_tables_repository, lp_bureau = getReport,
     lp_pow = (\<lambda>x n. dbl (x powi n))\<rparr>"

theorem submit_decides_once_witness:
  "\<exists>l instalment s'. submit sample_loan_deps sample_env ''d1'' sample_loans = (Inr (l, instalment), s') \<and>
     snd (ls_db (lo_ledger s')) = [l] \<and> map_of (lo_drafts s') ''d1'' = None \<and> loan_amountMinor l = 50000000"
proof -
  let ?d = "\<lparr>ld_id = ''d1'', ld_fields = sample_draft\<rparr>"
  have store: "loan_store (beside tables_manager) (entryRows \<circ> fst) loan_tables_repository snd"
    by (rule loan_tables.loan_store_axioms)
  have get: "caretaker_get ''d1'' (lo_drafts sample_loans) = Inr (?d, 0)"
    using sample_caretaker by (simp add: caretaker_get_def caretaker_entry_def sample_loans_def)
  then have get': "caretaker_get ''d1'' sample_caretaker = Inr (?d, 0)" by (simp add: sample_loans_def)
  have "fields_ok sample_draft" by (simp add: fields_ok_def sample_draft_def)
  then have vals: "draft_values ?d = sample_draft" by (simp add: draft_values_def spread_copy)
  have app: "application_of (draft_values ?d) = Inr \<lparr>la_applicantName = ''Ali Raza'', la_accountId = ''a'',
      la_amountMinor = 50000000, la_termMonths = 24, la_purpose = ''car'', la_monthlyIncomeMinor = 40000000,
      la_collateral = None, la_coApplicantName = None\<rparr>"
    unfolding vals by (simp add: sample_draft_def Let_def application_of_def text_field_def num_field_def
        forApplicant_def disbursedTo_def borrowing_def overMonths_def for_purpose_def earningMonthly_def new_loan_builder_def
        build_def builder_errors_def no_text_def not_positive_def undersecured_def amount_or_0_def LARGE_LOAN_MINOR_def
        js_trim_def is_space_def)
  obtain r s' where run: "submit sample_loan_deps sample_env ''d1'' sample_loans = (r, s')" by fastforce
  then have ok: "\<exists>y. r = Inr y"
    by (auto simp: submit_def get' app sample_loan_deps_def sample_loans_def findById_def loan_tables_repository_def Let_def)
  then obtain l instalment where r: "r = Inr (l, instalment)" by (metis surj_pair)
  have "lp_manager sample_loan_deps = beside tables_manager" "lp_repository sample_loan_deps = loan_tables_repository"
    by (simp_all add: sample_loan_deps_def)
  moreover have "snd (ls_db (lo_ledger sample_loans)) = []" by (simp add: sample_loans_def)
  ultimately show ?thesis
    using submit_decides_once [OF store _ _ run] run by (auto simp: r get app)
qed

end
