(* ===== verification/Fx.thy ===== *)
theory Fx
  imports Core
begin

text \<open>
  Exchange rates (\<open>src/src/modules/fx/exchange-rate.proxy.ts\<close>, \<open>src/src/modules/fx/fx.controller.ts\<close>):
  the external service, the caching and rate-limiting proxy in front of it, and the conversion.

  The interface \<open>ExchangeRateProvider\<close> is the locale \<open>exchange_rate_provider\<close>, with the state of the
  provider and an invariant of it; the external service satisfies it, and the proxy around any
  provider that satisfies it does. What a call reads from the clock, in the order it reads it, is the
  record \<open>fx_clock\<close>. Codes reach the service in upper case, so the table of rates is a plain map: no
  property that objects inherit has such a name.
\<close>

section \<open>The interface and the external service\<close>

record rate =
  rate_from :: string
  rate_to :: string
  rate_rate :: rat
  rate_asOf :: string

record fx_clock =
  fc_check :: int
  fc_limit :: int
  fc_call :: int
  fc_store :: int
  fc_iso :: string

type_synonym 'p rate_provider = "fx_clock \<Rightarrow> string \<Rightarrow> string \<Rightarrow> 'p \<Rightarrow> (err + rate) \<times> 'p"

definition PKR_PER_UNIT :: "(string \<times> rat) list" where
  "PKR_PER_UNIT = [(''PKR'', 1), (''USD'', dbl (2815 / 10)), (''EUR'', dbl (3052 / 10)), (''GBP'', dbl (3568 / 10)),
     (''AED'', dbl (766 / 10)), (''SAR'', 75)]"

text \<open>\<open>Number(x.toFixed(6))\<close>.\<close>

definition six_places :: "rat \<Rightarrow> rat" where
  "six_places x = dbl (of_int \<lfloor>x * 10 ^ 6 + 1 / 2\<rfloor> / 10 ^ 6)"

text \<open>The state of the external service is its counter of calls.\<close>

definition external_getRate :: "nat rate_provider" where
  "external_getRate c from to calls =
     (case (map_of PKR_PER_UNIT from, map_of PKR_PER_UNIT to) of
        (Some f, Some t) \<Rightarrow>
          (Inr \<lparr>rate_from = from, rate_to = to, rate_rate = six_places (dbl (f / t)), rate_asOf = fc_iso c\<rparr>, Suc calls)
      | _ \<Rightarrow> (Inl (BusinessRuleError (''No rate for '' @ from @ ''/'' @ to)), Suc calls))"

locale exchange_rate_provider =
  fixes get :: "'p rate_provider" and inv :: "'p \<Rightarrow> bool" and quotes :: "rate \<Rightarrow> bool"
  assumes get_inv: "inv p \<Longrightarrow> get c f t p = (r, p') \<Longrightarrow> inv p'"
    and get_quote: "inv p \<Longrightarrow> get c f t p = (Inr q, p') \<Longrightarrow> quotes q \<and> rate_from q = f \<and> rate_to q = t"
    and quote_codes: "quotes q \<Longrightarrow> CHR ''/'' \<notin> set (rate_from q) \<and> CHR ''/'' \<notin> set (rate_to q)"

section \<open>The proxy\<close>

datatype rate_source = FromCache | FromProvider | FromStaleCache

record cached_rate =
  cr_rate :: rate
  cr_storedAt :: int

record 'p fx_proxy =
  fp_real :: 'p
  fp_cache :: "(string \<times> cached_rate) list"
  fp_recentCalls :: "int list"
  fp_hits :: nat
  fp_misses :: nat
  fp_staleServed :: nat

definition new_proxy :: "'p \<Rightarrow> 'p fx_proxy" where
  "new_proxy svc = \<lparr>fp_real = svc, fp_cache = [], fp_recentCalls = [], fp_hits = 0, fp_misses = 0, fp_staleServed = 0\<rparr>"

definition pair_key :: "string \<Rightarrow> string \<Rightarrow> string" where
  "pair_key from to = from @ CHR ''/'' # to"

definition is_business_rule :: "err \<Rightarrow> bool" where
  "is_business_rule x = (case x of DomainError BusinessRule _ _ \<Rightarrow> True | _ \<Rightarrow> False)"

text \<open>\<open>enforceRateLimit\<close>: whether the call may go on, and the calls remembered.\<close>

definition enforceRateLimit :: "nat \<Rightarrow> fx_clock \<Rightarrow> int list \<Rightarrow> (err + unit) \<times> int list" where
  "enforceRateLimit maxCallsPerMinute c recentCalls = (let
     recent = filter (\<lambda>t. fc_limit c - 60000 < t) recentCalls
   in if maxCallsPerMinute \<le> length recent then (Inl (PlainError ''Rate limit reached''), recent)
      else (Inr (), recent @ [fc_call c]))"

definition ask_provider ::
  "'p rate_provider \<Rightarrow> nat \<Rightarrow> fx_clock \<Rightarrow> string \<Rightarrow> string \<Rightarrow> 'p fx_proxy \<Rightarrow> (err + rate) \<times> 'p fx_proxy" where
  "ask_provider svc maxCalls c from to p = (case enforceRateLimit maxCalls c (fp_recentCalls p) of
     (Inl x, recent) \<Rightarrow> (Inl x, p\<lparr>fp_recentCalls := recent\<rparr>)
   | (Inr _, recent) \<Rightarrow>
       (case svc c from to (fp_real p) of
          (Inl x, q) \<Rightarrow> (Inl x, p\<lparr>fp_recentCalls := recent, fp_real := q\<rparr>)
        | (Inr rate, q) \<Rightarrow>
            (Inr rate, p\<lparr>fp_recentCalls := recent, fp_real := q,
               fp_cache := map_set (pair_key from to) \<lparr>cr_rate = rate, cr_storedAt = fc_store c\<rparr> (fp_cache p)\<rparr>)))"

definition proxy_getRate ::
  "'p rate_provider \<Rightarrow> int \<Rightarrow> nat \<Rightarrow> fx_clock \<Rightarrow> string \<Rightarrow> string \<Rightarrow> 'p fx_proxy \<Rightarrow> (err + (rate \<times> rate_source)) \<times> 'p fx_proxy" where
  "proxy_getRate svc ttlMs maxCalls c from to p = (let cached = map_of (fp_cache p) (pair_key from to) in
     case cached of
       Some e \<Rightarrow>
         if fc_check c - cr_storedAt e < ttlMs then (Inr (cr_rate e, FromCache), p\<lparr>fp_hits := Suc (fp_hits p)\<rparr>)
         else (case ask_provider svc maxCalls c from to (p\<lparr>fp_misses := Suc (fp_misses p)\<rparr>) of
             (Inr rate, p') \<Rightarrow> (Inr (rate, FromProvider), p')
           | (Inl x, p') \<Rightarrow>
               if is_business_rule x then (Inl x, p')
               else (Inr (cr_rate e, FromStaleCache), p'\<lparr>fp_staleServed := Suc (fp_staleServed p')\<rparr>))
     | None \<Rightarrow>
         (case ask_provider svc maxCalls c from to (p\<lparr>fp_misses := Suc (fp_misses p)\<rparr>) of
             (Inr rate, p') \<Rightarrow> (Inr (rate, FromProvider), p')
           | (Inl x, p') \<Rightarrow>
               if is_business_rule x then (Inl x, p')
               else (Inl (DependencyUnavailableError ''Exchange rate provider unavailable''), p')))"

text \<open>The application's proxy: one minute of cache, thirty calls a minute.\<close>

definition app_getRate :: "fx_clock \<Rightarrow> string \<Rightarrow> string \<Rightarrow> nat fx_proxy \<Rightarrow> (err + (rate \<times> rate_source)) \<times> nat fx_proxy" where
  "app_getRate = proxy_getRate external_getRate 60000 30"

section \<open>The conversion\<close>

record conversion =
  cn_rate :: rate
  cn_source :: rate_source
  cn_amount :: string
  cn_converted :: string
  cn_convertedMinor :: int

definition convert ::
  "(rat \<Rightarrow> nat \<Rightarrow> string) \<Rightarrow> fx_clock \<Rightarrow> string \<Rightarrow> string \<Rightarrow> int \<Rightarrow> nat fx_proxy \<times> currency_pool \<Rightarrow>
     (err + conversion) \<times> nat fx_proxy \<times> currency_pool" where
  "convert loc c from to amountMinor s =
     (case app_getRate c (toUpperCase from) (toUpperCase to) (fst s) of
        (Inl x, p) \<Rightarrow> (Inl x, p, snd s)
      | (Inr (rate, source), p) \<Rightarrow> (let
          convertedMinor = math_round (dbl (of_int amountMinor * rate_rate rate))
        in case registry_get (rate_from rate) (snd s) of
             (Inl x, pool) \<Rightarrow> (Inl x, p, pool)
           | (Inr cf, pool1) \<Rightarrow>
               (case registry_get (rate_to rate) pool1 of
                  (Inl x, pool2) \<Rightarrow> (Inl x, p, pool2)
                | (Inr ct, pool2) \<Rightarrow>
                    (Inr \<lparr>cn_rate = rate, cn_source = source, cn_amount = currency_format loc cf amountMinor,
                          cn_converted = currency_format loc ct convertedMinor, cn_convertedMinor = convertedMinor\<rparr>,
                     p, pool2))))"

section \<open>The proxy is a provider\<close>

text \<open>A rate the external service quotes: that of its table for the two codes.\<close>

definition listed :: "rate \<Rightarrow> bool" where
  "listed q \<longleftrightarrow> (case (map_of PKR_PER_UNIT (rate_from q), map_of PKR_PER_UNIT (rate_to q)) of
     (Some f, Some t) \<Rightarrow> rate_rate q = six_places (dbl (f / t)) | _ \<Rightarrow> False)"

interpretation external: exchange_rate_provider external_getRate "\<lambda>_. True" listed
proof
  fix c f t p p' q
  show "external_getRate c f t p = (Inr q, p') \<Longrightarrow> listed q \<and> rate_from q = f \<and> rate_to q = t"
    by (auto simp: external_getRate_def listed_def split: option.splits)
  show "listed q \<Longrightarrow> CHR ''/'' \<notin> set (rate_from q) \<and> CHR ''/'' \<notin> set (rate_to q)"
    by (auto simp: listed_def PKR_PER_UNIT_def split: option.splits if_splits)
qed

lemma pair_key_inj:
  assumes "pair_key f t = pair_key f' t'" "CHR ''/'' \<notin> set f" "CHR ''/'' \<notin> set t"
  shows "f' = f \<and> t' = t"
proof -
  have "js_split CHR ''/'' f' @ js_split CHR ''/'' t' = [f, t]"
  proof -
    have "js_split CHR ''/'' (pair_key f t) = [f, t]"
      using assms(2,3) unfolding pair_key_def js_split_append by (simp add: js_split_single)
    then show ?thesis unfolding assms(1) unfolding pair_key_def js_split_append .
  qed
  then have "js_split CHR ''/'' f' = [f] \<and> js_split CHR ''/'' t' = [t]"
    by (cases "js_split CHR ''/'' f'"; cases "js_split CHR ''/'' t'") (auto simp: append_eq_Cons_conv Cons_eq_append_conv)
  then show ?thesis by (metis js_join_split js_join.simps(2))
qed

context exchange_rate_provider
begin

text \<open>What is cached under a key is a quote for the pair of that key.\<close>

definition cache_ok :: "'p fx_proxy \<Rightarrow> bool" where
  "cache_ok p \<longleftrightarrow> inv (fp_real p) \<and> (\<forall>k e. map_of (fp_cache p) k = Some e \<longrightarrow>
     quotes (cr_rate e) \<and> k = pair_key (rate_from (cr_rate e)) (rate_to (cr_rate e)))"

lemma cached_pair:
  assumes "cache_ok p" "map_of (fp_cache p) (pair_key f t) = Some e"
  shows "quotes (cr_rate e) \<and> rate_from (cr_rate e) = f \<and> rate_to (cr_rate e) = t"
  using assms pair_key_inj [of "rate_from (cr_rate e)" "rate_to (cr_rate e)" f t] quote_codes [of "cr_rate e"]
  by (auto simp: cache_ok_def)

lemma ask_provider_ok:
  assumes "cache_ok p" "ask_provider get n c f t p = (r, p')"
  shows "cache_ok p' \<and> (\<forall>q. r = Inr q \<longrightarrow> quotes q \<and> rate_from q = f \<and> rate_to q = t)"
  using assms get_inv [of "fp_real p" c f t] get_quote [of "fp_real p" c f t]
  by (auto simp: ask_provider_def cache_ok_def map_of_map_set split: prod.splits sum.splits if_splits)

lemma proxy_ok:
  assumes "cache_ok p" "proxy_getRate get ttl n c f t p = (r, p')"
  shows "cache_ok p' \<and> (\<forall>q src. r = Inr (q, src) \<longrightarrow> quotes q \<and> rate_from q = f \<and> rate_to q = t)"
proof -
  have keep: "cache_ok (p\<lparr>fp_hits := a\<rparr>)" "cache_ok (p\<lparr>fp_misses := a\<rparr>)" for a
    using assms(1) by (simp_all add: cache_ok_def)
  have stale: "cache_ok q \<Longrightarrow> cache_ok (q\<lparr>fp_staleServed := a\<rparr>)" for q a by (simp add: cache_ok_def)
  obtain x p1 where ask: "ask_provider get n c f t (p\<lparr>fp_misses := Suc (fp_misses p)\<rparr>) = (x, p1)" by fastforce
  note ok = ask_provider_ok [OF keep(2) ask]
  show ?thesis
  proof (cases "map_of (fp_cache p) (pair_key f t)")
    case None
    with assms(2) ok show ?thesis
      by (cases x) (auto simp: proxy_getRate_def ask split: if_splits)
  next
    case (Some e)
    with assms(2) ok cached_pair [OF assms(1) Some] keep(1) stale show ?thesis
      by (cases x) (auto simp: proxy_getRate_def ask split: if_splits)
  qed
qed

end

definition proxy_provider :: "'p rate_provider \<Rightarrow> int \<Rightarrow> nat \<Rightarrow> 'p fx_proxy rate_provider" where
  "proxy_provider svc ttl n c f t p = (case proxy_getRate svc ttl n c f t p of (r, p') \<Rightarrow> (ebind r (\<lambda>(q, _). Inr q), p'))"

interpretation app_proxy: exchange_rate_provider "proxy_provider external_getRate 60000 30" external.cache_ok listed
proof
  fix p p' c f t r q
  assume "external.cache_ok p"
  then show "proxy_provider external_getRate 60000 30 c f t p = (r, p') \<Longrightarrow> external.cache_ok p'"
    "proxy_provider external_getRate 60000 30 c f t p = (Inr q, p') \<Longrightarrow> listed q \<and> rate_from q = f \<and> rate_to q = t"
    using external.proxy_ok [of p 60000 30 c f t]
    by (auto simp: proxy_provider_def result_simps split: prod.splits)
next
  fix q
  show "listed q \<Longrightarrow> CHR ''/'' \<notin> set (rate_from q) \<and> CHR ''/'' \<notin> set (rate_to q)"
    by (rule external.quote_codes)
qed

section \<open>Sequences of requests\<close>

type_synonym fx_request = "fx_clock \<times> string \<times> string"

fun fx_run :: "fx_request list \<Rightarrow> nat fx_proxy \<Rightarrow> nat fx_proxy" where
  "fx_run [] p = p"
| "fx_run ((c, f, t) # rs) p = fx_run rs (snd (app_getRate c f t p))"

text \<open>The times of the calls that reached the external service.\<close>

fun call_times :: "fx_request list \<Rightarrow> nat fx_proxy \<Rightarrow> int list" where
  "call_times [] p = []"
| "call_times ((c, f, t) # rs) p =
     (if fp_real (snd (app_getRate c f t p)) = fp_real p then [] else [fc_call c]) @
     call_times rs (snd (app_getRate c f t p))"

text \<open>The clock does not run backwards.\<close>

fun clock_ok :: "int \<Rightarrow> fx_request list \<Rightarrow> bool" where
  "clock_ok now [] = True"
| "clock_ok now ((c, f, t) # rs) =
     (now \<le> fc_check c \<and> fc_check c \<le> fc_limit c \<and> fc_limit c \<le> fc_call c \<and> fc_call c \<le> fc_store c \<and>
      clock_ok (fc_store c) rs)"

lemma cache_ok_new: "external.cache_ok (new_proxy 0)"
  by (simp add: external.cache_ok_def new_proxy_def)

lemma fx_run_ok: "external.cache_ok p \<Longrightarrow> external.cache_ok (fx_run rs p)"
proof (induction rs arbitrary: p)
  case (Cons x rs)
  obtain c f t where x: "x = (c, f, t)" by (cases x)
  have "external.cache_ok (snd (app_getRate c f t p))"
    using external.proxy_ok [OF Cons.prems, of 60000 30 c f t] by (simp add: app_getRate_def prod_eq_iff)
  with Cons.IH x show ?case by simp
qed simp

text \<open>A request either leaves the limiter alone, is refused by it, or makes one call.\<close>

lemma app_getRate_calls:
  obtains "fp_real (snd (app_getRate c f t p)) = fp_real p" "fp_recentCalls (snd (app_getRate c f t p)) = fp_recentCalls p"
  | "fp_real (snd (app_getRate c f t p)) = fp_real p"
    "fp_recentCalls (snd (app_getRate c f t p)) = filter (\<lambda>t. fc_limit c - 60000 < t) (fp_recentCalls p)"
  | "fp_real (snd (app_getRate c f t p)) = Suc (fp_real p)"
    "length (filter (\<lambda>t. fc_limit c - 60000 < t) (fp_recentCalls p)) < 30"
    "fp_recentCalls (snd (app_getRate c f t p)) = filter (\<lambda>t. fc_limit c - 60000 < t) (fp_recentCalls p) @ [fc_call c]"
proof -
  let ?p = "p\<lparr>fp_misses := Suc (fp_misses p)\<rparr>"
  obtain x p1 where ask: "ask_provider external_getRate 30 c f t ?p = (x, p1)" by fastforce
  have "snd (app_getRate c f t p) = p\<lparr>fp_hits := Suc (fp_hits p)\<rparr> \<or>
      fp_real (snd (app_getRate c f t p)) = fp_real p1 \<and> fp_recentCalls (snd (app_getRate c f t p)) = fp_recentCalls p1"
    by (cases x; cases "map_of (fp_cache p) (pair_key f t)") (simp_all add: app_getRate_def proxy_getRate_def ask)
  then consider (hit) "snd (app_getRate c f t p) = p\<lparr>fp_hits := Suc (fp_hits p)\<rparr>"
    | (asked) "fp_real (snd (app_getRate c f t p)) = fp_real p1" "fp_recentCalls (snd (app_getRate c f t p)) = fp_recentCalls p1"
    by blast
  then show thesis
  proof cases
    case hit
    then show thesis by (intro that(1)) simp_all
  next
    case asked
    show thesis
    proof (cases "length (filter (\<lambda>t. fc_limit c - 60000 < t) (fp_recentCalls p)) < 30")
      case True
      then have "fp_real p1 = Suc (fp_real p) \<and> fp_recentCalls p1 = filter (\<lambda>t. fc_limit c - 60000 < t) (fp_recentCalls p) @ [fc_call c]"
        using ask by (auto simp: ask_provider_def enforceRateLimit_def external_getRate_def Let_def split: option.splits)
      with asked True show thesis by (intro that(3)) simp_all
    next
      case False
      then have "fp_real p1 = fp_real p \<and> fp_recentCalls p1 = filter (\<lambda>t. fc_limit c - 60000 < t) (fp_recentCalls p)"
        using ask by (auto simp: ask_provider_def enforceRateLimit_def Let_def)
      with asked show thesis by (intro that(2)) simp_all
    qed
  qed
qed

section \<open>The rate limit\<close>

definition in_window :: "int \<Rightarrow> int list \<Rightarrow> int list" where
  "in_window w ts = filter (\<lambda>t. w - 60000 < t \<and> t \<le> w) ts"

text \<open>
  What the limiter remembers, against all calls made so far: from now on nothing it forgot is within
  a minute.
\<close>

definition limiter_ok :: "int \<Rightarrow> int list \<Rightarrow> nat fx_proxy \<Rightarrow> bool" where
  "limiter_ok now made p \<longleftrightarrow> (\<forall>t \<in> set made. t \<le> now) \<and>
     (\<forall>w \<ge> now. filter (\<lambda>t. w - 60000 < t) (fp_recentCalls p) = filter (\<lambda>t. w - 60000 < t) made) \<and>
     (\<forall>w. length (in_window w made) \<le> 30)"

lemma limiter_later: "limiter_ok now made p \<Longrightarrow> now \<le> now' \<Longrightarrow> limiter_ok now' made p"
  unfolding limiter_ok_def by (meson order_trans)

lemma filter_twice: "v \<le> w \<Longrightarrow> filter (\<lambda>t. w - 60000 < t) (filter (\<lambda>t :: int. v - 60000 < t) ts) = filter (\<lambda>t. w - 60000 < t) ts"
  by (auto intro: filter_cong)

lemma limiter_call:
  assumes ok: "limiter_ok l made p" and n: "length (filter (\<lambda>t. l - 60000 < t) (fp_recentCalls p)) < 30" and le: "l \<le> c"
    and q: "fp_recentCalls q = filter (\<lambda>t. l - 60000 < t) (fp_recentCalls p) @ [c]"
  shows "limiter_ok c (made @ [c]) q"
proof -
  have old: "filter (\<lambda>t. w - 60000 < t) (fp_recentCalls p) = filter (\<lambda>t. w - 60000 < t) made" if "l \<le> w" for w
    using ok that by (simp add: limiter_ok_def)
  have small: "length (in_window w made) < 30" if "l \<le> w" for w
  proof -
    have "in_window w made = filter (\<lambda>t. t \<le> w) (filter (\<lambda>t. w - 60000 < t) (filter (\<lambda>t. l - 60000 < t) made))"
      unfolding filter_twice [OF that] by (simp add: in_window_def conj_commute)
    also have "length \<dots> \<le> length (filter (\<lambda>t. l - 60000 < t) made)"
      by (meson length_filter_le order_trans)
    finally show ?thesis using n old [of l] by simp
  qed
  have "length (in_window w (made @ [c])) \<le> 30" for w
    using small [of w] ok le by (cases "l \<le> w") (auto simp: limiter_ok_def in_window_def)
  moreover have "filter (\<lambda>t. w - 60000 < t) (fp_recentCalls q) = filter (\<lambda>t. w - 60000 < t) (made @ [c])" if "c \<le> w" for w
    using old [of w] le that filter_twice [of l w "fp_recentCalls p"] by (simp add: q)
  ultimately show ?thesis using ok le by (force simp: limiter_ok_def)
qed

lemma calls_limited:
  "limiter_ok now made p \<Longrightarrow> clock_ok now rs \<Longrightarrow> length (in_window w (made @ call_times rs p)) \<le> 30"
proof (induction rs arbitrary: now made p)
  case Nil
  then show ?case by (simp add: limiter_ok_def)
next
  case (Cons x rs)
  obtain c f t where x: "x = (c, f, t)" by (cases x)
  let ?q = "snd (app_getRate c f t p)"
  from Cons.prems(2) x have clock: "now \<le> fc_limit c" "fc_limit c \<le> fc_call c" "fc_call c \<le> fc_store c" "clock_ok (fc_store c) rs"
    by simp_all
  have ok: "limiter_ok (fc_limit c) made p" by (rule limiter_later [OF Cons.prems(1) clock(1)])
  show ?case
  proof (rule app_getRate_calls [of c f t p])
    assume q: "fp_real ?q = fp_real p" "fp_recentCalls ?q = fp_recentCalls p"
    have "limiter_ok (fc_store c) made ?q"
      using limiter_later [OF ok, of "fc_store c"] clock q(2) by (simp add: limiter_ok_def)
    from Cons.IH [OF this clock(4)] show ?case by (simp add: x q(1))
  next
    assume q: "fp_real ?q = fp_real p" "fp_recentCalls ?q = filter (\<lambda>t. fc_limit c - 60000 < t) (fp_recentCalls p)"
    have "limiter_ok (fc_limit c) made ?q"
      using ok unfolding limiter_ok_def q(2) by (simp add: filter_twice del: filter_filter)
    from limiter_later [OF this, of "fc_store c"] clock have "limiter_ok (fc_store c) made ?q" by simp
    from Cons.IH [OF this clock(4)] show ?case by (simp add: x q(1))
  next
    assume q: "fp_real ?q = Suc (fp_real p)" "length (filter (\<lambda>t. fc_limit c - 60000 < t) (fp_recentCalls p)) < 30"
      "fp_recentCalls ?q = filter (\<lambda>t. fc_limit c - 60000 < t) (fp_recentCalls p) @ [fc_call c]"
    from limiter_later [OF limiter_call [OF ok q(2) clock(2) q(3)] clock(3)]
    have "limiter_ok (fc_store c) (made @ [fc_call c]) ?q" .
    from Cons.IH [OF this clock(4)] show ?case by (simp add: x q(1))
  qed
qed

text \<open>
  C28: the provider is protected: whatever the requests, as long as the clock does not run backwards,
  at most thirty calls reach the external service within any minute.
\<close>

theorem provider_calls_limited:
  assumes "clock_ok now requests"
  shows "length (filter (\<lambda>t. w - 60000 < t \<and> t \<le> w) (call_times requests (new_proxy 0))) \<le> 30"
proof -
  have "limiter_ok now [] (new_proxy 0)" by (simp add: limiter_ok_def new_proxy_def in_window_def)
  from calls_limited [OF this assms, of w] show ?thesis by (simp add: in_window_def)
qed

text \<open>
  The proxy answers with the provider's rates: after any requests, an answer for a pair is the
  listed rate of exactly that pair, whether it comes from the cache or not; an answer from the cache is
  less than a minute old; and a request fails only because there is no such rate, or, with nothing
  cached for the pair, because the limit is reached.
\<close>

theorem proxy_answers:
  "case app_getRate c a b (fx_run requests (new_proxy 0)) of
     (Inr (q, source), p') \<Rightarrow> rate_from q = a \<and> rate_to q = b \<and> listed q \<and>
       (source = FromCache \<longrightarrow> (\<exists>e. map_of (fp_cache (fx_run requests (new_proxy 0))) (pair_key a b) = Some e \<and>
          cr_rate e = q \<and> fc_check c - cr_storedAt e < 60000))
   | (Inl x, p') \<Rightarrow> x = BusinessRuleError (''No rate for '' @ a @ ''/'' @ b) \<or>
       x = DependencyUnavailableError ''Exchange rate provider unavailable'' \<and>
       map_of (fp_cache (fx_run requests (new_proxy 0))) (pair_key a b) = None"
proof -
  let ?p = "fx_run requests (new_proxy 0)"
  have ok: "external.cache_ok ?p" by (rule fx_run_ok [OF cache_ok_new])
  obtain r p' where run: "app_getRate c a b ?p = (r, p')" by fastforce
  have pair: "\<forall>q src. r = Inr (q, src) \<longrightarrow> listed q \<and> rate_from q = a \<and> rate_to q = b"
    using external.proxy_ok [OF ok, of 60000 30 c a b r p'] run by (simp add: app_getRate_def)
  obtain x p1 where ask: "ask_provider external_getRate 30 c a b (?p\<lparr>fp_misses := Suc (fp_misses ?p)\<rparr>) = (x, p1)"
    by fastforce
  have err: "y = BusinessRuleError (''No rate for '' @ a @ ''/'' @ b) \<or> \<not> is_business_rule y" if "x = Inl y" for y
    using ask that
    by (auto simp: ask_provider_def enforceRateLimit_def external_getRate_def is_business_rule_def Let_def
        split: if_splits option.splits)
  show ?thesis
    using run pair err
    by (cases x; cases "map_of (fp_cache ?p) (pair_key a b)")
      (auto simp: app_getRate_def proxy_getRate_def ask split: if_splits)
qed

definition sample_clock :: "int \<Rightarrow> fx_clock" where
  "sample_clock t = \<lparr>fc_check = t, fc_limit = t, fc_call = t, fc_store = t + 300, fc_iso = ''2026-01-02T10:00:00.000Z''\<rparr>"

theorem provider_calls_limited_witness:
  "length (filter (\<lambda>t. 1000 - 60000 < t \<and> t \<le> 1000)
     (call_times [(sample_clock 0, ''USD'', ''PKR''), (sample_clock 500, ''EUR'', ''PKR'')] (new_proxy 0))) \<le> 30"
  by (rule provider_calls_limited [of 0]) (simp add: sample_clock_def)

theorem proxy_answers_witness:
  "\<exists>q source p'. app_getRate (sample_clock 0) ''USD'' ''PKR'' (fx_run [] (new_proxy 0)) = (Inr (q, source), p') \<and>
     listed q \<and> rate_from q = ''USD''"
proof -
  have "is_ok (fst (app_getRate (sample_clock 0) ''USD'' ''PKR'' (fx_run [] (new_proxy 0))))"
    by (simp add: app_getRate_def proxy_getRate_def new_proxy_def ask_provider_def enforceRateLimit_def
        external_getRate_def PKR_PER_UNIT_def)
  then obtain q source p' where run: "app_getRate (sample_clock 0) ''USD'' ''PKR'' (fx_run [] (new_proxy 0)) = (Inr (q, source), p')"
    by (cases "app_getRate (sample_clock 0) ''USD'' ''PKR'' (fx_run [] (new_proxy 0))"; cases "fst (app_getRate (sample_clock 0) ''USD'' ''PKR'' (fx_run [] (new_proxy 0)))") auto
  show ?thesis
    using proxy_answers [where c = "sample_clock 0" and a = "''USD''" and b = "''PKR''" and requests = "[]"] unfolding run by (auto simp del: fx_run.simps)
qed

end
