(* ===== verification/Payments.thy ===== *)
theory Payments
  imports Accounts
begin

text \<open>
  Outbound payments (\<open>src/src/modules/payments/payment-rail.abstract-factory.ts\<close>,
  \<open>src/src/modules/payments/payments.controller.ts\<close>): two families of a validator, a fee calculator
  and a message formatter, and the quote that uses one of them.

  A family is the record \<open>payment_rail\<close> of its three products; the interface of a family is the locale
  \<open>rail_family\<close>. A regular expression that is a sequence of character classes is a list of predicates.
\<close>

section \<open>Text helpers of the platform\<close>

definition is_upper :: "char \<Rightarrow> bool" where
  "is_upper c \<longleftrightarrow> 65 \<le> (of_char c :: nat) \<and> (of_char c :: nat) \<le> 90"

definition matches :: "(char \<Rightarrow> bool) list \<Rightarrow> string \<Rightarrow> bool" where
  "matches classes s \<longleftrightarrow> list_all2 (\<lambda>p c. p c) classes s"

definition json_object :: "(string \<times> string) list \<Rightarrow> string" where
  "json_object kvs = ''{'' @ js_join '','' (map (\<lambda>(k, v). json_string k @ '':'' @ json_string v) kvs) @ ''}''"

section \<open>The families\<close>

record outbound_payment =
  op_amountMinor :: int
  op_currency :: string
  op_beneficiaryName :: string
  op_beneficiaryIban :: string
  op_beneficiaryBic :: "string option"
  op_purpose :: "string option"

datatype rail_name = RAAST | SWIFT

record payment_rail =
  pr_rail :: rail_name
  pr_settlementTime :: string
  pr_validate :: "outbound_payment \<Rightarrow> string list"
  pr_feeMinor :: "outbound_payment \<Rightarrow> int"
  pr_format :: "env \<Rightarrow> outbound_payment \<Rightarrow> string \<Rightarrow> string"

definition pakistani_iban :: "string \<Rightarrow> bool" where
  "pakistani_iban s \<longleftrightarrow>
     matches ([\<lambda>c. c = CHR ''P'', \<lambda>c. c = CHR ''K''] @ replicate 2 is_digit @ replicate 4 is_upper @ replicate 16 is_digit) s"

definition raast_validate :: "outbound_payment \<Rightarrow> string list" where
  "raast_validate p =
     (if op_currency p \<noteq> ''PKR'' then [''RAAST only supports PKR''] else []) @
     (if \<not> pakistani_iban (op_beneficiaryIban p) then [''Beneficiary must be a valid Pakistani IBAN (24 characters)''] else []) @
     (if 100000000 < op_amountMinor p then [''RAAST limit is Rs 1,000,000 per payment''] else [])"

definition raast_feeMinor :: "outbound_payment \<Rightarrow> int" where
  "raast_feeMinor p = 0"

definition amount_text :: "int \<Rightarrow> string" where
  "amount_text amountMinor = toFixed 2 (dbl (of_int amountMinor / 100))"

definition raast_format :: "env \<Rightarrow> outbound_payment \<Rightarrow> string \<Rightarrow> string" where
  "raast_format e p reference = json_object
     [(''scheme'', ''RAAST''), (''msgId'', reference), (''amount'', amount_text (op_amountMinor p)),
      (''cdtrIban'', op_beneficiaryIban p), (''cdtrName'', op_beneficiaryName p)]"

definition RaastPaymentFactory :: payment_rail where
  "RaastPaymentFactory = \<lparr>pr_rail = RAAST, pr_settlementTime = ''Instant (seconds)'', pr_validate = raast_validate,
     pr_feeMinor = raast_feeMinor, pr_format = raast_format\<rparr>"

definition bic_ok :: "string \<Rightarrow> bool" where
  "bic_ok s \<longleftrightarrow> matches (replicate 6 is_upper @ replicate 2 is_upper_alnum) s \<or>
     matches (replicate 6 is_upper @ replicate 5 is_upper_alnum) s"

definition iban_ok :: "string \<Rightarrow> bool" where
  "iban_ok s \<longleftrightarrow> list_ex (\<lambda>n. matches (replicate 2 is_upper @ replicate 2 is_digit @ replicate n is_upper_alnum) s) [10..<31]"

definition missing :: "string option \<Rightarrow> bool" where
  "missing m \<longleftrightarrow> m = None \<or> m = Some []"

definition swift_validate :: "outbound_payment \<Rightarrow> string list" where
  "swift_validate p =
     (if missing (op_beneficiaryBic p) \<or> \<not> bic_ok (the (op_beneficiaryBic p)) then [''A valid BIC/SWIFT code is required''] else []) @
     (if \<not> iban_ok (op_beneficiaryIban p) then [''Beneficiary IBAN format is invalid''] else []) @
     (if missing (op_purpose p) then [''Purpose of payment is mandatory for international transfers''] else [])"

definition swift_feeMinor :: "outbound_payment \<Rightarrow> int" where
  "swift_feeMinor p = 250000 + math_round (dbl (of_int (op_amountMinor p) * dbl (1 / 1000)))"

text \<open>\<open>s.replace('.', ',')\<close>: the first occurrence.\<close>

fun replace_first :: "char \<Rightarrow> char \<Rightarrow> string \<Rightarrow> string" where
  "replace_first a b [] = []"
| "replace_first a b (c # s) = (if c = a then b # s else c # replace_first a b s)"

definition or_undefined :: "string option \<Rightarrow> string" where
  "or_undefined m = (case m of None \<Rightarrow> ''undefined'' | Some s \<Rightarrow> s)"

definition swift_lines :: "env \<Rightarrow> outbound_payment \<Rightarrow> string \<Rightarrow> string list" where
  "swift_lines e p reference =
     ['':20:'' @ reference,
      '':32A:'' @ filter (\<lambda>c. c \<noteq> CHR ''-'') (take 8 (drop 2 (isoNow e))) @ op_currency p @
        replace_first CHR ''.'' CHR '','' (amount_text (op_amountMinor p)),
      '':57A:'' @ or_undefined (op_beneficiaryBic p),
      '':59:/'' @ op_beneficiaryIban p,
      op_beneficiaryName p,
      '':70:'' @ or_undefined (op_purpose p)]"

definition swift_format :: "env \<Rightarrow> outbound_payment \<Rightarrow> string \<Rightarrow> string" where
  "swift_format e p reference = js_join [CHR 0x0A] (swift_lines e p reference)"

definition SwiftPaymentFactory :: payment_rail where
  "SwiftPaymentFactory = \<lparr>pr_rail = SWIFT, pr_settlementTime = ''1-3 business days'', pr_validate = swift_validate,
     pr_feeMinor = swift_feeMinor, pr_format = swift_format\<rparr>"

fun railFactoryFor :: "rail_name \<Rightarrow> payment_rail" where
  "railFactoryFor RAAST = RaastPaymentFactory"
| "railFactoryFor SWIFT = SwiftPaymentFactory"

section \<open>The quote\<close>

datatype payment_quote =
  InvalidPayment rail_name "string list"
| ValidPayment rail_name int string string

definition quotePayment :: "payment_rail \<Rightarrow> env \<Rightarrow> outbound_payment \<Rightarrow> string \<Rightarrow> payment_quote" where
  "quotePayment factory e p reference = (let errors = pr_validate factory p in
     if errors \<noteq> [] then InvalidPayment (pr_rail factory) errors
     else ValidPayment (pr_rail factory) (pr_feeMinor factory p) (pr_settlementTime factory) (pr_format factory e p reference))"

definition quote :: "rail_name \<Rightarrow> env \<Rightarrow> outbound_payment \<Rightarrow> refgen \<Rightarrow> payment_quote \<times> refgen" where
  "quote rail e p g = (let (reference, g') = next_reference ''PAY'' e g in
     (quotePayment (railFactoryFor rail) e p reference, g'))"

section \<open>The interface of a family\<close>

text \<open>
  What a client may rely on, whatever the rail: the fee of a payment is not negative and does not fall
  when the amount grows.
\<close>

locale rail_family =
  fixes F :: payment_rail
  assumes fee_nonneg: "0 \<le> op_amountMinor p \<Longrightarrow> 0 \<le> pr_feeMinor F p"
    and fee_mono: "op_amountMinor p \<le> op_amountMinor q \<Longrightarrow> pr_feeMinor F p \<le> pr_feeMinor F q"
begin

lemma quote_fee:
  "quotePayment F e p ref = ValidPayment r fee t m \<Longrightarrow> 0 \<le> op_amountMinor p \<Longrightarrow> 0 \<le> fee \<and> fee = pr_feeMinor F p"
  using fee_nonneg [of p] by (auto simp: quotePayment_def Let_def split: if_splits)

end

interpretation raast: rail_family RaastPaymentFactory
  by unfold_locales (simp_all add: RaastPaymentFactory_def raast_feeMinor_def)

interpretation swift: rail_family SwiftPaymentFactory
proof
  have milli: "0 \<le> dbl (1 / 1000)" by (rule dbl_nonneg) simp
  have mono: "math_round (dbl (of_int a * dbl (1 / 1000))) \<le> math_round (dbl (of_int b * dbl (1 / 1000)))" if "a \<le> b" for a b :: int
    using that milli by (intro math_round_mono dbl_mono mult_right_mono) simp_all
  fix p q
  show "op_amountMinor p \<le> op_amountMinor q \<Longrightarrow> pr_feeMinor SwiftPaymentFactory p \<le> pr_feeMinor SwiftPaymentFactory q"
    using mono [of "op_amountMinor p" "op_amountMinor q"] by (simp add: SwiftPaymentFactory_def swift_feeMinor_def)
  have "math_round 0 = 0" using math_round_near [of 0 0] by simp
  then show "0 \<le> op_amountMinor p \<Longrightarrow> 0 \<le> pr_feeMinor SwiftPaymentFactory p"
    using mono [of 0 "op_amountMinor p"] by (simp add: SwiftPaymentFactory_def swift_feeMinor_def)
qed

lemma rail_contract: "rail_family (railFactoryFor r)"
  by (cases r) (simp_all add: raast.rail_family_axioms swift.rail_family_axioms)

section \<open>What a quote guarantees\<close>

lemma upper_alnum_no_newline: "is_upper c \<or> is_digit c \<or> is_upper_alnum c \<Longrightarrow> c \<noteq> CHR 0x0A"
  by (auto simp: is_upper_def is_digit_def is_upper_alnum_def)

lemma matches_all: "matches cs s \<Longrightarrow> (\<And>p c. p \<in> set cs \<Longrightarrow> p c \<Longrightarrow> Q c) \<Longrightarrow> \<forall>c \<in> set s. Q c"
  unfolding matches_def by (induction cs s rule: list_all2_induct) auto

lemma matches_append: "matches as s \<Longrightarrow> matches bs t \<Longrightarrow> matches (as @ bs) (s @ t)"
  by (simp add: matches_def list_all2_appendI)

text \<open>
  The fee: the double product is within a two-thousandth of a thousandth of the amount and never below
  it, so rounding it gives the amount divided by a thousand, half up.
\<close>

lemma milli_low: "1 / 1000 \<le> dbl (1 / 1000)"
  by code_simp

lemma milli_bounds: "1 / 1000 \<le> dbl (1 / 1000)" "dbl (1 / 1000) \<le> 1 / 1000 * (1 + 1 / 2 ^ 53)"
  using dbl_error [of "1 / 1000"] milli_low by (simp_all add: abs_le_iff)

lemma dbl_half: "\<bar>n\<bar> < 2 ^ 53 \<Longrightarrow> dbl (of_int n / 2) = of_int n / 2"
  by (rule dbl_scaled_int [where n = n and k = "- 1"]) (simp_all add: power_int_minus)

lemma swift_fee_exact:
  assumes "0 \<le> n" "n \<le> 1000000000000"
  shows "math_round (dbl (of_int n * dbl (1 / 1000))) = (n + 500) div 1000"
proof -
  define k where "k = (n + 500) div 1000"
  define x :: rat where "x = of_int n * dbl (1 / 1000)"
  have k: "1000 * k \<le> n + 500" "n \<le> 1000 * k + 499" "0 \<le> k" "k \<le> 1000000001"
    using assms div_mult_mod_eq [of "n + 500" 1000] pos_mod_bound [of 1000 "n + 500"] pos_mod_sign [of 1000 "n + 500"]
    unfolding k_def by linarith+
  have n: "(0 :: rat) \<le> of_int n" "(of_int n :: rat) \<le> 1000000000000" "1000 * of_int k \<le> (of_int n :: rat) + 500"
    "(of_int n :: rat) \<le> 1000 * of_int k + 499"
    using assms k(1,2) by (simp_all only: of_int_0_le_iff flip: of_int_le_iff [where 'a = rat])
  have lo: "of_int n / 1000 \<le> x"
    using mult_left_mono [OF milli_bounds(1) n(1)] by (simp add: x_def)
  have hi: "x \<le> of_int n * (9007199254740993 / 9007199254740992000)"
    using mult_left_mono [OF milli_bounds(2) n(1)] by (simp add: x_def)
  have x0: "0 \<le> x" "x \<le> 2000000000" using lo hi n by linarith+
  have "of_int (2 * k - 1) / 2 \<le> x" using lo n(3) by simp
  then have "dbl (of_int (2 * k - 1) / 2) \<le> dbl x" by (rule dbl_mono)
  moreover have "dbl (of_int (2 * k - 1) / 2) = of_int (2 * k - 1) / 2"
    using k(3,4) by (intro dbl_half) simp
  ultimately have "of_int k \<le> dbl x + 1 / 2" by simp
  moreover have "dbl x < of_int k + 1 / 2"
  proof -
    have "dbl x - x \<le> x / 9007199254740992" using abs_ge_self [of "dbl x - x"] dbl_error [of x] x0(1) by (simp add: field_simps)
    with x0 hi n show ?thesis by linarith
  qed
  ultimately show ?thesis
    unfolding k_def [symmetric] x_def [symmetric] math_round_def by (intro floor_unique) simp_all
qed

lemma raast_valid: "raast_validate p = [] \<longleftrightarrow>
    op_currency p = ''PKR'' \<and> pakistani_iban (op_beneficiaryIban p) \<and> op_amountMinor p \<le> 100000000"
  by (auto simp: raast_validate_def)

lemma swift_valid: "swift_validate p = [] \<longleftrightarrow>
    (\<exists>bic. op_beneficiaryBic p = Some bic \<and> bic_ok bic) \<and> iban_ok (op_beneficiaryIban p) \<and>
    (\<exists>u. op_purpose p = Some u \<and> u \<noteq> [])"
  by (auto simp: swift_validate_def missing_def bic_ok_def matches_def)

lemma quotePayment_valid:
  "quotePayment F e p r = ValidPayment rail fee t m \<longleftrightarrow>
     pr_validate F p = [] \<and> rail = pr_rail F \<and> fee = pr_feeMinor F p \<and> t = pr_settlementTime F \<and> m = pr_format F e p r"
  by (auto simp: quotePayment_def Let_def)

lemma railFactoryFor_parts:
  "pr_validate (railFactoryFor RAAST) = raast_validate" "pr_validate (railFactoryFor SWIFT) = swift_validate"
  "pr_feeMinor (railFactoryFor RAAST) = raast_feeMinor" "pr_feeMinor (railFactoryFor SWIFT) = swift_feeMinor"
  "pr_format (railFactoryFor RAAST) = raast_format" "pr_format (railFactoryFor SWIFT) = swift_format"
  "pr_rail (railFactoryFor r) = r"
  by (cases r; simp add: RaastPaymentFactory_def SwiftPaymentFactory_def)+

text \<open>
  C29: A payment of up to ten billion is quoted as valid exactly when the rules of its own rail hold: on
  RAAST the currency is PKR, the IBAN a Pakistani one and the amount at most a million rupees; on SWIFT
  there are a BIC, an IBAN of the general form and a purpose. The quoted fee is zero on RAAST and, in
  spite of the floating-point product, exactly 2,500 rupees plus a thousandth of the amount rounded half
  up on SWIFT.
\<close>
theorem quote_valid_iff:
  assumes "0 \<le> op_amountMinor p" "op_amountMinor p \<le> 1000000000000"
  shows "(\<exists>t m. fst (quote rail e p g) = ValidPayment rail fee t m) \<longleftrightarrow>
    (case rail of
      RAAST \<Rightarrow> op_currency p = ''PKR'' \<and> pakistani_iban (op_beneficiaryIban p) \<and> op_amountMinor p \<le> 100000000 \<and> fee = 0
    | SWIFT \<Rightarrow> (\<exists>bic. op_beneficiaryBic p = Some bic \<and> bic_ok bic) \<and> iban_ok (op_beneficiaryIban p) \<and>
        (\<exists>u. op_purpose p = Some u \<and> u \<noteq> []) \<and> fee = 250000 + (op_amountMinor p + 500) div 1000)"
  using swift_fee_exact [OF assms]
  by (cases rail) (auto simp: quote_def case_prod_beta quotePayment_valid railFactoryFor_parts raast_valid swift_valid
      raast_feeMinor_def swift_feeMinor_def simp del: railFactoryFor.simps)

definition sample_international :: outbound_payment where
  "sample_international = \<lparr>op_amountMinor = 10000500, op_currency = ''USD'', op_beneficiaryName = ''Bilal'',
     op_beneficiaryIban = ''DE89370400440532013000'', op_beneficiaryBic = Some ''DEUTDEFF'', op_purpose = Some ''Tuition''\<rparr>"

lemma sample_international_codes: "bic_ok ''DEUTDEFF''" "iban_ok ''DE89370400440532013000''"
  by code_simp+

theorem quote_valid_iff_witness:
  "\<exists>t m. fst (quote SWIFT sample_env sample_international (make_refgen None)) = ValidPayment SWIFT 260001 t m"
  using quote_valid_iff [of sample_international SWIFT sample_env "make_refgen None" 260001] sample_international_codes
  by (simp add: sample_international_def)

text \<open>The digits \<open>randomInt\<close> draws for an account number.\<close>

definition drawn_digits :: "nat list \<times> nat \<Rightarrow> bool" where
  "drawn_digits rnd \<longleftrightarrow> length (fst rnd) = 16 \<and> list_all (\<lambda>d. d < 10) (fst rnd) \<and> 10 \<le> snd rnd \<and> snd rnd < 99"

lemma matches_Nil [simp]: "matches [] s \<longleftrightarrow> s = []"
  by (simp add: matches_def)

lemma matches_Cons [simp]: "matches (p # ps) (c # s) \<longleftrightarrow> p c \<and> matches ps s"
  by (simp add: matches_def)

lemma show_nat_digit: "d < 10 \<Longrightarrow> show_nat d = [digit_char d]"
  by (simp add: show_nat.simps)

lemma show_nat_two: "10 \<le> n \<Longrightarrow> n < 100 \<Longrightarrow> show_nat n = [digit_char (n div 10), digit_char (n mod 10)]"
  by (subst show_nat.simps) (simp add: show_nat_digit)

lemma matches_digits:
  "list_all (\<lambda>d. d < 10) ds \<Longrightarrow> matches (replicate (length ds) is_digit) (concat (map show_nat ds))"
  by (induction ds) (simp_all add: show_nat_digit)

lemma matches_mono:
  "matches ps s \<Longrightarrow> list_all2 (\<lambda>p q. \<forall>c. p c \<longrightarrow> q c) ps qs \<Longrightarrow> matches qs s"
proof (induction ps arbitrary: qs s)
  case (Cons p ps)
  then show ?case by (cases qs; cases s) (auto simp: matches_def)
qed (simp add: matches_def)

text \<open>
  Every account number the bank issues, whatever digits it draws, is a beneficiary both rails
  accept: it has the form of a Pakistani IBAN and the general form of an IBAN.
\<close>
theorem own_numbers_payable:
  assumes "drawn_digits rnd"
  shows "pakistani_iban (newAccountNumber rnd) \<and> iban_ok (newAccountNumber rnd)"
proof -
  obtain ds n where rnd: "rnd = (ds, n)" by (cases rnd)
  have ds: "length ds = 16" "list_all (\<lambda>d. d < 10) ds" "10 \<le> n" "n < 99"
    using assms by (simp_all add: drawn_digits_def rnd)
  have num: "newAccountNumber rnd =
      CHR ''P'' # CHR ''K'' # digit_char (n div 10) # digit_char (n mod 10) # ''NBPT'' @ concat (map show_nat ds)"
    using ds by (simp add: newAccountNumber_def rnd show_nat_two)
  have digits: "matches (replicate 16 is_digit) (concat (map show_nat ds))"
    using matches_digits [OF ds(2)] ds(1) by simp
  have alnum: "matches (replicate 16 is_upper_alnum) (concat (map show_nat ds))"
    by (rule matches_mono [OF digits]) (simp add: list_all2_conv_all_nth is_upper_alnum_def)
  have upper: "matches (replicate 4 is_upper) ''NBPT''" "matches (replicate 4 is_upper_alnum) ''NBPT''"
    by code_simp+
  have letters: "is_upper (CHR ''P'')" "is_upper (CHR ''K'')" by code_simp+
  have two: "is_digit (digit_char (n div 10))" "is_digit (digit_char (n mod 10))"
    using ds by simp_all
  have 1: "pakistani_iban (newAccountNumber rnd)"
    unfolding pakistani_iban_def num using matches_append [OF upper(1) digits] two
    by (simp add: numeral_2_eq_2)
  have "matches (replicate 20 is_upper_alnum) (''NBPT'' @ concat (map show_nat ds))"
    using matches_append [OF upper(2) alnum] by (simp flip: replicate_add)
  then have "matches (replicate 2 is_upper @ replicate 2 is_digit @ replicate 20 is_upper_alnum) (newAccountNumber rnd)"
    unfolding num using two letters by (simp add: numeral_2_eq_2)
  then have 2: "iban_ok (newAccountNumber rnd)"
    unfolding iban_ok_def list_ex_iff by (intro bexI [of _ 20]) simp_all
  show ?thesis using 1 2 ..
qed

theorem own_numbers_payable_witness:
  "pakistani_iban (newAccountNumber ([1,2,3,4,5,6,7,8,9,0,1,2,3,4,5,6], 36)) \<and>
   iban_ok (newAccountNumber ([1,2,3,4,5,6,7,8,9,0,1,2,3,4,5,6], 36))"
  by (rule own_numbers_payable) (simp add: drawn_digits_def)

section \<open>The SWIFT message\<close>

lemma length_js_split: "length (js_split c s) = Suc (count_list s c)"
  by (induction s) (auto split: list.splits)

lemma count_list_append_eq: "count_list (xs @ ys) c = count_list xs c + count_list ys c"
  by (induction xs) auto

lemma count_js_join: "ps \<noteq> [] \<Longrightarrow> Suc (count_list (js_join [c] ps) c) = length ps + (\<Sum>p \<leftarrow> ps. count_list p c)"
  by (induction "[c]" ps rule: js_join.induct) (simp_all add: count_list_append_eq)

lemma js_split_join_iff: "ps \<noteq> [] \<Longrightarrow> js_split c (js_join [c] ps) = ps \<longleftrightarrow> (\<forall>p \<in> set ps. c \<notin> set p)"
proof
  assume ps: "ps \<noteq> []" and "js_split c (js_join [c] ps) = ps"
  then have "length ps = Suc (count_list (js_join [c] ps) c)" by (metis length_js_split)
  with count_js_join [OF ps, of c] have "(\<Sum>p \<leftarrow> ps. count_list p c) = 0" by simp
  then show "\<forall>p \<in> set ps. c \<notin> set p" by (simp add: count_list_0_iff)
qed (rule js_split_join)

lemma toFixed_chars: "set (toFixed d x) \<subseteq> Collect is_digit \<union> {CHR ''.'', CHR ''-''}"
proof -
  define s where "s = padStart (Suc d) CHR ''0'' (show_nat (nat \<lfloor>\<bar>x\<bar> * 10 ^ d + 1 / 2\<rfloor>))"
  have "is_digit (CHR ''0'')" by code_simp
  then have "\<forall>c \<in> set s. is_digit c"
    using show_nat_digits unfolding s_def padStart_def by auto
  then have "set (take k s) \<subseteq> Collect is_digit" "set (drop k s) \<subseteq> Collect is_digit" "set s \<subseteq> Collect is_digit" for k
    using set_take_subset [of k s] set_drop_subset [of k s] by auto
  then show ?thesis unfolding toFixed_def Let_def s_def [symmetric] by auto
qed

lemma replace_first_chars: "set (replace_first a b s) \<subseteq> insert b (set s)"
  by (induction s) auto

lemma matched_no_newline:
  "matches ps s \<Longrightarrow> set ps \<subseteq> {is_upper, is_digit, is_upper_alnum} \<Longrightarrow> CHR 0x0A \<notin> set s"
  using matches_all [of ps s "\<lambda>c. c \<noteq> CHR 0x0A"] upper_alnum_no_newline by blast

text \<open>
  The message of a valid SWIFT quote splits at its line breaks into the six fields it was formatted
  from exactly when the currency, the name of the beneficiary and the purpose hold no line break; the
  amount, the codes and the date cannot break a line. A name or a purpose with a line break, which no check
  refuses, adds lines to the message.
\<close>
theorem swift_message_lines:
  assumes "fst (quote SWIFT e p g) = ValidPayment SWIFT fee t m"
    and "CHR 0x0A \<notin> set (isoNow e)" "CHR 0x0A \<notin> set (fst (next_reference ''PAY'' e g))"
  shows "js_split (CHR 0x0A) m = swift_lines e p (fst (next_reference ''PAY'' e g)) \<longleftrightarrow>
    CHR 0x0A \<notin> set (op_currency p) \<and> CHR 0x0A \<notin> set (op_beneficiaryName p) \<and> CHR 0x0A \<notin> set (the (op_purpose p))"
proof -
  let ?r = "fst (next_reference ''PAY'' e g)"
  have q: "pr_validate (railFactoryFor SWIFT) p = []" "m = swift_format e p ?r"
    using assms(1) by (simp_all add: quote_def case_prod_beta quotePayment_valid railFactoryFor_parts del: railFactoryFor.simps)
  then obtain bic u where v: "op_beneficiaryBic p = Some bic" "bic_ok bic" "iban_ok (op_beneficiaryIban p)"
    "op_purpose p = Some u"
    by (auto simp: railFactoryFor_parts swift_valid simp del: railFactoryFor.simps)
  have bic: "CHR 0x0A \<notin> set bic"
    using v(2) unfolding bic_ok_def by (auto dest!: matched_no_newline simp: set_replicate_conv_if)
  have iban: "CHR 0x0A \<notin> set (op_beneficiaryIban p)"
    using v(3) unfolding iban_ok_def list_ex_iff by (auto dest!: matched_no_newline simp: set_replicate_conv_if)
  have amount: "CHR 0x0A \<notin> set (replace_first CHR ''.'' CHR '','' (amount_text (op_amountMinor p)))"
    using replace_first_chars toFixed_chars unfolding amount_text_def by (fastforce simp: is_digit_def)
  have date: "CHR 0x0A \<notin> set (filter (\<lambda>c. c \<noteq> CHR ''-'') (take 8 (drop 2 (isoNow e))))"
    using assms(2) set_take_subset [of 8 "drop 2 (isoNow e)"] set_drop_subset [of 2 "isoNow e"] by auto
  have "js_split (CHR 0x0A) m = swift_lines e p ?r \<longleftrightarrow> (\<forall>l \<in> set (swift_lines e p ?r). CHR 0x0A \<notin> set l)"
    unfolding q(2) swift_format_def by (rule js_split_join_iff) (simp add: swift_lines_def)
  then show ?thesis
    using bic iban amount date assms(3) by (simp add: swift_lines_def v or_undefined_def)
qed

lemma sample_pay_reference: "fst (next_reference ''PAY'' sample_env \<lparr>sequence = 0, nodeTag = ''OCAL''\<rparr>) = ''PAY-20260102-OCAL-00000105''"
proof -
  have "show_base36 5 = ''5''" "show_nat 1 = ''1''" "replicate 5 (CHR ''0'') = ''00000''" by code_simp+
  moreover have "toUpperCase ''5'' = ''5''" by code_simp
  ultimately show ?thesis
    by (simp add: next_reference_def Let_def sample_env_def padStart_def)
qed

theorem swift_message_lines_witness:
  "\<exists>m. fst (quote SWIFT sample_env (sample_international\<lparr>op_purpose := Some [CHR ''x'', CHR 0x0A, CHR ''y'']\<rparr>)
      \<lparr>sequence = 0, nodeTag = ''OCAL''\<rparr>) = ValidPayment SWIFT 260001 ''1-3 business days'' m \<and>
    js_split (CHR 0x0A) m \<noteq> swift_lines sample_env (sample_international\<lparr>op_purpose := Some [CHR ''x'', CHR 0x0A, CHR ''y'']\<rparr>)
      (fst (next_reference ''PAY'' sample_env \<lparr>sequence = 0, nodeTag = ''OCAL''\<rparr>))"
proof -
  let ?p = "sample_international\<lparr>op_purpose := Some [CHR ''x'', CHR 0x0A, CHR ''y'']\<rparr>"
  let ?r = "fst (next_reference ''PAY'' sample_env \<lparr>sequence = 0, nodeTag = ''OCAL''\<rparr>)"
  have v: "fst (quote SWIFT sample_env ?p \<lparr>sequence = 0, nodeTag = ''OCAL''\<rparr>) =
      ValidPayment SWIFT 260001 ''1-3 business days'' (swift_format sample_env ?p ?r)"
    using swift_fee_exact [of 10000500] sample_international_codes
    by (simp add: quote_def case_prod_beta quotePayment_valid SwiftPaymentFactory_def swift_valid swift_feeMinor_def
        sample_international_def)
  have "CHR 0x0A \<notin> set (isoNow sample_env)" "CHR 0x0A \<notin> set ?r"
    unfolding sample_pay_reference by (simp_all add: sample_env_def)
  from swift_message_lines [OF v this] show ?thesis
    using v by (simp add: sample_international_def)
qed

end
