(* ===== verification/JSDate.thy ===== *)
theory JSDate
  imports Core
begin

text \<open>
  The JavaScript date the source prints: \<open>toISOString()\<close> of a date given by its milliseconds since 1970.
  The calendar is computed from the day number by eras of 400 years, counted from the first of March.
\<close>

record civil_date =
  cd_year :: int
  cd_month :: int
  cd_day :: int

definition civil_of_day :: "int \<Rightarrow> civil_date" where
  "civil_of_day z = (let
     n = z + 719468; era = n div 146097; doe = n mod 146097;
     yoe = (doe - doe div 1460 + doe div 36524 - doe div 146096) div 365;
     doy = doe - (365 * yoe + yoe div 4 - yoe div 100);
     mp = (5 * doy + 2) div 153;
     m = (if mp < 10 then mp + 3 else mp - 9)
   in \<lparr>cd_year = yoe + era * 400 + (if m \<le> 2 then 1 else 0), cd_month = m, cd_day = doy - (153 * mp + 2) div 5 + 1\<rparr>)"

definition two_digits :: "int \<Rightarrow> string" where
  "two_digits n = padStart 2 CHR ''0'' (show_nat (nat n))"

definition iso_day :: "civil_date \<Rightarrow> string" where
  "iso_day d = padStart 4 CHR ''0'' (show_nat (nat (cd_year d))) @ ''-'' @ two_digits (cd_month d) @ ''-'' @ two_digits (cd_day d)"

definition toISOString :: "int \<Rightarrow> string" where
  "toISOString ms = (let t = ms mod 86400000 in
     iso_day (civil_of_day (ms div 86400000)) @ ''T'' @ two_digits (t div 3600000) @ '':'' @
     two_digits (t div 60000 mod 60) @ '':'' @ two_digits (t div 1000 mod 60) @ ''.'' @
     padStart 3 CHR ''0'' (show_nat (nat (t mod 1000))) @ ''Z'')"

lemma toISOString_examples:
  "toISOString 0 = ''1970-01-01T00:00:00.000Z''"
  "toISOString 951782400000 = ''2000-02-29T00:00:00.000Z''"
  "toISOString 1767348000123 = ''2026-01-02T10:00:00.123Z''"
  by code_simp+

lemma iso_chars: "set (toISOString ms) \<subseteq> Collect is_digit \<union> set ''-T:.Z''"
proof -
  have "is_digit (CHR ''0'')" by code_simp
  then have pad: "set (padStart n CHR ''0'' (show_nat k)) \<subseteq> Collect is_digit" for n k
    using show_nat_digits [of k] by (auto simp: padStart_def)
  have two: "set (two_digits n) \<subseteq> Collect is_digit" for n
    using pad by (simp add: two_digits_def)
  show ?thesis
    using pad two by (simp add: toISOString_def iso_day_def Let_def) blast
qed

end
