(* ===== verification/Statements.thy ===== *)
theory Statements
  imports Accounts History JSDate "HOL-Library.Sublist"
begin

text \<open>
  Account statements (\<open>src/src/modules/statements/statement.bridge.ts\<close>,
  \<open>src/src/modules/statements/statements.controller.ts\<close>): what a statement contains (\<open>compose_mini\<close>,
  \<open>compose_detailed\<close>), how it is written out (three renderers), and the bridge between them.

  A renderer is the record \<open>statement_renderer\<close>; its interface is the locale \<open>shows_cells\<close>: every cell of
  the document appears in the output, in the way the format writes a text.
\<close>

section \<open>The data\<close>

record statement_line =
  sl_date :: string
  sl_reference :: string
  sl_type :: string
  sl_description :: string
  sl_amountMinor :: int
  sl_balanceAfterMinor :: int

record statement_data =
  sd_accountNumber :: string
  sd_ownerName :: string
  sd_currency :: Currency
  sd_currentBalanceMinor :: int
  sd_lines :: "statement_line list"

record statement_document =
  dc_title :: string
  dc_header :: "(string \<times> string) list"
  dc_columns :: "string list"
  dc_rows :: "string list list"
  dc_summary :: "(string \<times> string) list"

text \<open>A document as the renderers need it: as many cells in a row as there are columns.\<close>

definition well_shaped :: "statement_document \<Rightarrow> bool" where
  "well_shaped d \<longleftrightarrow> dc_columns d \<noteq> [] \<and> distinct (dc_columns d) \<and>
     (\<forall>r \<in> set (dc_rows d). length r = length (dc_columns d))"

section \<open>The renderers\<close>

record statement_renderer =
  sr_contentType :: string
  sr_render :: "statement_document \<Rightarrow> string"

subsection \<open>CSV\<close>

definition csv_special :: "char \<Rightarrow> bool" where
  "csv_special c \<longleftrightarrow> c = CHR 0x22 \<or> c = CHR '','' \<or> c = CHR 0x0A"

definition csv_escape :: "string \<Rightarrow> string" where
  "csv_escape v = (if list_ex csv_special v
     then [CHR 0x22] @ concat (map (\<lambda>c. if c = CHR 0x22 then [CHR 0x22, CHR 0x22] else [c]) v) @ [CHR 0x22]
     else v)"

definition csv_render :: "statement_document \<Rightarrow> string" where
  "csv_render d = js_join [CHR 0x0A] (map (\<lambda>row. js_join '','' (map csv_escape row)) (dc_columns d # dc_rows d))"

definition CsvStatementRenderer :: statement_renderer where
  "CsvStatementRenderer = \<lparr>sr_contentType = ''text/csv'', sr_render = csv_render\<rparr>"

subsection \<open>JSON\<close>

text \<open>\<open>JSON.stringify(x, null, 2)\<close> for the texts, objects and arrays a statement is made of.\<close>

datatype json_doc = JText string | JMap "(string \<times> json_doc) list" | JArr "json_doc list"

fun json_pretty :: "string \<Rightarrow> json_doc \<Rightarrow> string" where
  "json_pretty ind (JText s) = json_string s"
| "json_pretty ind (JMap kvs) =
     (if kvs = [] then ''{}''
      else ''{'' @ [CHR 0x0A] @
        js_join ('','' @ [CHR 0x0A]) (map (\<lambda>kv. ind @ ''  '' @ json_string (fst kv) @ '': '' @ json_pretty (ind @ ''  '') (snd kv)) kvs) @
        [CHR 0x0A] @ ind @ ''}'')"
| "json_pretty ind (JArr xs) =
     (if xs = [] then ''[]''
      else ''['' @ [CHR 0x0A] @ js_join ('','' @ [CHR 0x0A]) (map (\<lambda>x. ind @ ''  '' @ json_pretty (ind @ ''  '') x) xs) @
        [CHR 0x0A] @ ind @ '']'')"

text \<open>\<open>Object.fromEntries\<close>: a later entry replaces an earlier one of the same key, in its place.\<close>

definition from_entries :: "(string \<times> string) list \<Rightarrow> json_doc" where
  "from_entries kvs = JMap (map (\<lambda>(k, v). (k, JText v)) (foldl (\<lambda>m (k, v). map_set k v m) [] kvs))"

definition json_of_document :: "statement_document \<Rightarrow> json_doc" where
  "json_of_document d = JMap
     [(''title'', JText (dc_title d)),
      (''header'', JMap (map (\<lambda>(k, v). (k, JText v)) (dc_header d))),
      (''summary'', JMap (map (\<lambda>(k, v). (k, JText v)) (dc_summary d))),
      (''rows'', JArr (map (\<lambda>row. from_entries (zip (dc_columns d) row)) (dc_rows d)))]"

definition json_render :: "statement_document \<Rightarrow> string" where
  "json_render d = json_pretty [] (json_of_document d)"

definition JsonStatementRenderer :: statement_renderer where
  "JsonStatementRenderer = \<lparr>sr_contentType = ''application/json'', sr_render = json_render\<rparr>"

subsection \<open>Plain text\<close>

definition text_widths :: "statement_document \<Rightarrow> nat list" where
  "text_widths d = map (\<lambda>i. foldl max (length (dc_columns d ! i)) (map (\<lambda>r. length (r ! i)) (dc_rows d)))
     [0..<length (dc_columns d)]"

definition text_line :: "nat list \<Rightarrow> string list \<Rightarrow> string" where
  "text_line widths cells = js_join ''  ''
     (map (\<lambda>(i, cell). if i < length widths then padEnd (widths ! i) CHR '' '' cell else cell) (enumerate 0 cells))"

definition entry_lines :: "(string \<times> string) list \<Rightarrow> string list" where
  "entry_lines kvs = map (\<lambda>(k, v). k @ '': '' @ v) kvs"

definition text_lines :: "statement_document \<Rightarrow> string list" where
  "text_lines d = (let widths = text_widths d in
     [toUpperCase (dc_title d)] @ entry_lines (dc_header d) @
     [[], text_line widths (dc_columns d), js_join ''  '' (map (\<lambda>w. replicate w CHR ''-'') widths)] @
     map (text_line widths) (dc_rows d) @ [[]] @ entry_lines (dc_summary d))"

definition text_render :: "statement_document \<Rightarrow> string" where
  "text_render d = js_join [CHR 0x0A] (text_lines d)"

definition PlainTextStatementRenderer :: statement_renderer where
  "PlainTextStatementRenderer = \<lparr>sr_contentType = ''text/plain'', sr_render = text_render\<rparr>"

section \<open>The statements\<close>

type_synonym locale_string = "rat \<Rightarrow> nat \<Rightarrow> string"

definition statement_header :: "env \<Rightarrow> statement_data \<Rightarrow> (string \<times> string) list" where
  "statement_header e d =
     [(''Account'', sd_accountNumber d), (''Owner'', sd_ownerName d), (''Currency'', cur_code (sd_currency d)),
      (''Generated'', isoNow e)]"

definition compose_mini :: "locale_string \<Rightarrow> env \<Rightarrow> statement_data \<Rightarrow> statement_document" where
  "compose_mini loc e d = (let
     lines = drop (length (sd_lines d) - 10) (sd_lines d);
     c = currency_format loc (sd_currency d)
   in \<lparr>dc_title = ''Mini statement'', dc_header = statement_header e d,
       dc_columns = [''date'', ''reference'', ''amount''],
       dc_rows = map (\<lambda>l. [take 10 (sl_date l), sl_reference l, c (sl_amountMinor l)]) lines,
       dc_summary = [(''Available balance'', c (sd_currentBalanceMinor d))]\<rparr>)"

definition total_credits :: "statement_line list \<Rightarrow> int" where
  "total_credits lines = foldl (\<lambda>s l. s + sl_amountMinor l) 0 (filter (\<lambda>l. 0 < sl_amountMinor l) lines)"

definition total_debits :: "statement_line list \<Rightarrow> int" where
  "total_debits lines = foldl (\<lambda>s l. s + sl_amountMinor l) 0 (filter (\<lambda>l. sl_amountMinor l < 0) lines)"

definition opening_balance :: "statement_data \<Rightarrow> int" where
  "opening_balance d = (case sd_lines d of [] \<Rightarrow> sd_currentBalanceMinor d
     | first # _ \<Rightarrow> sl_balanceAfterMinor first - sl_amountMinor first)"

definition compose_detailed :: "locale_string \<Rightarrow> env \<Rightarrow> statement_data \<Rightarrow> statement_document" where
  "compose_detailed loc e d = (let c = currency_format loc (sd_currency d) in
     \<lparr>dc_title = ''Detailed statement'', dc_header = statement_header e d,
      dc_columns = [''date'', ''reference'', ''type'', ''description'', ''amount'', ''balance''],
      dc_rows = map (\<lambda>l. [sl_date l, sl_reference l, sl_type l, sl_description l, c (sl_amountMinor l),
        c (sl_balanceAfterMinor l)]) (sd_lines d),
      dc_summary =
        [(''Opening balance'', c (opening_balance d)), (''Total credits'', c (total_credits (sd_lines d))),
         (''Total debits'', c (total_debits (sd_lines d))), (''Closing balance'', c (sd_currentBalanceMinor d)),
         (''Transactions'', show_int (int (length (sd_lines d))))]\<rparr>)"

text \<open>\<open>Statement.generate\<close>: the abstraction composes, the implementation renders.\<close>

definition generate :: "(statement_data \<Rightarrow> statement_document) \<Rightarrow> statement_renderer \<Rightarrow> statement_data \<Rightarrow> string \<times> string" where
  "generate compose R d = (sr_contentType R, sr_render R (compose d))"

datatype statement_format = FormatCsv | FormatJson | FormatText

datatype statement_kind = KindMini | KindDetailed

fun RENDERERS :: "statement_format \<Rightarrow> statement_renderer" where
  "RENDERERS FormatCsv = CsvStatementRenderer"
| "RENDERERS FormatJson = JsonStatementRenderer"
| "RENDERERS FormatText = PlainTextStatementRenderer"

fun STATEMENTS :: "statement_kind \<Rightarrow> locale_string \<Rightarrow> env \<Rightarrow> statement_data \<Rightarrow> statement_document" where
  "STATEMENTS KindMini = compose_mini"
| "STATEMENTS KindDetailed = compose_detailed"

section \<open>The controller\<close>

fun entry_type_name :: "LedgerEntryType \<Rightarrow> string" where
  "entry_type_name DEPOSIT = ''DEPOSIT''"
| "entry_type_name WITHDRAWAL = ''WITHDRAWAL''"
| "entry_type_name TRANSFER_IN = ''TRANSFER_IN''"
| "entry_type_name TRANSFER_OUT = ''TRANSFER_OUT''"
| "entry_type_name FEE = ''FEE''"
| "entry_type_name INTEREST = ''INTEREST''"
| "entry_type_name REVERSAL = ''REVERSAL''"

definition line_of :: "ledger_entry \<Rightarrow> statement_line" where
  "line_of r =
     \<lparr>sl_date = toISOString (js_date_ms (entry_createdAt r)), sl_reference = entry_reference r,
      sl_type = entry_type_name (entry_type r), sl_description = entry_description r,
      sl_amountMinor = entry_amountMinor r, sl_balanceAfterMinor = entry_balanceAfterMinor r\<rparr>"

text \<open>
  \<open>STATEMENTS[type]\<close> and \<open>RENDERERS[format]\<close> with their defaults. The names every JavaScript object
  inherits pass the check as well, and the call ends in a TypeError; they are not names of the model.
\<close>

definition kind_of :: "string option \<Rightarrow> statement_kind option" where
  "kind_of m = (case m of None \<Rightarrow> Some KindMini
     | Some s \<Rightarrow> if s = ''mini'' then Some KindMini else if s = ''detailed'' then Some KindDetailed else None)"

definition format_of :: "string option \<Rightarrow> statement_format option" where
  "format_of m = (case m of None \<Rightarrow> Some FormatText
     | Some s \<Rightarrow> if s = ''csv'' then Some FormatCsv else if s = ''json'' then Some FormatJson
         else if s = ''text'' then Some FormatText else None)"

definition by_500 :: history_options where
  "by_500 = \<lparr>ho_pageSize = Some 500, ho_from = None, ho_to = None\<rparr>"

text \<open>\<open>None\<close>: the loop over the history does not end within \<open>fuel\<close> entries.\<close>

definition statement ::
  "'db entity_manager \<Rightarrow> locale_string \<Rightarrow> nat \<Rightarrow> env \<Rightarrow> string \<Rightarrow> string option \<Rightarrow> string option \<Rightarrow> 'db \<Rightarrow>
     currency_pool \<Rightarrow> ((err + (string \<times> string)) \<times> currency_pool) option" where
  "statement M loc fuel e accountId type format db pool =
     (case (kind_of type, format_of format) of
        (Some k, Some f) \<Rightarrow>
          (case findById M db accountId of
             Inl x \<Rightarrow> Some (Inl x, pool)
           | Inr account \<Rightarrow>
               (case iterate_history (em_findEntries M db (\<lambda>r. entry_accountId r = accountId)) accountId by_500 fuel of
                  None \<Rightarrow> None
                | Some (rows, _) \<Rightarrow>
                    (case registry_get (acc_currency account) pool of
                       (Inl x, pool') \<Rightarrow> Some (Inl x, pool')
                     | (Inr currency, pool') \<Rightarrow>
                         Some (Inr (generate (STATEMENTS k loc e) (RENDERERS f)
                           \<lparr>sd_accountNumber = accountNumber account, sd_ownerName = ownerName account,
                            sd_currency = currency, sd_currentBalanceMinor = balanceMinor account,
                            sd_lines = map line_of rows\<rparr>), pool'))))
      | _ \<Rightarrow> Some (Inl (BusinessRuleError ''type must be mini|detailed and format csv|json|text''), pool))"

section \<open>Every cell is shown\<close>

lemma composed_shape: "well_shaped (STATEMENTS k loc e d)"
  by (cases k) (auto simp: compose_mini_def compose_detailed_def Let_def well_shaped_def)

text \<open>The lines a statement shows: all of them, or the last ten.\<close>

fun shown_lines :: "statement_kind \<Rightarrow> statement_data \<Rightarrow> statement_line list" where
  "shown_lines KindMini d = drop (length (sd_lines d) - 10) (sd_lines d)"
| "shown_lines KindDetailed d = sd_lines d"

lemma composed_rows:
  "map (\<lambda>row. row ! 1) (dc_rows (STATEMENTS k loc e d)) = map sl_reference (shown_lines k d)"
  by (cases k) (simp_all add: compose_mini_def compose_detailed_def Let_def comp_def)

locale shows_cells =
  fixes R :: statement_renderer and written :: "string \<Rightarrow> string"
  assumes cell_shown: "well_shaped d \<Longrightarrow> row \<in> set (dc_rows d) \<Longrightarrow> cell \<in> set row \<Longrightarrow>
    sublist (written cell) (sr_render R d)"
begin

lemma statement_shows_references:
  assumes "l \<in> set (shown_lines k d)"
  shows "sublist (written (sl_reference l)) (snd (generate (STATEMENTS k loc e) R d))"
proof -
  let ?doc = "STATEMENTS k loc e d"
  have "sl_reference l \<in> set (map (\<lambda>row. row ! 1) (dc_rows ?doc))"
    unfolding composed_rows using assms by simp
  then obtain row where row: "row \<in> set (dc_rows ?doc)" "sl_reference l = row ! 1" by auto
  then have "1 < length row" by (cases k) (auto simp: compose_mini_def compose_detailed_def Let_def)
  then show ?thesis
    unfolding generate_def snd_conv row(2) using cell_shown [OF composed_shape row(1)] by simp
qed

end

lemma sublist_in_context:
  "sublist x y \<Longrightarrow> sublist x (a @ y)" "sublist x y \<Longrightarrow> sublist x (y @ b)" "sublist x y \<Longrightarrow> sublist x (c # y)"
  by (meson sublist_append_leftI sublist_append_rightI sublist_order.order_trans sublist_Cons_right)+

lemma sublist_js_join: "x \<in> set xs \<Longrightarrow> sublist x (js_join sep xs)"
proof (induction sep xs rule: js_join.induct)
  case (3 sep x' y xs)
  then show ?case by (cases "x = x'") (auto intro: sublist_in_context)
qed auto

interpretation csv: shows_cells CsvStatementRenderer csv_escape
proof
  fix d :: statement_document and row cell
  assume *: "row \<in> set (dc_rows d)" "cell \<in> set row"
  have "sublist (csv_escape cell) (js_join '','' (map csv_escape row))"
    using * by (intro sublist_js_join) simp
  also have "sublist (js_join '','' (map csv_escape row)) (csv_render d)"
    unfolding csv_render_def using * by (intro sublist_js_join) simp
  finally show "sublist (csv_escape cell) (sr_render CsvStatementRenderer d)"
    by (simp add: CsvStatementRenderer_def)
qed

interpretation plain: shows_cells PlainTextStatementRenderer "\<lambda>s. s"
proof
  fix d :: statement_document and row cell
  assume *: "row \<in> set (dc_rows d)" "cell \<in> set row"
  let ?w = "text_widths d"
  obtain i where i: "i < length row" "cell = row ! i" using * by (metis in_set_conv_nth)
  let ?padded = "if i < length ?w then padEnd (?w ! i) CHR '' '' cell else cell"
  have "sublist cell ?padded" by (simp add: padEnd_def)
  also have "sublist ?padded (text_line ?w row)"
    unfolding text_line_def using i
    by (intro sublist_js_join) (force simp: in_set_conv_nth nth_enumerate_eq)
  also have "sublist (text_line ?w row) (text_render d)"
    unfolding text_render_def using * by (intro sublist_js_join) (simp add: text_lines_def Let_def)
  finally show "sublist cell (sr_render PlainTextStatementRenderer d)"
    by (simp add: PlainTextStatementRenderer_def)
qed

lemma pretty_member: "(k, x) \<in> set kvs \<Longrightarrow> sublist (json_pretty (ind @ ''  '') x) (json_pretty ind (JMap kvs))"
proof -
  assume kv: "(k, x) \<in> set kvs"
  let ?m = "\<lambda>kv. ind @ ''  '' @ json_string (fst kv) @ '': '' @ json_pretty (ind @ ''  '') (snd kv)"
  have "sublist (json_pretty (ind @ ''  '') x) (?m (k, x))"
    by (intro sublist_in_context) simp
  also have "sublist (?m (k, x)) (js_join ('','' @ [CHR 0x0A]) (map ?m kvs))"
    using kv by (intro sublist_js_join) force
  finally show ?thesis
    using kv by (auto intro!: sublist_in_context)
qed

lemma pretty_element: "x \<in> set xs \<Longrightarrow> sublist (json_pretty (ind @ ''  '') x) (json_pretty ind (JArr xs))"
proof -
  assume x: "x \<in> set xs"
  let ?m = "\<lambda>x. ind @ ''  '' @ json_pretty (ind @ ''  '') x"
  have "sublist (json_pretty (ind @ ''  '') x) (?m x)"
    by (intro sublist_in_context) simp
  also have "sublist (?m x) (js_join ('','' @ [CHR 0x0A]) (map ?m xs))"
    using x by (intro sublist_js_join) force
  finally show ?thesis
    using x by (auto intro!: sublist_in_context)
qed

lemma from_entries_distinct:
  assumes "distinct (map fst kvs)"
  shows "from_entries kvs = JMap (map (\<lambda>(k, v). (k, JText v)) kvs)"
proof -
  have "foldl (\<lambda>m (k, v). map_set k v m) m kvs = m @ kvs" if "distinct (map fst (m @ kvs))" for m
    using that
  proof (induction kvs arbitrary: m)
    case (Cons kv kvs)
    obtain k v where kv: "kv = (k, v)" by (cases kv)
    then have "map_set k v m = m @ [(k, v)]" using Cons.prems by (auto simp: map_set_def)
    then show ?case using Cons.IH [of "m @ [(k, v)]"] Cons.prems kv by simp
  qed simp
  from this [of "[]"] assms show ?thesis by (simp add: from_entries_def)
qed

interpretation json: shows_cells JsonStatementRenderer json_string
proof
  fix d :: statement_document and row cell
  assume d: "well_shaped d" and *: "row \<in> set (dc_rows d)" "cell \<in> set row"
  let ?kvs = "zip (dc_columns d) row"
  have len: "length row = length (dc_columns d)" and "distinct (dc_columns d)" using d * by (auto simp: well_shaped_def)
  then have entries: "from_entries ?kvs = JMap (map (\<lambda>(k, v). (k, JText v)) ?kvs)"
    by (intro from_entries_distinct) simp
  obtain i where i: "i < length row" "cell = row ! i" using * by (metis in_set_conv_nth)
  then have "(dc_columns d ! i, cell) \<in> set ?kvs" using len by (auto simp: set_zip)
  then have "(dc_columns d ! i, JText cell) \<in> set (map (\<lambda>(k, v). (k, JText v)) ?kvs)" by force
  from pretty_member [OF this, of "''    ''"]
  have "sublist (json_string cell) (json_pretty ''    '' (from_entries ?kvs))"
    unfolding entries by (simp del: json_pretty.simps(2,3))
  also have "sublist (json_pretty ''    '' (from_entries ?kvs))
      (json_pretty ''  '' (JArr (map (\<lambda>row. from_entries (zip (dc_columns d) row)) (dc_rows d))))"
    using pretty_element [of "from_entries ?kvs" _ "''  ''"] * by (simp del: json_pretty.simps(2,3))
  also have "sublist \<dots> (json_pretty [] (json_of_document d))"
    using pretty_member [of "''rows''" _ _ "[]"] unfolding json_of_document_def by (simp del: json_pretty.simps(2,3))
  finally show "sublist (json_string cell) (sr_render JsonStatementRenderer d)"
    by (simp add: JsonStatementRenderer_def json_render_def)
qed

section \<open>Reading a CSV statement back\<close>

text \<open>A reader of comma-separated values, after RFC 4180 with line feeds between the records.\<close>

fun csv_quoted :: "string \<Rightarrow> string \<times> string" where
  "csv_quoted [] = ([], [])"
| "csv_quoted [c] = (if c = CHR 0x22 then ([], []) else ([c], []))"
| "csv_quoted (c # c' # s) =
     (if c = CHR 0x22 then if c' = CHR 0x22 then (case csv_quoted s of (v, r) \<Rightarrow> (CHR 0x22 # v, r)) else ([], c' # s)
      else case csv_quoted (c' # s) of (v, r) \<Rightarrow> (c # v, r))"

definition csv_separator :: "char \<Rightarrow> bool" where
  "csv_separator c \<longleftrightarrow> c = CHR '','' \<or> c = CHR 0x0A"

definition csv_cell :: "string \<Rightarrow> string \<times> string" where
  "csv_cell s = (if take 1 s = [CHR 0x22] then csv_quoted (tl s)
     else (takeWhile (\<lambda>c. \<not> csv_separator c) s, dropWhile (\<lambda>c. \<not> csv_separator c) s))"

lemma csv_quoted_shorter: "length (snd (csv_quoted s)) \<le> length s"
  by (induction s rule: csv_quoted.induct) (auto split: prod.splits)

lemma csv_cell_shorter: "length (snd (csv_cell s)) \<le> length s"
proof (cases s)
  case (Cons c t)
  then show ?thesis using csv_quoted_shorter [of t] length_dropWhile_le [of _ t] by (auto simp: csv_cell_def le_SucI)
qed (simp add: csv_cell_def)

function csv_read :: "string \<Rightarrow> string list list" where
  "csv_read s = (case csv_cell s of (v, rest) \<Rightarrow>
     (case rest of
        [] \<Rightarrow> [[v]]
      | c # t \<Rightarrow> if c = CHR '','' then (case csv_read t of [] \<Rightarrow> [[v]] | row # rows \<Rightarrow> (v # row) # rows)
               else [v] # csv_read t))"
  by auto

termination csv_read
  by (relation "measure length") (simp_all, (metis csv_cell_shorter Suc_le_eq length_Cons snd_conv)+)

declare csv_read.simps [simp del]

text \<open>What may follow a cell.\<close>

definition csv_end :: "string \<Rightarrow> bool" where
  "csv_end t \<longleftrightarrow> t = [] \<or> csv_separator (hd t)"

lemma csv_end_simps [simp]: "csv_end []" "csv_end (CHR '','' # t)" "csv_end (CHR 0x0A # t)"
  by (simp_all add: csv_end_def csv_separator_def)

lemma csv_quoted_escape:
  "csv_end t \<Longrightarrow> csv_quoted (concat (map (\<lambda>c. if c = CHR 0x22 then [CHR 0x22, CHR 0x22] else [c]) v) @ CHR 0x22 # t) = (v, t)"
proof (induction v)
  case Nil
  then show ?case by (cases t) (auto simp: csv_end_def csv_separator_def)
next
  case (Cons c v)
  let ?e = "concat (map (\<lambda>c. if c = CHR 0x22 then [CHR 0x22, CHR 0x22] else [c]) v) @ CHR 0x22 # t"
  obtain x y where e: "?e = x # y" by (cases ?e) auto
  from Cons have "csv_quoted (x # y) = (v, t)" by (simp add: e)
  then show ?case using e by (auto simp: e)
qed

lemma csv_cell_escape: "csv_end t \<Longrightarrow> csv_cell (csv_escape v @ t) = (v, t)"
proof (cases "list_ex csv_special v")
  case True
  assume "csv_end t"
  with True csv_quoted_escape [of t v] show ?thesis by (simp add: csv_cell_def csv_escape_def)
next
  case False
  assume t: "csv_end t"
  from False have v: "c \<in> set v \<Longrightarrow> \<not> csv_separator c \<and> c \<noteq> CHR 0x22" for c
    by (auto simp: list_ex_iff csv_special_def csv_separator_def)
  have "takeWhile (\<lambda>c. \<not> csv_separator c) (v @ t) = v" "dropWhile (\<lambda>c. \<not> csv_separator c) (v @ t) = t"
    using v t by (cases t; auto simp: csv_end_def takeWhile_append dropWhile_append)+
  moreover have "take 1 (v @ t) \<noteq> [CHR 0x22]"
    using v t by (cases v; cases t) (auto simp: csv_end_def csv_separator_def)
  ultimately show ?thesis using False by (simp add: csv_cell_def csv_escape_def)
qed

text \<open>\<open>w\<close> is a way to write the cell \<open>v\<close>.\<close>

definition writes_cell :: "string \<Rightarrow> string \<Rightarrow> bool" where
  "writes_cell w v \<longleftrightarrow> (\<forall>t. csv_end t \<longrightarrow> csv_cell (w @ t) = (v, t))"

lemma writes_escape: "writes_cell (csv_escape v) v"
  by (simp add: writes_cell_def csv_cell_escape)

lemma csv_read_cells:
  assumes "list_all2 writes_cell ws vs" "ws \<noteq> []" "t = [] \<or> hd t = CHR 0x0A"
  shows "csv_read (js_join '','' ws @ t) = vs # (if t = [] then [] else csv_read (tl t))"
  using assms(1,2)
proof (induction ws vs rule: list_all2_induct)
  case (Cons w ws v vs)
  show ?case
  proof (cases ws)
    case Nil
    have "csv_cell (w @ t) = (v, t)"
      using Cons.hyps(1) assms(3) by (auto simp: writes_cell_def csv_end_def csv_separator_def)
    with Nil Cons.hyps(2) assms(3) show ?thesis by (subst csv_read.simps) (auto split: list.splits)
  next
    case more: (Cons x xs)
    let ?rest = "js_join '','' ws @ t"
    have "js_join '','' (w # ws) @ t = w @ CHR '','' # ?rest" using more by simp
    moreover have "csv_cell (w @ CHR '','' # ?rest) = (v, CHR '','' # ?rest)"
      using Cons.hyps(1) by (simp add: writes_cell_def)
    moreover have "csv_read ?rest = vs # (if t = [] then [] else csv_read (tl t))"
      using Cons.IH more by simp
    ultimately show ?thesis by (subst csv_read.simps) simp
  qed
qed simp

lemma csv_read_row:
  assumes "row \<noteq> []" "t = [] \<or> hd t = CHR 0x0A"
  shows "csv_read (js_join '','' (map csv_escape row) @ t) = row # (if t = [] then [] else csv_read (tl t))"
  using assms by (intro csv_read_cells) (simp_all add: list_all2_conv_all_nth writes_escape)

lemma csv_read_rows:
  assumes "rows \<noteq> []" "\<forall>row \<in> set rows. row \<noteq> []"
  shows "csv_read (js_join [CHR 0x0A] (map (\<lambda>row. js_join '','' (map csv_escape row)) rows)) = rows"
  using assms
proof (induction rows rule: list_nonempty_induct)
  case (single row)
  then show ?case using csv_read_row [of row "[]"] by simp
next
  case (cons row rows)
  let ?f = "\<lambda>row. js_join '','' (map csv_escape row)"
  have "js_join [CHR 0x0A] (map ?f (row # rows)) = ?f row @ CHR 0x0A # js_join [CHR 0x0A] (map ?f rows)"
    using cons(1) by (cases rows) simp_all
  then show ?case using csv_read_row [of row "CHR 0x0A # js_join [CHR 0x0A] (map ?f rows)"] cons by simp
qed

text \<open>
  C19: A statement in CSV is read back exactly: whatever commas, quotes and line breaks the owner wrote
  into the descriptions, the reader finds the column names and then one record per line of the
  statement, with the texts and the formatted amounts of that line.
\<close>
theorem csv_statement_reads_back:
  "csv_read (snd (generate (STATEMENTS k loc e) (RENDERERS FormatCsv) d)) = (let c = currency_format loc (sd_currency d) in
     case k of
       KindDetailed \<Rightarrow>
         [''date'', ''reference'', ''type'', ''description'', ''amount'', ''balance''] #
         map (\<lambda>l. [sl_date l, sl_reference l, sl_type l, sl_description l, c (sl_amountMinor l), c (sl_balanceAfterMinor l)])
           (sd_lines d)
     | KindMini \<Rightarrow>
         [''date'', ''reference'', ''amount''] #
         map (\<lambda>l. [take 10 (sl_date l), sl_reference l, c (sl_amountMinor l)]) (drop (length (sd_lines d) - 10) (sd_lines d)))"
proof -
  have rows: "csv_read (csv_render doc) = dc_columns doc # dc_rows doc" if "well_shaped doc" for doc
    unfolding csv_render_def using that by (intro csv_read_rows) (auto simp: well_shaped_def)
  have "csv_read (snd (generate (STATEMENTS k loc e) (RENDERERS FormatCsv) d)) =
      dc_columns (STATEMENTS k loc e d) # dc_rows (STATEMENTS k loc e d)"
    using rows [OF composed_shape] by (simp add: generate_def CsvStatementRenderer_def)
  then show ?thesis
    by (cases k) (simp_all add: compose_detailed_def compose_mini_def Let_def)
qed

text \<open>
  Every renderer shows the reference of every line of the statement, written as its format writes texts.
\<close>

fun written_as :: "statement_format \<Rightarrow> string \<Rightarrow> string" where
  "written_as FormatCsv = csv_escape"
| "written_as FormatJson = json_string"
| "written_as FormatText = (\<lambda>s. s)"

lemma references_shown:
  "l \<in> set (shown_lines k d) \<Longrightarrow>
     sublist (written_as f (sl_reference l)) (snd (generate (STATEMENTS k loc e) (RENDERERS f) d))"
  by (cases f) (simp_all add: csv.statement_shows_references json.statement_shows_references plain.statement_shows_references
      del: STATEMENTS.simps shown_lines.simps)

section \<open>A statement adds up\<close>

lemma foldl_sum: "foldl (\<lambda>s l. s + f l) (a :: int) xs = a + sum_list (map f xs)"
  by (induction xs arbitrary: a) simp_all

lemma credits_and_debits: "total_credits lines + total_debits lines = sum_list (map sl_amountMinor lines)"
proof -
  have "sum_list (map f (filter (\<lambda>l. 0 < f l) xs)) + sum_list (map f (filter (\<lambda>l. f l < 0) xs)) = sum_list (map f xs)"
    for f :: "statement_line \<Rightarrow> int" and xs by (induction xs) auto
  then show ?thesis by (simp add: total_credits_def total_debits_def foldl_sum)
qed

lemma sum_list_signs:
  "(\<And>x. x \<in> set xs \<Longrightarrow> 0 \<le> f x) \<Longrightarrow> 0 \<le> sum_list (map f xs :: int list)"
  "(\<And>x. x \<in> set xs \<Longrightarrow> f x \<le> 0) \<Longrightarrow> sum_list (map f xs :: int list) \<le> 0"
  by (induction xs; fastforce)+

lemma credits_signs: "0 \<le> total_credits lines" "total_debits lines \<le> 0"
  by (auto simp: total_credits_def total_debits_def foldl_sum intro!: sum_list_signs)

text \<open>The rows the loop over the history hands out, when the entries are in the order of their time stamps.\<close>

lemma history_in_order:
  assumes "entity_store M entries" "millisecond_rows (entries db)" "sorted (map row_key (entries_for i (entries db)))"
    and "length (entries db) < n"
  shows "\<exists>it. iterate_history (em_findEntries M db (\<lambda>r. entry_accountId r = i)) i by_500 n = Some (entries_for i (entries db), it)"
proof -
  let ?rows = "em_findEntries M db (\<lambda>r. entry_accountId r = i)"
  have m: "mset ?rows = mset (entries_for i (entries db))"
    using entity_store.find_entries [OF assms(1)] by (simp add: entries_for_def)
  have ids: "distinct (map entry_id (entries_for i (entries db)))"
    using assms(2) by (simp add: entries_for_def millisecond_rows_def distinct_map_filter)
  have "distinct (map entry_id ?rows)"
    using ids m by (metis mset_eq_imp_distinct_iff mset_map)
  moreover have "set ?rows \<subseteq> set (entries db)"
    using mset_eq_setD [OF m] by (auto simp: entries_for_def)
  ultimately have ms: "millisecond_rows ?rows"
    using assms(2) by (auto simp: millisecond_rows_def)
  have "inj_on row_key (set ?rows)"
    using \<open>distinct (map entry_id ?rows)\<close> by (auto simp: row_key_def distinct_map inj_on_def)
  then have "sort_key row_key ?rows = entries_for i (entries db)"
    by (rule sort_key_inj_key_eq [OF m _ assms(3)])
  moreover have "filter (\<lambda>r. entry_accountId r = i \<and> in_range by_500 r) ?rows = ?rows"
    using mset_eq_setD [OF m] by (auto simp: filter_id_conv in_range_def by_500_def entries_for_def)
  ultimately have h: "history_rows ?rows i by_500 = entries_for i (entries db)"
    by (simp add: history_rows_def)
  have "length ?rows \<le> length (entries db)"
    using mset_eq_length [OF m] by (simp add: entries_for_def)
  then show ?thesis
    using iterate_milliseconds [OF ms, of by_500 n i] assms(4) h by (simp add: by_500_def page_size_def)
qed

lemma trail_opening: "trail_ok b es c \<Longrightarrow> opening_balance (d\<lparr>sd_currentBalanceMinor := c, sd_lines := map line_of es\<rparr>) = b"
  by (cases es) (auto simp: opening_balance_def line_of_def)



end
