(* ===== verification/Operations.thy ===== *)
theory Operations
  imports Accounts History Interest FraudRules JSDate
begin

text \<open>
  The batch jobs (\<open>src/src/modules/operations/end-of-day.template-method.ts\<close>,
  \<open>src/src/modules/operations/jobs.ts\<close>, \<open>src/src/modules/operations/operations.controller.ts\<close>): the
  skeleton \<open>run_job\<close>, and the two jobs that fill it in as values of the record \<open>eod_job\<close>.

  Each account is processed in its own environment \<open>es k\<close>; \<open>es 0\<close> is the environment of the start. The
  report's duration is left out (it is the difference of two readings of the clock), and so are the
  hooks, which only log. The interface of a step is the locale \<open>eod_step\<close>.
\<close>

section \<open>The skeleton\<close>

record job_report =
  jr_job :: string
  jr_startedAt :: string
  jr_scanned :: nat
  jr_affected :: nat
  jr_failed :: nat
  jr_details :: "string list"
  jr_errors :: "string list"

record 'db eod_job =
  ej_name :: string
  ej_load :: "'db \<Rightarrow> account list"
  ej_process :: "env \<Rightarrow> account \<Rightarrow> 'db ledger_state \<Rightarrow> (err + string option) \<times> 'db ledger_state"

definition add_outcome :: "account \<Rightarrow> err + string option \<Rightarrow> job_report \<Rightarrow> job_report" where
  "add_outcome account r report = (case r of
     Inl x \<Rightarrow> report\<lparr>jr_failed := Suc (jr_failed report),
       jr_errors := jr_errors report @ [accountNumber account @ '': '' @ err_message x]\<rparr>
   | Inr None \<Rightarrow> report
   | Inr (Some outcome) \<Rightarrow>
       (if outcome = [] then report
        else report\<lparr>jr_affected := Suc (jr_affected report), jr_details := jr_details report @ [outcome]\<rparr>))"

fun process_all :: "'db eod_job \<Rightarrow> (nat \<Rightarrow> env) \<Rightarrow> nat \<Rightarrow> account list \<Rightarrow> job_report \<times> 'db ledger_state \<Rightarrow>
    job_report \<times> 'db ledger_state" where
  "process_all j es k [] s = s"
| "process_all j es k (account # accounts) (report, st) =
     (case ej_process j (es k) account st of
        (r, st') \<Rightarrow> process_all j es (Suc k) accounts (add_outcome account r report, st'))"

definition run_job :: "'db eod_job \<Rightarrow> (nat \<Rightarrow> env) \<Rightarrow> 'db ledger_state \<Rightarrow> job_report \<times> 'db ledger_state" where
  "run_job j es st = (let accounts = ej_load j (ls_db st) in
     process_all j es 1 accounts
       (\<lparr>jr_job = ej_name j, jr_startedAt = toISOString (nowMs (es 0)), jr_scanned = length accounts, jr_affected = 0,
         jr_failed = 0, jr_details = [], jr_errors = []\<rparr>, st))"

section \<open>The jobs\<close>

definition earns_interest :: "account \<Rightarrow> bool" where
  "earns_interest a \<longleftrightarrow> acc_status a = ACTIVE \<and> acc_type a \<in> {SAVINGS, FIXED_DEPOSIT}"

definition interest_process ::
  "'db entity_manager \<Rightarrow> env \<Rightarrow> account \<Rightarrow> 'db ledger_state \<Rightarrow> (err + string option) \<times> 'db ledger_state" where
  "interest_process M e account st =
     (case calculate_interest (acc_type account) (balanceMinor account) (annualInterestRate account) of
        (strategy, monthlyInterestMinor) \<Rightarrow>
          if monthlyInterestMinor \<le> 0 then (Inr None, st)
          else (case deposit M e (acc_id account) monthlyInterestMinor
                  \<lparr>po_description = Some (''Monthly profit ('' @ strategy @ '')''), po_type = Some INTEREST\<rparr> st of
              (Inl x, st') \<Rightarrow> (Inl x, st')
            | (Inr posting, st') \<Rightarrow>
                (Inr (Some (accountNumber account @ '': +'' @ show_int monthlyInterestMinor @ '' ('' @ strategy @ '') ref '' @
                   pr_reference posting)), st')))"

definition InterestPostingJob :: "'db entity_manager \<Rightarrow> 'db account_repository \<Rightarrow> 'db eod_job" where
  "InterestPostingJob M R =
     \<lparr>ej_name = ''interest-posting'', ej_load = (\<lambda>db. ar_find R db earns_interest), ej_process = interest_process M\<rparr>"

definition DAY_MS :: int where
  "DAY_MS = 24 * 3600 * 1000"

text \<open>\<open>findOne\<close> ordered by \<open>createdAt\<close>, newest first; \<open>lastActivity?.createdAt ?? account.createdAt\<close> in milliseconds.\<close>

definition last_seen :: "'db entity_manager \<Rightarrow> 'db \<Rightarrow> account \<Rightarrow> int" where
  "last_seen M db account =
     (case rev (sort_key entry_createdAt (em_findEntries M db (\<lambda>r. entry_accountId r = acc_id account))) of
        [] \<Rightarrow> js_date_ms (acc_createdAt account)
      | lastActivity # _ \<Rightarrow> js_date_ms (entry_createdAt lastActivity))"

definition dormant_text :: "account \<Rightarrow> int \<Rightarrow> string" where
  "dormant_text account lastSeen = accountNumber account @ '': inactive since '' @ take 10 (toISOString lastSeen)"

definition dormancy_process ::
  "'db entity_manager \<Rightarrow> int \<Rightarrow> env \<Rightarrow> account \<Rightarrow> 'db ledger_state \<Rightarrow> (err + string option) \<times> 'db ledger_state" where
  "dormancy_process M inactiveDays e account st = (let
     cutoff = nowMs e - inactiveDays * DAY_MS;
     lastSeen = last_seen M (ls_db st) account
   in if cutoff \<le> lastSeen then (Inr None, st) else (Inr (Some (dormant_text account lastSeen)), st))"

definition DormancyReviewJob :: "'db entity_manager \<Rightarrow> 'db account_repository \<Rightarrow> int \<Rightarrow> 'db eod_job" where
  "DormancyReviewJob M R inactiveDays =
     \<lparr>ej_name = ''dormancy-review'', ej_load = (\<lambda>db. ar_find R db (\<lambda>a. acc_status a = ACTIVE)),
      ej_process = dormancy_process M inactiveDays\<rparr>"

text \<open>The controller's table of jobs; a name every object inherits is found in it, but is not a job.\<close>

definition operations_run ::
  "'db entity_manager \<Rightarrow> 'db account_repository \<Rightarrow> (nat \<Rightarrow> env) \<Rightarrow> string \<Rightarrow> 'db ledger_state \<Rightarrow> (err + job_report) \<times> 'db ledger_state" where
  "operations_run M R es name st = (let
     jobs = map (\<lambda>j. (ej_name j, j)) [InterestPostingJob M R, DormancyReviewJob M R 180]
   in case map_of jobs name of
        Some job \<Rightarrow> (case run_job job es st of (report, st') \<Rightarrow> (Inr report, st'))
      | None \<Rightarrow>
          (Inl (if name \<in> set inherited_names then PlainError ''job.run is not a function''
             else DomainError NotFound (''Unknown job '' @ name) (Some [(''available'', DList (map fst jobs))])), st))"

section \<open>What every job guarantees\<close>

text \<open>The report adds up, whatever the steps do.\<close>

definition counts_ok :: "job_report \<Rightarrow> bool" where
  "counts_ok r \<longleftrightarrow> jr_affected r = length (jr_details r) \<and> jr_failed r = length (jr_errors r)"

lemma add_outcome_simps [simp]:
  "jr_scanned (add_outcome a r report) = jr_scanned report" "jr_job (add_outcome a r report) = jr_job report"
  "counts_ok report \<Longrightarrow> counts_ok (add_outcome a r report)"
  "jr_affected (add_outcome a r report) + jr_failed (add_outcome a r report) \<le> Suc (jr_affected report + jr_failed report)"
  by (auto simp: add_outcome_def counts_ok_def split: sum.splits option.splits)

lemma process_all_counts:
  assumes "counts_ok report" "process_all j es k accounts (report, st) = (report', st')"
  shows "counts_ok report' \<and> jr_scanned report' = jr_scanned report \<and>
    jr_affected report' + jr_failed report' \<le> jr_affected report + jr_failed report + length accounts"
  using assms
proof (induction accounts arbitrary: k report st)
  case (Cons a accounts)
  obtain r st1 where p: "ej_process j (es k) a st = (r, st1)" by (cases "ej_process j (es k) a st")
  have "counts_ok (add_outcome a r report)" using Cons.prems(1) by simp
  from Cons.IH [OF this, of "Suc k" st1] show ?case
    using Cons.prems(2) p add_outcome_simps(4) [of a r report] by (auto simp del: add_outcome_simps(4))
qed simp

lemma run_job_counts:
  assumes "run_job j es st = (report, st')"
  shows "jr_scanned report = length (ej_load j (ls_db st)) \<and> jr_affected report = length (jr_details report) \<and>
    jr_failed report = length (jr_errors report) \<and> jr_affected report + jr_failed report \<le> jr_scanned report"
  using process_all_counts [OF _ assms [unfolded run_job_def Let_def]] by (simp add: counts_ok_def)

locale eod_step =
  fixes J :: "'db eod_job" and good :: "env \<Rightarrow> bool" and keeps :: "'db ledger_state \<Rightarrow> bool"
  assumes step_keeps: "good e \<Longrightarrow> keeps st \<Longrightarrow> keeps (snd (ej_process J e a st))"
begin

lemma process_all_keeps: "(\<And>k. good (es k)) \<Longrightarrow> keeps st \<Longrightarrow> keeps (snd (process_all J es k accounts (report, st)))"
proof (induction accounts arbitrary: k report st)
  case (Cons a accounts)
  then show ?case using step_keeps [of "es k" st a] by (simp add: case_prod_beta)
qed simp

text \<open>A run, with however many failures, keeps what every step keeps.\<close>

lemma run_keeps: "(\<And>k. good (es k)) \<Longrightarrow> keeps st \<Longrightarrow> keeps (snd (run_job J es st))"
  by (simp add: run_job_def Let_def process_all_keeps)

end

lemma interest_process_applies:
  assumes "entity_store M entries"
  shows "\<exists>ps. applies M entries ps (ls_db st) (ls_db (snd (interest_process M e a st)))"
proof -
  obtain strategy n where c: "calculate_interest (acc_type a) (balanceMinor a) (annualInterestRate a) = (strategy, n)"
    by (cases "calculate_interest (acc_type a) (balanceMinor a) (annualInterestRate a)")
  have "snd (interest_process M e a st) = (if n \<le> 0 then st else snd (deposit M e (acc_id a) n
      \<lparr>po_description = Some (''Monthly profit ('' @ strategy @ '')''), po_type = Some INTEREST\<rparr> st))"
    by (simp add: interest_process_def c split: prod.splits sum.splits)
  then show ?thesis
    using applies_none entity_store.deposit_applies [OF assms] by (simp split: if_splits)
qed

lemma interest_step: "entity_store M entries \<Longrightarrow> eod_step (InterestPostingJob M R) (\<lambda>_. True) (\<lambda>st. ledger_inv M entries (ls_db st))"
  by unfold_locales (simp add: InterestPostingJob_def applies_ex_inv [OF interest_process_applies])

interpretation interest_job: eod_step "InterestPostingJob tables_manager tables_repository" "\<lambda>_. True" "\<lambda>st. ledger_inv tables_manager entryRows (ls_db st)"
  by (rule interest_step [OF tables_store])

interpretation dormancy_job: eod_step "DormancyReviewJob M R days" "\<lambda>_. True" "\<lambda>st. st = st0" for M R days st0
  by unfold_locales (simp add: DormancyReviewJob_def dormancy_process_def Let_def)

section \<open>Posting interest\<close>

abbreviation interest_of :: "account \<Rightarrow> int" where
  "interest_of a \<equiv> snd (calculate_interest (acc_type a) (balanceMinor a) (annualInterestRate a))"

definition interest_due :: "string \<Rightarrow> account list \<Rightarrow> int" where
  "interest_due i xs = sum_list (map (\<lambda>a. max 0 (interest_of a)) (filter (\<lambda>a. acc_id a = i) xs))"

lemma interest_process_pays:
  assumes "entity_store M entries" "em_findAccount M (ls_db st) (acc_id a) = Some a'" "acc_status a' = ACTIVE"
    "0 \<le> balanceMinor a'"
  obtains outcome st' ps where "interest_process M e a st = (Inr outcome, st')"
    and "outcome \<noteq> Some []" "outcome = None \<longleftrightarrow> interest_of a \<le> 0"
    and "applies M entries ps (ls_db st) (ls_db st')" "length ps = (if 0 < interest_of a then 1 else 0)"
    and "\<And>i. net i ps = (if acc_id a = i then max 0 (interest_of a) else 0)"
proof (cases "interest_of a \<le> 0")
  case True
  then show thesis
    by (intro that [of None st "[]"]) (auto simp: interest_process_def case_prod_beta applies_refl)
next
  case False
  define opts where "opts = \<lparr>po_description = Some (''Monthly profit ('' @
      fst (calculate_interest (acc_type a) (balanceMinor a) (annualInterestRate a)) @ '')''), po_type = Some INTEREST\<rparr>"
  have "deposit_ok (interest_of a) a'" using False assms(3) by (simp add: deposit_ok_def)
  then have "is_ok (fst (deposit M e (acc_id a) (interest_of a) opts st))"
    using entity_store.deposit_succeeds [OF assms(1,2)] assms(4) by blast
  then obtain r st' where d: "deposit M e (acc_id a) (interest_of a) opts st = (Inr r, st')"
    by (cases "deposit M e (acc_id a) (interest_of a) opts st"; cases "fst (deposit M e (acc_id a) (interest_of a) opts st)") auto
  obtain ps where ps: "applies M entries ps (ls_db st) (ls_db st')" "length ps = 1" "\<And>i. net i ps = (if acc_id a = i then interest_of a else 0)"
    by (rule entity_store.deposit_ok_spec [OF assms(1) d]) (rule that, auto)
  have run: "interest_process M e a st = (Inr (Some (accountNumber a @ '': +'' @ show_int (interest_of a) @ '' ('' @
      fst (calculate_interest (acc_type a) (balanceMinor a) (annualInterestRate a)) @ '') ref '' @ pr_reference r)), st')"
    using False d by (simp add: interest_process_def case_prod_beta opts_def)
  show thesis
    using False ps by (intro that [OF run _ _ ps(1)]) auto
qed

lemma process_all_pays:
  assumes "entity_store M entries" "ledger_inv M entries (ls_db st)"
    and "\<forall>a \<in> set xs. \<exists>a'. em_findAccount M (ls_db st) (acc_id a) = Some a' \<and> acc_status a' = ACTIVE"
  shows "\<exists>report' st' ps. process_all (InterestPostingJob M R) es k xs (report, st) = (report', st') \<and>
    applies M entries ps (ls_db st) (ls_db st') \<and> jr_failed report' = jr_failed report \<and>
    jr_affected report' = jr_affected report + length (filter (\<lambda>a. 0 < interest_of a) xs) \<and>
    length ps = length (filter (\<lambda>a. 0 < interest_of a) xs) \<and> (\<forall>i. net i ps = interest_due i xs)"
  using assms(2,3)
proof (induction xs arbitrary: k report st)
  case Nil
  show ?case
    by (intro exI [of _ report] exI [of _ st] exI [of _ "[]"]) (simp add: applies_refl interest_due_def)
next
  case (Cons a xs)
  obtain a' where a': "em_findAccount M (ls_db st) (acc_id a) = Some a'" "acc_status a' = ACTIVE" using Cons.prems(2) by auto
  then have b: "0 \<le> balanceMinor a'" using Cons.prems(1) by (simp add: ledger_inv_def)
  obtain outcome st1 ps1 where 1: "interest_process M (es k) a st = (Inr outcome, st1)" "outcome \<noteq> Some []"
    "outcome = None \<longleftrightarrow> interest_of a \<le> 0" "applies M entries ps1 (ls_db st) (ls_db st1)"
    "length ps1 = (if 0 < interest_of a then 1 else 0)" "\<And>i. net i ps1 = (if acc_id a = i then max 0 (interest_of a) else 0)"
    using interest_process_pays [OF assms(1) a' b] by metis
  have "\<exists>y'. em_findAccount M (ls_db st1) (acc_id y) = Some y' \<and> acc_status y' = ACTIVE" if "y \<in> set xs" for y
  proof -
    from that Cons.prems(2) obtain y' where y': "em_findAccount M (ls_db st) (acc_id y) = Some y'" "acc_status y' = ACTIVE" by auto
    from applies_account [OF 1(4) y'(1)] y'(2) show ?thesis by (auto dest: same_termsD(2))
  qed
  with Cons.IH [OF applies_inv [OF 1(4) Cons.prems(1)], of "Suc k" "add_outcome a (Inr outcome) report"]
  obtain report' st' ps where 2: "process_all (InterestPostingJob M R) es (Suc k) xs (add_outcome a (Inr outcome) report, st1) = (report', st')"
    "applies M entries ps (ls_db st1) (ls_db st')" "jr_failed report' = jr_failed (add_outcome a (Inr outcome) report)"
    "jr_affected report' = jr_affected (add_outcome a (Inr outcome) report) + length (filter (\<lambda>a. 0 < interest_of a) xs)"
    "length ps = length (filter (\<lambda>a. 0 < interest_of a) xs)" "\<forall>i. net i ps = interest_due i xs"
    by blast
  have "process_all (InterestPostingJob M R) es k (a # xs) (report, st) = (report', st')"
    using 1(1) 2(1) by (simp add: InterestPostingJob_def)
  then show ?case
    using applies_trans [OF 1(4) 2(2)] 1(2,3,5,6) 2(3-6)
    by (intro exI [of _ report'] exI [of _ st'] exI [of _ "ps1 @ ps"])
      (auto simp: add_outcome_def interest_due_def split: option.splits)
qed

text \<open>The accounts table and its lookup by key agree.\<close>

definition keyed :: "'db entity_manager \<Rightarrow> ('db \<Rightarrow> account list) \<Rightarrow> 'db \<Rightarrow> bool" where
  "keyed M accounts db \<longleftrightarrow> distinct (map acc_id (accounts db)) \<and>
     (\<forall>a \<in> set (accounts db). em_findAccount M db (acc_id a) = Some a)"

lemma interest_due_own:
  assumes "distinct (map acc_id xs)" "a \<in> set xs" "mset ys = mset (filter P xs)"
  shows "interest_due (acc_id a) ys = (if P a then max 0 (interest_of a) else 0)"
proof -
  have due: "interest_due i zs = sum_mset (image_mset (\<lambda>a. max 0 (interest_of a)) (filter_mset (\<lambda>a. acc_id a = i) (mset zs)))" for i zs
    unfolding interest_due_def by (simp flip: sum_mset_sum_list)
  have "interest_due (acc_id a) ys = interest_due (acc_id a) (filter P xs)"
    unfolding due assms(3) ..
  moreover have "filter (\<lambda>x. acc_id x = acc_id a) xs = [a]"
    using assms(1,2)
  proof (induction xs)
    case (Cons x xs)
    then show ?case by (cases "x = a") (auto simp: filter_empty_conv image_iff)
  qed simp
  moreover have "filter Q (filter P xs) = filter P (filter Q xs)" for Q
    by (simp add: conj_commute)
  ultimately show ?thesis
    by (simp add: interest_due_def del: filter_filter)
qed

text \<open>
  C16: The interest run pays everyone exactly once: no account fails, every active savings or fixed
  deposit account gains exactly the monthly interest of the balance and rate it had at the start, every
  other account keeps its balance, the report counts the accounts paid, one ledger entry is written for
  each, and the books stay balanced.
\<close>
theorem interest_run_pays:
  assumes "account_store M entries R accounts" "ledger_inv M entries (ls_db st)" "keyed M accounts (ls_db st)"
    and "run_job (InterestPostingJob M R) es st = (report, st')" "a \<in> set (accounts (ls_db st))"
  shows "moves_by M (ls_db st) (ls_db st') (acc_id a) (if earns_interest a then max 0 (interest_of a) else 0) \<and>
    jr_failed report = 0 \<and> jr_scanned report = length (filter earns_interest (accounts (ls_db st))) \<and>
    jr_affected report = length (filter (\<lambda>b. earns_interest b \<and> 0 < interest_of b) (accounts (ls_db st))) \<and>
    length (entries (ls_db st')) = length (entries (ls_db st)) + jr_affected report \<and>
    ledger_inv M entries (ls_db st')"
proof -
  let ?all = "accounts (ls_db st)" and ?xs = "ar_find R (ls_db st) earns_interest"
  have store: "entity_store M entries" using assms(1) by (simp add: account_store_def)
  have m: "mset ?xs = mset (filter earns_interest ?all)" by (rule account_store.repo_find [OF assms(1)])
  then have set: "set ?xs = {b \<in> set ?all. earns_interest b}" by (metis mset_eq_setD set_filter)
  have "\<forall>b \<in> set ?xs. \<exists>b'. em_findAccount M (ls_db st) (acc_id b) = Some b' \<and> acc_status b' = ACTIVE"
    using assms(3) unfolding set by (auto simp: keyed_def earns_interest_def)
  note pays = process_all_pays [OF store assms(2) this, where R = R and es = es and k = 1]
  define report0 where "report0 = \<lparr>jr_job = ej_name (InterestPostingJob M R), jr_startedAt = toISOString (nowMs (es 0)),
    jr_scanned = length ?xs, jr_affected = 0, jr_failed = 0, jr_details = [], jr_errors = []\<rparr>"
  have "process_all (InterestPostingJob M R) es 1 ?xs (report0, st) = (report, st')"
    using assms(4) by (simp add: run_job_def Let_def report0_def InterestPostingJob_def)
  then obtain ps where r: "applies M entries ps (ls_db st) (ls_db st')" "jr_failed report = 0"
    "jr_affected report = length (filter (\<lambda>a. 0 < interest_of a) ?xs)"
    "length ps = length (filter (\<lambda>a. 0 < interest_of a) ?xs)" "\<forall>i. net i ps = interest_due i ?xs"
    using pays [of report0] by (auto simp: report0_def)
  have "length (filter Q ?xs) = length (filter Q (filter earns_interest ?all))" for Q
    using m by (metis mset_filter size_mset)
  moreover have "length ?xs = length (filter earns_interest ?all)"
    using m by (rule mset_eq_length)
  moreover have "moves_by M (ls_db st) (ls_db st') (acc_id a) (if earns_interest a then max 0 (interest_of a) else 0)"
    using interest_due_own [OF _ assms(5) m] r(5) assms(3) by (intro applies_moves_by [OF r(1)]) (simp add: keyed_def)
  moreover have "length (entries (ls_db st')) = length (entries (ls_db st)) + length ps"
    using applies_entries [OF r(1)] by (metis length_append length_map)
  moreover have "jr_scanned report = length ?xs"
    using run_job_counts [OF assms(4)] by (simp add: InterestPostingJob_def)
  ultimately show ?thesis
    using r applies_inv [OF r(1) assms(2)] by (simp add: conj_commute)
qed

lemma sample_interest: "interest_of (sample_account ''a'' ACTIVE 50000) = 145" "earns_interest (sample_account ''a'' ACTIVE 50000)"
  by (code_simp, simp add: earns_interest_def sample_account_def)

theorem interest_run_pays_witness:
  "moves_by tables_manager sample_db (ls_db (snd (run_job (InterestPostingJob tables_manager tables_repository) (\<lambda>_. sample_env) sample_state))) ''a'' 145"
proof -
  have k: "keyed tables_manager accountRows (ls_db sample_state)"
    by (simp add: keyed_def sample_defs)
  have a: "sample_account ''a'' ACTIVE 50000 \<in> set (accountRows (ls_db sample_state))" by (simp add: sample_db_def)
  have inv: "ledger_inv tables_manager entryRows (ls_db sample_state)" by (simp add: sample_inv)
  show ?thesis
    using interest_run_pays [OF tas.account_store_axioms inv k _ a, of "\<lambda>_. sample_env"] sample_interest
    by (cases "run_job (InterestPostingJob tables_manager tables_repository) (\<lambda>_. sample_env) sample_state") auto
qed

section \<open>Reviewing dormant accounts\<close>

text \<open>What counts as inactive at time \<open>now\<close>: no entry, or failing any entry no opening, since the cutoff.\<close>

definition inactive_since :: "int \<Rightarrow> ledger_entry list \<Rightarrow> account \<Rightarrow> bool" where
  "inactive_since cutoff es a \<longleftrightarrow>
     (if entries_for (acc_id a) es = [] then js_date_ms (acc_createdAt a) < cutoff
      else \<forall>r \<in> set (entries_for (acc_id a) es). js_date_ms (entry_createdAt r) < cutoff)"

lemma js_date_mono: "x \<le> y \<Longrightarrow> js_date_ms x \<le> js_date_ms y"
  by (simp add: js_date_ms_def zdiv_mono1)

lemma last_seen_inactive:
  assumes "entity_store M entries"
  shows "last_seen M db a < cutoff \<longleftrightarrow> inactive_since cutoff (entries db) a"
proof -
  let ?rows = "em_findEntries M db (\<lambda>r. entry_accountId r = acc_id a)"
  let ?sorted = "sort_key entry_createdAt ?rows"
  have set: "set ?rows = set (entries_for (acc_id a) (entries db))"
    using entity_store.set_find_entries [OF assms, of db "\<lambda>r. entry_accountId r = acc_id a"] by (auto simp: entries_for_def)
  then have empty: "?rows = [] \<longleftrightarrow> entries_for (acc_id a) (entries db) = []"
    by (metis set_empty)
  show ?thesis
  proof (cases "rev ?sorted")
    case Nil
    then have "?rows = []" by (metis rev_is_Nil_conv set_empty set_sort)
    with Nil empty show ?thesis by (simp add: last_seen_def inactive_since_def)
  next
    case (Cons r rs)
    then have s: "?sorted = rev rs @ [r]" by (metis rev.simps(2) rev_rev_ident)
    have "sorted (map entry_createdAt ?sorted)" by simp
    then have max: "\<forall>x \<in> set ?rows. entry_createdAt x \<le> entry_createdAt r" and mem: "r \<in> set ?rows"
      using s by (auto simp: sorted_append simp flip: set_sort [of entry_createdAt ?rows])
    have "?rows \<noteq> []" using mem by auto
    then have "inactive_since cutoff (entries db) a \<longleftrightarrow> (\<forall>x \<in> set ?rows. js_date_ms (entry_createdAt x) < cutoff)"
      using empty by (simp add: inactive_since_def set)
    also have "\<dots> \<longleftrightarrow> js_date_ms (entry_createdAt r) < cutoff"
      using max mem js_date_mono by (meson le_less_trans)
    also have "\<dots> \<longleftrightarrow> last_seen M db a < cutoff" using Cons by (simp add: last_seen_def)
    finally show ?thesis by simp
  qed
qed

lemma process_all_dormancy:
  assumes "entity_store M entries"
  shows "process_all (DormancyReviewJob M R days) es k xs (report, st) = (report', st') \<Longrightarrow>
    st' = st \<and> jr_errors report' = jr_errors report \<and> jr_failed report' = jr_failed report \<and>
    jr_details report' = jr_details report @ map (\<lambda>(j, a). dormant_text a (last_seen M (ls_db st) a))
      (filter (\<lambda>(j, a). inactive_since (nowMs (es j) - days * DAY_MS) (entries (ls_db st)) a) (enumerate k xs))"
proof (induction xs arbitrary: k report)
  case (Cons a xs)
  have nonempty: "dormant_text a l \<noteq> []" for l by (simp add: dormant_text_def)
  have "(ej_process (DormancyReviewJob M R days) (es k) a st) =
      (Inr (if inactive_since (nowMs (es k) - days * DAY_MS) (entries (ls_db st)) a
         then Some (dormant_text a (last_seen M (ls_db st) a)) else None), st)"
    by (simp add: DormancyReviewJob_def dormancy_process_def Let_def not_le flip: last_seen_inactive [OF assms])
  with Cons show ?case by (auto simp: add_outcome_def nonempty)
qed simp

text \<open>
  The dormancy review reads only: it changes nothing and cannot fail, and it reports exactly the
  active accounts whose newest entry, or whose opening where there is none, is older than the number of
  days asked for when the account is looked at.
\<close>
theorem dormancy_review_exact:
  assumes "account_store M entries R accounts" "run_job (DormancyReviewJob M R days) es st = (report, st')"
  shows "st' = st \<and> jr_failed report = 0 \<and>
    (\<exists>xs. mset xs = mset (filter (\<lambda>a. acc_status a = ACTIVE) (accounts (ls_db st))) \<and> jr_scanned report = length xs \<and>
      jr_details report = map (\<lambda>(j, a). dormant_text a (last_seen M (ls_db st) a))
        (filter (\<lambda>(j, a). inactive_since (nowMs (es j) - days * DAY_MS) (entries (ls_db st)) a) (enumerate 1 xs)))"
proof -
  let ?J = "DormancyReviewJob M R days"
  let ?xs = "ar_find R (ls_db st) (\<lambda>a. acc_status a = ACTIVE)"
  have store: "entity_store M entries" using assms(1) by (simp add: account_store_def)
  have "mset ?xs = mset (filter (\<lambda>a. acc_status a = ACTIVE) (accounts (ls_db st)))"
    by (rule account_store.repo_find [OF assms(1)])
  moreover have "jr_scanned report = length ?xs"
    using run_job_counts [OF assms(2)] by (simp add: DormancyReviewJob_def)
  moreover have load: "ej_load ?J (ls_db st) = ?xs" by (simp add: DormancyReviewJob_def)
  note process_all_dormancy [OF store assms(2) [unfolded run_job_def Let_def load]]
  ultimately show ?thesis by auto
qed

theorem dormancy_review_exact_witness:
  "length (jr_details (fst (run_job (DormancyReviewJob tables_manager tables_repository 180)
     (\<lambda>_. sample_env\<lparr>nowMs := 181 * DAY_MS\<rparr>) sample_state))) = 2"
proof -
  obtain report st' where run: "run_job (DormancyReviewJob tables_manager tables_repository 180)
      (\<lambda>_. sample_env\<lparr>nowMs := 181 * DAY_MS\<rparr>) sample_state = (report, st')" by fastforce
  have active: "filter (\<lambda>a. acc_status a = ACTIVE) (accountRows sample_db) =
      [sample_account ''a'' ACTIVE 50000, sample_account ''b'' ACTIVE 20000]"
    by (simp add: sample_db_def)
  obtain xs where xs: "mset xs = mset [sample_account ''a'' ACTIVE 50000, sample_account ''b'' ACTIVE 20000]"
    and d: "jr_details report = map (\<lambda>(j, a). dormant_text a (last_seen tables_manager sample_db a))
        (filter (\<lambda>(j, a). inactive_since DAY_MS (entryRows sample_db) a) (enumerate 1 xs))"
    using dormancy_review_exact [OF tas.account_store_axioms run] by (auto simp: active)
  have "\<forall>a \<in> set xs. inactive_since DAY_MS (entryRows sample_db) a"
    using mset_eq_setD [OF xs] by (auto simp: inactive_since_def sample_defs js_date_ms_def DAY_MS_def)
  then have "filter (\<lambda>(j, a). inactive_since DAY_MS (entryRows sample_db) a) (enumerate 1 xs) = enumerate 1 xs"
    by (auto simp: filter_id_conv in_set_enumerate_eq)
  then show ?thesis using d mset_eq_length [OF xs] by (simp add: run)
qed

end
