(* ===== verification/Notifications.thy ===== *)
theory Notifications
  imports EventBus History
begin

text \<open>
  The worker that turns events into notifications
  (\<open>src/src/modules/messaging/consumers/notification.consumer.ts\<close>,
  \<open>src/src/modules/messaging/consumers/notification-message.formatter.ts\<close>) and the two endpoints that show
  them (\<open>src/src/modules/notifications/notifications.controller.ts\<close>).

  The state of the worker is the record \<open>worker_state\<close>: the notifications table, the dead letters it has
  sent, and whether the database and the broker answer. The texts of errors are the platform's: the
  message of a failed \<open>JSON.parse\<close> and of a failed Joi validation are arguments, and so is the parser
  itself, of which the properties only ask that it reads back what \<open>JSON.stringify\<close> wrote. What a
  consumer owes to redelivered messages is the locale \<open>keyed_sink\<close>.
\<close>

section \<open>The sentence\<close>

text \<open>\<open>Number(x)\<close> and the template \<open>${x}\<close> of a payload field.\<close>

fun number_of :: "json option \<Rightarrow> jsnum" where
  "number_of None = NaN"
| "number_of (Some JNull) = Finite 0"
| "number_of (Some (JNum i)) = Finite (of_int i)"
| "number_of (Some (JStr s)) = js_number s"
| "number_of (Some (JObj f)) = NaN"

fun num_div_100 :: "jsnum \<Rightarrow> jsnum" where
  "num_div_100 (Finite x) = Finite (dbl (x / 100))"
| "num_div_100 v = v"

fun to_fixed_2 :: "jsnum \<Rightarrow> string" where
  "to_fixed_2 (Finite x) = (if \<bar>x\<bar> < 10 ^ 21 then toFixed 2 x else rat_to_string x)"
| "to_fixed_2 v = number_to_string v"

definition pkr :: "json option \<Rightarrow> string" where
  "pkr minor = to_fixed_2 (num_div_100 (number_of minor))"

definition shown :: "json option \<Rightarrow> string" where
  "shown m = (case m of None \<Rightarrow> ''undefined'' | Some v \<Rightarrow> js_string v)"

definition formatNotification :: "string \<Rightarrow> payload \<Rightarrow> string" where
  "formatNotification t p = (let f = map_of p in
     case event_of_name t of
       Some ACCOUNT_OPENED \<Rightarrow>
         ''Welcome '' @ shown (f ''ownerName'') @ ''! Your '' @ shown (f ''type'') @ '' account '' @ shown (f ''accountNumber'') @ '' is open.''
     | Some ACCOUNT_STATUS_CHANGED \<Rightarrow>
         ''Your account status changed from '' @ shown (f ''from'') @ '' to '' @ shown (f ''to'') @ ''.''
     | Some MONEY_DEPOSITED \<Rightarrow>
         ''Deposit of '' @ pkr (f ''amountMinor'') @ '' received. New balance '' @ pkr (f ''balanceAfterMinor'') @
         ''. Ref '' @ shown (f ''reference'') @ ''.''
     | Some MONEY_WITHDRAWN \<Rightarrow>
         ''Withdrawal of '' @ pkr (f ''amountMinor'') @ ''. New balance '' @ pkr (f ''balanceAfterMinor'') @
         ''. Ref '' @ shown (f ''reference'') @ ''.''
     | Some MONEY_TRANSFERRED \<Rightarrow>
         ''Transfer of '' @ pkr (f ''amountMinor'') @ '' completed (fee '' @ pkr (f ''feeMinor'') @ ''). Ref '' @
         shown (f ''reference'') @ ''.''
     | Some TRANSACTION_REVERSED \<Rightarrow> ''Transaction '' @ shown (f ''originalReference'') @ '' was reversed.''
     | Some LOAN_DECIDED \<Rightarrow>
         ''Your loan application for '' @ pkr (f ''amountMinor'') @ '' is '' @ shown (f ''status'') @ ''.''
     | Some CUSTOMER_ONBOARDED \<Rightarrow> ''Onboarding complete for '' @ shown (f ''ownerName'') @ ''.''
     | None \<Rightarrow> ''Event '' @ t)"

section \<open>The worker\<close>

record notification =
  nt_eventId :: string
  nt_eventType :: string
  nt_message :: string
  nt_payload :: payload
  nt_createdAt :: int

record dead_letter =
  dl_value :: string
  dl_originalTopic :: string
  dl_error :: string

record worker_state =
  ws_notifications :: "notification list"
  ws_deadLetters :: "dead_letter list"
  ws_dbUp :: bool
  ws_brokerUp :: bool

record worker_platform =
  wp_parse :: "string \<Rightarrow> string + json"
  wp_joi :: joi
  wp_joiError :: "json \<Rightarrow> string"

text \<open>The effect of \<open>on conflict do nothing\<close> on the rows.\<close>

definition put_row :: "notification \<Rightarrow> notification list \<Rightarrow> notification list" where
  "put_row n rows = (if nt_eventId n \<in> nt_eventId ` set rows then rows else rows @ [n])"

text \<open>
  \<open>insert ... on conflict do nothing\<close>: refused when the database does not answer or the message does not
  fit its column, without effect when the event id is there already.
\<close>

definition insert_or_ignore :: "notification \<Rightarrow> worker_state \<Rightarrow> err + worker_state" where
  "insert_or_ignore n s =
     (if \<not> ws_dbUp s then Inl (PlainError ''connection terminated'')
      else if 255 < length (nt_message n) then Inl (PlainError ''value too long for type character varying(255)'')
      else Inr (s\<lparr>ws_notifications := put_row n (ws_notifications s)\<rparr>))"

text \<open>The row of a valid event.\<close>

definition notification_of :: "int \<Rightarrow> json \<Rightarrow> notification" where
  "notification_of now v = (case v of
     JObj f \<Rightarrow>
       (case (map_of f ''eventId'', map_of f ''eventType'', map_of f ''payload'') of
          (Some (JStr i), Some (JStr t), Some (JObj p)) \<Rightarrow>
            \<lparr>nt_eventId = i, nt_eventType = t, nt_message = formatNotification t p, nt_payload = p, nt_createdAt = now\<rparr>
        | _ \<Rightarrow> \<lparr>nt_eventId = [], nt_eventType = [], nt_message = [], nt_payload = [], nt_createdAt = now\<rparr>)
   | _ \<Rightarrow> \<lparr>nt_eventId = [], nt_eventType = [], nt_message = [], nt_payload = [], nt_createdAt = now\<rparr>)"

definition process_message :: "worker_platform \<Rightarrow> int \<Rightarrow> string \<Rightarrow> worker_state \<Rightarrow> err + worker_state" where
  "process_message w now raw s = (case wp_parse w raw of
     Inl syntaxError \<Rightarrow> Inl (PlainError syntaxError)
   | Inr v \<Rightarrow>
       if \<not> validateEvent (wp_joi w) v then Inl (PlainError (''Invalid event: '' @ wp_joiError w v))
       else insert_or_ignore (notification_of now v) s)"

definition handle :: "worker_platform \<Rightarrow> int \<Rightarrow> string \<Rightarrow> string option \<Rightarrow> worker_state \<Rightarrow> (err + unit) \<times> worker_state" where
  "handle w now topic val s = (let raw = (case val of None \<Rightarrow> [] | Some t \<Rightarrow> t) in
     case process_message w now raw s of
       Inr s' \<Rightarrow> (Inr (), s')
     | Inl x \<Rightarrow>
         if ws_brokerUp s
         then (Inr (), s\<lparr>ws_deadLetters := ws_deadLetters s @
           [\<lparr>dl_value = raw, dl_originalTopic = topic, dl_error = err_message x\<rparr>]\<rparr>)
         else (Inl (PlainError ''broker not available''), s))"

text \<open>The delay before the next attempt to start, in milliseconds.\<close>

definition retry_delay :: "nat \<Rightarrow> nat" where
  "retry_delay attempt = min 30000 (2000 * attempt)"

section \<open>The endpoints\<close>

definition latest :: "notification list \<Rightarrow> notification list" where
  "latest rows = take 50 (sort_key (\<lambda>n. - nt_createdAt n) rows)"

record event_stats =
  st_observers :: "string list"
  st_counts :: "(string \<times> nat) list"
  st_transport :: string

definition event_stats_of :: "bus_state \<Rightarrow> event_stats" where
  "event_stats_of s =
     \<lparr>st_observers = map (\<lambda>x. obs_name (snd x)) app_observers, st_counts = counts s,
      st_transport = (if kafkaEnabled s then ''kafka''
        else ''in-memory ('' @ show_int (int (length (published s))) @ '' events held)'')\<rparr>"

section \<open>A sink with keys\<close>

text \<open>
  What idempotent consuming needs of a table: a row whose key is there changes nothing, another row is
  added. Then rows may come again, in any order and any number of times.
\<close>

locale keyed_sink =
  fixes put :: "'r \<Rightarrow> 'r list \<Rightarrow> 'r list" and key :: "'r \<Rightarrow> 'k"
  assumes put_known: "key r \<in> key ` set rows \<Longrightarrow> put r rows = rows"
    and put_new: "key r \<notin> key ` set rows \<Longrightarrow> put r rows = rows @ [r]"
begin

lemma put_keys: "key ` set (put r rows) = insert (key r) (key ` set rows)"
  by (cases "key r \<in> key ` set rows") (auto simp: put_known put_new)

lemma put_distinct: "distinct (map key rows) \<Longrightarrow> distinct (map key (put r rows))"
  by (cases "key r \<in> key ` set rows") (auto simp: put_known put_new)

lemma put_all_keys: "key ` set (foldl (\<lambda>rows r. put r rows) rows rs) = key ` set rs \<union> key ` set rows"
  by (induction rs arbitrary: rows) (auto simp: put_keys)

lemma put_all_distinct: "distinct (map key rows) \<Longrightarrow> distinct (map key (foldl (\<lambda>rows r. put r rows) rows rs))"
  by (induction rs arbitrary: rows) (auto simp: put_distinct)

lemma put_again: "key ` set rs \<subseteq> key ` set rows \<Longrightarrow> foldl (\<lambda>rows r. put r rows) rows rs = rows"
  by (induction rs) (auto simp: put_known)

end

interpretation inbox: keyed_sink put_row nt_eventId
  by unfold_locales (simp_all add: put_row_def)

section \<open>The worker over a sequence of deliveries\<close>

text \<open>A delivery: the message, the time, and whether the database answers then.\<close>

record delivery =
  dy_now :: int
  dy_topic :: string
  dy_value :: string
  dy_dbUp :: bool

definition deliver_to_worker :: "worker_platform \<Rightarrow> worker_state \<Rightarrow> delivery \<Rightarrow> worker_state" where
  "deliver_to_worker w s m = snd (handle w (dy_now m) (dy_topic m) (Some (dy_value m)) (s\<lparr>ws_dbUp := dy_dbUp m\<rparr>))"

definition worker_run :: "worker_platform \<Rightarrow> delivery list \<Rightarrow> worker_state \<Rightarrow> worker_state" where
  "worker_run w ms s = foldl (deliver_to_worker w) s ms"

text \<open>The row a delivery adds, if it adds one.\<close>

definition accepted :: "worker_platform \<Rightarrow> delivery \<Rightarrow> notification option" where
  "accepted w m = (case wp_parse w (dy_value m) of
     Inl _ \<Rightarrow> None
   | Inr v \<Rightarrow> (let n = notification_of (dy_now m) v in
       if validateEvent (wp_joi w) v \<and> dy_dbUp m \<and> length (nt_message n) \<le> 255 then Some n else None))"

lemma deliver_accepted:
  assumes "ws_brokerUp s"
  shows "case accepted w m of
      Some n \<Rightarrow> deliver_to_worker w s m = s\<lparr>ws_dbUp := True, ws_notifications := put_row n (ws_notifications s)\<rparr>
    | None \<Rightarrow> (\<exists>x. deliver_to_worker w s m = s\<lparr>ws_dbUp := dy_dbUp m, ws_deadLetters := ws_deadLetters s @
        [\<lparr>dl_value = dy_value m, dl_originalTopic = dy_topic m, dl_error = x\<rparr>]\<rparr>)"
  using assms
  by (auto simp: accepted_def deliver_to_worker_def handle_def process_message_def insert_or_ignore_def Let_def
      split: sum.splits option.splits if_splits)

lemma deliver_brokerUp: "ws_brokerUp s \<Longrightarrow> ws_brokerUp (deliver_to_worker w s m)"
  using deliver_accepted [of s w m] by (auto split: option.splits)

lemma worker_run_rows:
  "ws_brokerUp s \<Longrightarrow> ws_brokerUp (worker_run w ms s) \<and>
     ws_notifications (worker_run w ms s) = foldl (\<lambda>rows n. put_row n rows) (ws_notifications s) (List.map_filter (accepted w) ms)"
proof (induction ms arbitrary: s)
  case (Cons m ms)
  from Cons.IH [OF deliver_brokerUp [OF Cons.prems, of w m]] deliver_accepted [OF Cons.prems, of w m]
  show ?case by (auto simp: worker_run_def map_filter_def split: option.splits)
qed (simp add: worker_run_def map_filter_def)

lemma worker_run_dead_letters:
  "ws_brokerUp s \<Longrightarrow> \<exists>xs. ws_deadLetters (worker_run w ms s) = ws_deadLetters s @ xs \<and>
     map (\<lambda>d. (dl_value d, dl_originalTopic d)) xs = map (\<lambda>m. (dy_value m, dy_topic m)) (filter (\<lambda>m. accepted w m = None) ms)"
proof (induction ms arbitrary: s)
  case (Cons m ms)
  from Cons.IH [OF deliver_brokerUp [OF Cons.prems, of w m]] obtain xs where
    xs: "ws_deadLetters (worker_run w (m # ms) s) = ws_deadLetters (deliver_to_worker w s m) @ xs"
    "map (\<lambda>d. (dl_value d, dl_originalTopic d)) xs = map (\<lambda>m. (dy_value m, dy_topic m)) (filter (\<lambda>m. accepted w m = None) ms)"
    by (auto simp: worker_run_def)
  with deliver_accepted [OF Cons.prems, of w m] show ?case by (auto split: option.splits)
qed (simp add: worker_run_def)


definition sample_event :: domain_event where
  "sample_event = \<lparr>eventId = ''e1'', eventType = TRANSACTION_REVERSED, occurredAt = ''now'', schemaVersion = 1,
     payload = [(''accountId'', JStr ''a''), (''originalReference'', JStr ''DEP-1''), (''reference'', JStr ''REV-1''),
       (''amountMinor'', JNum 5)]\<rparr>"

definition sample_platform :: worker_platform where
  "sample_platform = \<lparr>wp_parse = (\<lambda>t. if t = ''text'' then Inr (event_json sample_event) else Inl ''unexpected token''),
     wp_joi = \<lparr>joi_uuid = (\<lambda>_. True), joi_isoDate = (\<lambda>_. True), joi_castNumber = (\<lambda>_. None)\<rparr>,
     wp_joiError = (\<lambda>_. ''invalid'')\<rparr>"

definition sample_worker :: worker_state where
  "sample_worker = \<lparr>ws_notifications = [], ws_deadLetters = [], ws_dbUp = True, ws_brokerUp = True\<rparr>"

definition sample_delivery :: "string \<Rightarrow> delivery" where
  "sample_delivery t = \<lparr>dy_now = 1, dy_topic = ''banking.transaction-events'', dy_value = t, dy_dbUp = True\<rparr>"

lemma sample_valid: "validateEvent (wp_joi sample_platform) (event_json sample_event)"
  by (simp add: validateEvent_event_json sample_platform_def sample_event_def schema_ok_def)

lemma notification_of_event:
  "notification_of now (event_json e) =
     \<lparr>nt_eventId = eventId e, nt_eventType = event_name (eventType e),
      nt_message = formatNotification (event_name (eventType e)) (payload e), nt_payload = payload e, nt_createdAt = now\<rparr>"
  by (simp add: notification_of_def event_json_def)

lemma sample_accepted:
  "accepted sample_platform (sample_delivery ''text'') = Some (notification_of 1 (event_json sample_event))"
  "accepted sample_platform (sample_delivery ''garbage'') = None"
proof -
  have "formatNotification ''transaction.reversed'' (payload sample_event) = ''Transaction DEP-1 was reversed.''"
    using event_of_name_event_name [of TRANSACTION_REVERSED]
    by (simp add: formatNotification_def Let_def shown_def sample_event_def)
  then have "length (nt_message (notification_of 1 (event_json sample_event))) \<le> 255"
    by (simp add: notification_of_event sample_event_def)
  then show "accepted sample_platform (sample_delivery ''text'') = Some (notification_of 1 (event_json sample_event))"
    using sample_valid by (simp add: accepted_def sample_delivery_def Let_def) (simp add: sample_platform_def)
  show "accepted sample_platform (sample_delivery ''garbage'') = None"
    by (simp add: accepted_def sample_delivery_def sample_platform_def)
qed


lemma kafka_sent:
  assumes "kafkaEnabled bus" "connected bus" "brokerUp bus"
  shows "kafkaSent (app_publish e bus) = kafkaSent bus @ [kafka_message_of e]"
proof -
  have "deliver e EventForwardingObserver (bus\<lparr>auditLog := a\<rparr>) =
      bus\<lparr>auditLog := a, kafkaSent := kafkaSent bus @ [kafka_message_of e]\<rparr>" for a
    using assms by (simp add: deliver_def EventForwardingObserver_def event_publisher_def kafka_publish_def)
  then show ?thesis by (simp add: app_publish_eq)
qed

text \<open>
  An event that meets its contract reaches the customer: published while the broker is connected it
  is one message, on a topic the worker subscribes to, and once the worker has handled that message with
  the database answering, the inbox has the row of the event with the sentence of its type.
\<close>
theorem event_reaches_inbox:
  assumes "kafkaEnabled bus" "connected bus" "brokerUp bus"
    and "joi_uuid (wp_joi w) (eventId e)" "joi_isoDate (wp_joi w) (occurredAt e)" "schemaVersion e = 1"
    and "schema_ok (wp_joi w) (payloadSchema (eventType e)) (payload e)"
    and "wp_parse w text = Inr (km_value (last (kafkaSent (app_publish e bus))))"
    and "length (formatNotification (event_name (eventType e)) (payload e)) \<le> 255"
    and "eventId e \<notin> nt_eventId ` set (ws_notifications s)" "ws_brokerUp s"
  shows "\<exists>m. kafkaSent (app_publish e bus) = kafkaSent bus @ [m] \<and> km_topic m \<in> set ALL_TOPICS \<and>
    \<lparr>nt_eventId = eventId e, nt_eventType = event_name (eventType e),
     nt_message = formatNotification (event_name (eventType e)) (payload e), nt_payload = payload e, nt_createdAt = now\<rparr>
      \<in> set (ws_notifications (deliver_to_worker w s
          \<lparr>dy_now = now, dy_topic = km_topic m, dy_value = text, dy_dbUp = True\<rparr>))"
proof -
  let ?m = "kafka_message_of e"
  have sent: "kafkaSent (app_publish e bus) = kafkaSent bus @ [?m]"
    by (rule kafka_sent [OF assms(1-3)])
  have topic: "km_topic ?m \<in> set ALL_TOPICS"
    using all_event_types_complete [of "eventType e"] by (simp add: kafka_message_of_def ALL_TOPICS_def)
  have val: "wp_parse w text = Inr (event_json e)" using assms(8) sent by (simp add: kafka_message_of_def)
  have valid: "validateEvent (wp_joi w) (event_json e)" using assms(4-7) by (simp add: validateEvent_event_json)
  let ?d = "\<lparr>dy_now = now, dy_topic = km_topic ?m, dy_value = text, dy_dbUp = True\<rparr>"
  have "accepted w ?d = Some (notification_of now (event_json e))"
    using val valid assms(9) by (simp add: accepted_def notification_of_event)
  with deliver_accepted [OF assms(11), of w ?d]
  have "ws_notifications (deliver_to_worker w s ?d) = put_row (notification_of now (event_json e)) (ws_notifications s)" by simp
  with assms(10) show ?thesis
    using sent topic by (intro exI [of _ ?m]) (simp add: put_row_def notification_of_event)
qed

theorem event_reaches_inbox_witness:
  "\<exists>m. kafkaSent (app_publish sample_event
      \<lparr>kafkaEnabled = True, connected = True, brokerUp = True, kafkaSent = [], published = [], auditLog = [], counts = [], busErrors = []\<rparr>) = [m] \<and>
    ''Transaction DEP-1 was reversed.'' \<in> nt_message ` set (ws_notifications (deliver_to_worker sample_platform sample_worker
      \<lparr>dy_now = 1, dy_topic = km_topic m, dy_value = ''text'', dy_dbUp = True\<rparr>))"
proof -
  let ?bus = "\<lparr>kafkaEnabled = True, connected = True, brokerUp = True, kafkaSent = [], published = [], auditLog = [], counts = [], busErrors = []\<rparr>"
  have up: "kafkaEnabled ?bus" "connected ?bus" "brokerUp ?bus" by simp_all
  have parse: "wp_parse sample_platform ''text'' = Inr (km_value (last (kafkaSent (app_publish sample_event ?bus))))"
    unfolding kafka_sent [OF up] by (simp add: kafka_message_of_def sample_platform_def)
  have sentence: "formatNotification (event_name (eventType sample_event)) (payload sample_event) = ''Transaction DEP-1 was reversed.''"
    using event_of_name_event_name [of TRANSACTION_REVERSED]
    by (simp add: formatNotification_def Let_def shown_def sample_event_def)
  have ok: "joi_uuid (wp_joi sample_platform) (eventId sample_event)" "joi_isoDate (wp_joi sample_platform) (occurredAt sample_event)"
    "schemaVersion sample_event = 1" "schema_ok (wp_joi sample_platform) (payloadSchema (eventType sample_event)) (payload sample_event)"
    "length (formatNotification (event_name (eventType sample_event)) (payload sample_event)) \<le> 255"
    "eventId sample_event \<notin> nt_eventId ` set (ws_notifications sample_worker)" "ws_brokerUp sample_worker"
    unfolding sentence by (simp_all add: sample_platform_def sample_event_def schema_ok_def sample_worker_def)
  from event_reaches_inbox [OF up ok(1-4) parse ok(5-7), of 1] show ?thesis
    unfolding sentence by (elim ex_forward) (auto simp: rev_image_eqI)
qed

end
