(* ===== verification/Rag.thy ===== *)
theory Rag
  imports Core "HOL-Library.Word"
begin

unbundle bit_operations_syntax

text \<open>
  The knowledge assistant: the hashing embeddings and the extractive model
  (\<open>src/src/modules/ai/llm/fake-models.ts\<close>), the store of chunks (\<open>src/src/modules/ai/rag/pgvector.store.ts\<close>),
  ingestion (\<open>src/src/modules/ai/rag/knowledge-ingestion.service.ts\<close>) and question answering
  (\<open>src/src/modules/ai/rag/rag.service.ts\<close>).

  Models behind LangChain, the text splitter, the files and the nearest-neighbour search of PostgreSQL are
  not part of the repository: they are arguments, and what the service relies on is the locale
  \<open>vector_search\<close>. ECMAScript leaves the accuracy of \<open>Math.sqrt\<close> to the implementation, so it is an
  argument, too. A vector is a list of doubles.
\<close>

section \<open>Hashing embeddings\<close>

definition EMBEDDING_DIMENSIONS :: nat where
  "EMBEDDING_DIMENSIONS = 768"

definition word_char :: "char \<Rightarrow> bool" where
  "word_char c \<longleftrightarrow> is_digit c \<or> (97 \<le> (of_char c :: nat) \<and> (of_char c :: nat) \<le> 122)"

text \<open>\<open>s.match(/[a-z0-9]+/g) ?? []\<close>.\<close>

function match_words :: "string \<Rightarrow> string list" where
  "match_words [] = []"
| "match_words (c # s) =
     (if word_char c then (c # takeWhile word_char s) # match_words (dropWhile word_char s) else match_words s)"
  by pat_completeness auto

termination match_words
  by (relation "measure length") (auto simp: less_Suc_eq_le length_dropWhile_le)

definition word_hash :: "string \<Rightarrow> 32 word" where
  "word_hash w = foldl (\<lambda>hash ch. (hash XOR of_nat (of_char ch)) * 16777619) 2166136261 w"

definition bucket :: "string \<Rightarrow> nat" where
  "bucket w = unat (word_hash w) mod EMBEDDING_DIMENSIONS"

definition count_words :: "string list \<Rightarrow> nat list" where
  "count_words ws = foldl (\<lambda>vector w.
     if length w < 3 then vector else vector[bucket w := Suc (vector ! bucket w)]) (replicate EMBEDDING_DIMENSIONS 0) ws"

type_synonym math_sqrt = "nat \<Rightarrow> rat"

definition vectorize :: "math_sqrt \<Rightarrow> string \<Rightarrow> rat list" where
  "vectorize sqr text = (let
     vector = count_words (match_words (toLowerCase text));
     root = sqr (foldl (\<lambda>s v. s + v * v) 0 vector);
     norm = (if root = 0 then 1 else root)
   in map (\<lambda>v. dbl (of_nat v / norm)) vector)"

definition embedDocuments :: "math_sqrt \<Rightarrow> string list \<Rightarrow> rat list list" where
  "embedDocuments sqr texts = map (vectorize sqr) texts"

definition embedQuery :: "math_sqrt \<Rightarrow> string \<Rightarrow> rat list" where
  "embedQuery sqr text = vectorize sqr text"

text \<open>Which words count, and how often a bucket is hit.\<close>

definition long_words :: "string \<Rightarrow> string list" where
  "long_words text = filter (\<lambda>w. 3 \<le> length w) (match_words (toLowerCase text))"

lemma bucket_less: "bucket w < EMBEDDING_DIMENSIONS"
  by (simp add: bucket_def EMBEDDING_DIMENSIONS_def)

lemma count_words_spec:
  "count_words ws = map (\<lambda>i. length (filter (\<lambda>w. 3 \<le> length w \<and> bucket w = i) ws)) [0..<EMBEDDING_DIMENSIONS]"
proof (induction ws rule: rev_induct)
  case Nil
  show ?case by (simp add: count_words_def map_replicate_const)
next
  case (snoc w ws)
  let ?f = "\<lambda>ws i. length (filter (\<lambda>w. 3 \<le> length w \<and> bucket w = i) ws)"
  have step: "count_words (ws @ [w]) = (if length w < 3 then count_words ws
      else (count_words ws)[bucket w := Suc (count_words ws ! bucket w)])"
    by (simp add: count_words_def)
  show ?case
  proof (cases "length w < 3")
    case True
    then show ?thesis by (simp add: step snoc)
  next
    case False
    then show ?thesis
      using bucket_less [of w] by (intro nth_equalityI) (auto simp: step snoc nth_list_update)
  qed
qed

lemma length_vectorize [simp]: "length (vectorize sqr text) = EMBEDDING_DIMENSIONS"
  by (simp add: vectorize_def Let_def count_words_spec)

section \<open>The store\<close>

record chunk =
  ch_source :: string
  ch_index :: nat
  ch_content :: string
  ch_metadata :: string
  ch_embedding :: "rat list"

record scored_chunk =
  sc_source :: string
  sc_index :: nat
  sc_content :: string
  sc_score :: rat

text \<open>The column types of the migration: \<open>varchar(200)\<close> and \<open>vector(768)\<close>.\<close>

definition chunk_fits :: "chunk \<Rightarrow> bool" where
  "chunk_fits c \<longleftrightarrow> length (ch_source c) \<le> 200 \<and> length (ch_embedding c) = EMBEDDING_DIMENSIONS"

text \<open>Delete and insert in one transaction: a row that does not fit rolls everything back.\<close>

definition replaceSource :: "string \<Rightarrow> chunk list \<Rightarrow> chunk list \<Rightarrow> err + chunk list" where
  "replaceSource source chunks rows =
     (if list_all chunk_fits chunks then Inr (filter (\<lambda>r. ch_source r \<noteq> source) rows @ chunks)
      else Inl (PlainError ''row does not fit knowledge_chunks''))"

text \<open>\<open>Number(x.toFixed(4))\<close>.\<close>

definition four_places :: "rat \<Rightarrow> rat" where
  "four_places x = (if x < 0 then - dbl (of_int \<lfloor>- x * 10 ^ 4 + 1 / 2\<rfloor> / 10 ^ 4)
     else dbl (of_int \<lfloor>x * 10 ^ 4 + 1 / 2\<rfloor> / 10 ^ 4))"

text \<open>
  The rows of the query \<open>order by embedding <=> $1 limit $2\<close> with their similarity; \<open>None\<close> is NaN,
  the distance from a vector of zeros.
\<close>

type_synonym search = "chunk list \<Rightarrow> rat list \<Rightarrow> nat \<Rightarrow> err + (chunk \<times> rat option) list"

definition similaritySearch :: "search \<Rightarrow> chunk list \<Rightarrow> rat list \<Rightarrow> nat \<Rightarrow> rat \<Rightarrow> err + scored_chunk list" where
  "similaritySearch nearest rows q k minScore = ebind (nearest rows q k) (\<lambda>found. Inr
     (List.map_filter (\<lambda>(c, s). case s of
         None \<Rightarrow> None
       | Some x \<Rightarrow> (let score = four_places x in
           if minScore \<le> score
           then Some \<lparr>sc_source = ch_source c, sc_index = ch_index c, sc_content = ch_content c, sc_score = score\<rparr>
           else None)) found))"

definition store_stats :: "chunk list \<Rightarrow> nat \<times> string list" where
  "store_stats rows = (length rows, sort (remdups (map ch_source rows)))"

section \<open>Ingestion\<close>

record ingestion_deps =
  id_split :: "string \<Rightarrow> (string \<times> string) list"
  id_embed :: "string list \<Rightarrow> err + rat list list"

record knowledge =
  kn_rows :: "chunk list"
  kn_lockedElsewhere :: bool
  kn_lockHeld :: bool

definition ends_with :: "string \<Rightarrow> string \<Rightarrow> bool" where
  "ends_with s suffix \<longleftrightarrow> length suffix \<le> length s \<and> drop (length s - length suffix) s = suffix"

definition markdown_files :: "(string \<times> string) list \<Rightarrow> (string \<times> string) list" where
  "markdown_files dir = sort_key fst (filter (\<lambda>f. ends_with (fst f) ''.md'') dir)"

text \<open>The splitter yields for every chunk its text and its metadata.\<close>

definition chunks_of :: "string \<Rightarrow> (string \<times> string) list \<Rightarrow> rat list list \<Rightarrow> chunk list" where
  "chunks_of file documents vectors = map (\<lambda>(i, (content, metadata)).
     \<lparr>ch_source = file, ch_index = i, ch_content = content, ch_metadata = metadata,
      ch_embedding = (if i < length vectors then vectors ! i else [])\<rparr>) (enumerate 0 documents)"

definition ingest_file :: "ingestion_deps \<Rightarrow> string \<times> string \<Rightarrow> chunk list \<Rightarrow> err + (chunk list \<times> nat)" where
  "ingest_file d f rows = (let documents = id_split d (snd f) in
     case id_embed d (map fst documents) of
       Inl x \<Rightarrow> Inl (DependencyUnavailableError
         (''Embedding model unavailable: '' @ err_message x @ ''. Is Ollama running and the model pulled?''))
     | Inr vectors \<Rightarrow>
         ebind (replaceSource (fst f) (chunks_of (fst f) documents vectors) rows) (\<lambda>rows'. Inr (rows', length documents)))"

fun ingest_files :: "ingestion_deps \<Rightarrow> (string \<times> string) list \<Rightarrow> (string \<times> nat) list \<Rightarrow> chunk list \<Rightarrow>
    (err + (string \<times> nat) list) \<times> chunk list" where
  "ingest_files d [] summary rows = (Inr summary, rows)"
| "ingest_files d (f # fs) summary rows =
     (case ingest_file d f rows of
        Inl x \<Rightarrow> (Inl x, rows)
      | Inr (rows', n) \<Rightarrow> ingest_files d fs (summary @ [(fst f, n)]) rows')"

definition withIngestionLock :: "(chunk list \<Rightarrow> (err + 'a) \<times> chunk list) \<Rightarrow> knowledge \<Rightarrow> (err + 'a option) \<times> knowledge" where
  "withIngestionLock work s =
     (if kn_lockedElsewhere s then (Inr None, s)
      else case work (kn_rows (s\<lparr>kn_lockHeld := True\<rparr>)) of
        (r, rows) \<Rightarrow> (ebind r (\<lambda>x. Inr (Some x)), s\<lparr>kn_rows := rows, kn_lockHeld := False\<rparr>))"

datatype ingestion_result = Skipped string | Ingested "(string \<times> nat) list"

definition ingestDirectory :: "ingestion_deps \<Rightarrow> (string \<times> string) list \<Rightarrow> knowledge \<Rightarrow> (err + ingestion_result) \<times> knowledge" where
  "ingestDirectory d dir s =
     (case withIngestionLock (ingest_files d (markdown_files dir) []) s of
        (Inl x, s') \<Rightarrow> (Inl x, s')
      | (Inr None, s') \<Rightarrow> (Inr (Skipped ''Another instance is ingesting right now''), s')
      | (Inr (Some summary), s') \<Rightarrow> (Inr (Ingested summary), s'))"

section \<open>Questions\<close>

definition quote_mark :: string where
  "quote_mark = [CHR 0x27]"

definition SYSTEM_PROMPT :: string where
  "SYSTEM_PROMPT = js_join [CHR 0x0A]
     [''You are NestBank'' @ quote_mark @ ''s helpful assistant.'',
      ''Answer ONLY using the CONTEXT below. If the answer is not in the context, say'',
      [CHR 0x22] @ ''I don'' @ quote_mark @ ''t have that information, please contact NestBank support.'' @ [CHR 0x22] @ '' Never invent'',
      ''fees, limits or rates. Keep answers short and mention amounts exactly as written.'']"

record rag_deps =
  rd_embed :: "string \<Rightarrow> err + rat list"
  rd_search :: search
  rd_chat :: "string list \<Rightarrow> err + string"
  rd_chatStream :: "string list \<Rightarrow> err + string list"

definition is_unavailable :: "err \<Rightarrow> bool" where
  "is_unavailable x = (case x of DomainError DependencyUnavailable _ _ \<Rightarrow> True | _ \<Rightarrow> False)"

definition k_or_4 :: "nat option \<Rightarrow> nat" where
  "k_or_4 k = (case k of None \<Rightarrow> 4 | Some n \<Rightarrow> n)"

definition MIN_SCORE :: rat where
  "MIN_SCORE = dbl (1 / 20)"

definition retrieve :: "rag_deps \<Rightarrow> chunk list \<Rightarrow> string \<Rightarrow> nat option \<Rightarrow> err + scored_chunk list" where
  "retrieve d rows question k =
     (case ebind (rd_embed d question) (\<lambda>q. similaritySearch (rd_search d) rows q (k_or_4 k) MIN_SCORE) of
        Inr chunks \<Rightarrow> Inr chunks
      | Inl x \<Rightarrow> Inl (if is_unavailable x then x else DependencyUnavailableError (''Retrieval failed: '' @ err_message x)))"

definition formatContext :: "scored_chunk list \<Rightarrow> string" where
  "formatContext chunks = js_join [CHR 0x0A, CHR 0x0A] (map (\<lambda>c.
     ''['' @ sc_source c @ '' #'' @ show_nat (sc_index c) @ '']'' @ [CHR 0x0A] @ sc_content c) chunks)"

definition messages_of :: "scored_chunk list \<Rightarrow> string \<Rightarrow> string list" where
  "messages_of chunks question =
     [SYSTEM_PROMPT, ''CONTEXT:'' @ [CHR 0x0A] @ formatContext chunks @ [CHR 0x0A, CHR 0x0A] @ ''QUESTION: '' @ question]"

record rag_source =
  rs_source :: string
  rs_chunk :: nat
  rs_score :: rat
  rs_excerpt :: string

record rag_answer =
  ra_answer :: string
  ra_sources :: "rag_source list"

definition NOTHING_YET :: string where
  "NOTHING_YET = ''I don'' @ quote_mark @ ''t have that information yet. Try POST /api/ai/ingest first.''"

definition source_of :: "scored_chunk \<Rightarrow> rag_source" where
  "source_of c = \<lparr>rs_source = sc_source c, rs_chunk = sc_index c, rs_score = sc_score c,
     rs_excerpt = take 160 (sc_content c) @ ''...''\<rparr>"

definition ask :: "rag_deps \<Rightarrow> chunk list \<Rightarrow> string \<Rightarrow> nat option \<Rightarrow> err + rag_answer" where
  "ask d rows question k = ebind (retrieve d rows question k) (\<lambda>chunks.
     if chunks = [] then Inr \<lparr>ra_answer = NOTHING_YET, ra_sources = []\<rparr>
     else case rd_chat d (messages_of chunks question) of
       Inl x \<Rightarrow> Inl (DependencyUnavailableError (''Chat model failed: '' @ err_message x @ ''. Has the model finished downloading?''))
     | Inr answer \<Rightarrow> Inr \<lparr>ra_answer = js_trim answer, ra_sources = map source_of chunks\<rparr>)"

text \<open>The tokens of a streamed answer; here the error of the model reaches the caller as it is.\<close>

definition stream_answer :: "rag_deps \<Rightarrow> chunk list \<Rightarrow> string \<Rightarrow> nat option \<Rightarrow> err + string list" where
  "stream_answer d rows question k = ebind (retrieve d rows question k) (\<lambda>chunks.
     rd_chatStream d (messages_of chunks question))"

subsection \<open>The extractive model\<close>

text \<open>\<open>s.split(sep)\<close> for a separator of several characters, its first piece and what follows it.\<close>

fun cut :: "string \<Rightarrow> string \<Rightarrow> string \<times> string option" where
  "cut sep [] = ([], None)"
| "cut sep (c # s) =
     (if starts_with sep (c # s) then ([], Some (drop (length sep) (c # s)))
      else case cut sep s of (a, r) \<Rightarrow> (c # a, r))"

definition fake_call :: "string list \<Rightarrow> string" where
  "fake_call messages = (let
     prompt = js_join [CHR 0x0A] messages;
     context = (case snd (cut ''CONTEXT:'' prompt) of
         None \<Rightarrow> []
       | Some rest \<Rightarrow> js_trim (fst (cut ''QUESTION:'' (fst (cut ''CONTEXT:'' rest)))));
     firstFacts = js_join '' '' (take 3 (filter (\<lambda>l. js_trim l \<noteq> [] \<and> take 1 l \<noteq> ''['') (js_split (CHR 0x0A) context)))
   in ''[fake-llm] Based on the bank documents: '' @
      (if firstFacts = [] then ''no relevant information found.'' else firstFacts))"

text \<open>\<open>AI_PROVIDER=fake\<close>: both fakes behind the interfaces.\<close>

definition fake_deps :: "math_sqrt \<Rightarrow> search \<Rightarrow> rag_deps" where
  "fake_deps sqr nearest = \<lparr>rd_embed = (\<lambda>q. Inr (embedQuery sqr q)), rd_search = nearest,
     rd_chat = (\<lambda>m. Inr (fake_call m)), rd_chatStream = (\<lambda>m. Inr [fake_call m])\<rparr>"

text \<open>
  Automatic ingestion at start: at most sixty attempts, each in its own environment (whether the query for
  the statistics fails, the models, the directory); it ends with the first that does not throw.
\<close>

fun auto_ingest_attempts :: "(bool \<times> ingestion_deps \<times> (string \<times> string) list) list \<Rightarrow> knowledge \<Rightarrow> knowledge" where
  "auto_ingest_attempts [] s = s"
| "auto_ingest_attempts ((statsFail, d, dir) # attempts) s =
     (if statsFail then auto_ingest_attempts attempts s
      else if kn_rows s \<noteq> [] then s
      else case ingestDirectory d dir s of
        (Inl _, s') \<Rightarrow> auto_ingest_attempts attempts s'
      | (Inr _, s') \<Rightarrow> s')"

definition auto_ingest :: "(bool \<times> ingestion_deps \<times> (string \<times> string) list) list \<Rightarrow> knowledge \<Rightarrow> knowledge" where
  "auto_ingest attempts s = auto_ingest_attempts (take 60 attempts) s"

section \<open>What the embeddings depend on\<close>

lemma filter_long: "filter (\<lambda>w. 3 \<le> length w \<and> bucket w = i) ws = filter (\<lambda>w. bucket w = i) (filter (\<lambda>w. 3 \<le> length w) ws)"
  by (simp add: conj_commute)

text \<open>
  The hashing embedding of a text is, before it is scaled, the number of its words of three or more
  letters or digits in every bucket of their hash; so it does not depend on case, on the order of the words
  or on anything between them: two texts with the same long words have the same embedding.
\<close>
theorem embedding_counts_words:
  "count_words (match_words (toLowerCase text)) =
     map (\<lambda>i. length (filter (\<lambda>w. bucket w = i) (long_words text))) [0..<EMBEDDING_DIMENSIONS] \<and>
   (mset (long_words text) = mset (long_words text') \<longrightarrow> vectorize sqr text = vectorize sqr text')"
proof -
  have c: "count_words (match_words (toLowerCase t)) =
      map (\<lambda>i. length (filter (\<lambda>w. bucket w = i) (long_words t))) [0..<EMBEDDING_DIMENSIONS]" for t
    unfolding count_words_spec filter_long long_words_def ..
  have "vectorize sqr text = vectorize sqr text'" if "mset (long_words text) = mset (long_words text')"
  proof -
    from that have "length (filter P (long_words text)) = length (filter P (long_words text'))" for P
      by (metis mset_filter size_mset)
    then have "count_words (match_words (toLowerCase text)) = count_words (match_words (toLowerCase text'))"
      unfolding c by simp
    then show ?thesis by (simp add: vectorize_def)
  qed
  with c show ?thesis by blast
qed

theorem embedding_counts_words_witness:
  "vectorize (\<lambda>n. of_nat n) ''Fees for SWIFT?'' = vectorize (\<lambda>n. of_nat n) ''swift -- fees, FOR''"
proof -
  have "mset (long_words ''Fees for SWIFT?'') = mset (long_words ''swift -- fees, FOR'')"
    by code_simp
  then show ?thesis
    using embedding_counts_words [of "''Fees for SWIFT?''" "''swift -- fees, FOR''" "\<lambda>n. of_nat n"] by blast
qed

section \<open>Ingestion replaces, source by source\<close>

definition of_source :: "string \<Rightarrow> chunk list \<Rightarrow> chunk list" where
  "of_source f rows = filter (\<lambda>r. ch_source r = f) rows"

text \<open>The chunks a file has after its ingestion.\<close>

definition fresh_chunks :: "ingestion_deps \<Rightarrow> string \<times> string \<Rightarrow> chunk list \<Rightarrow> bool" where
  "fresh_chunks d f cs \<longleftrightarrow> (\<exists>vectors. id_embed d (map fst (id_split d (snd f))) = Inr vectors \<and>
     cs = chunks_of (fst f) (id_split d (snd f)) vectors)"

lemma of_source_chunks: "of_source f (chunks_of g ds vs) = (if f = g then chunks_of g ds vs else [])"
  by (auto simp: of_source_def chunks_of_def filter_empty_conv filter_id_conv)

lemma ingest_file_ok:
  assumes "ingest_file d f rows = Inr (rows', n)"
  shows "fresh_chunks d f (of_source (fst f) rows')" "g \<noteq> fst f \<Longrightarrow> of_source g rows' = of_source g rows"
    "n = length (id_split d (snd f))"
proof -
  from assms obtain vs where vs: "id_embed d (map fst (id_split d (snd f))) = Inr vs"
    "replaceSource (fst f) (chunks_of (fst f) (id_split d (snd f)) vs) rows = Inr rows'" "n = length (id_split d (snd f))"
    by (auto simp: ingest_file_def Let_def result_simps split: sum.splits)
  then have rows': "rows' = filter (\<lambda>r. ch_source r \<noteq> fst f) rows @ chunks_of (fst f) (id_split d (snd f)) vs"
    by (auto simp: replaceSource_def split: if_splits)
  have split: "of_source g (xs @ ys) = of_source g xs @ of_source g ys" for g xs ys by (simp add: of_source_def)
  have old: "of_source g (filter (\<lambda>r. ch_source r \<noteq> fst f) rows) = (if g = fst f then [] else of_source g rows)" for g
    by (auto simp: of_source_def filter_empty_conv intro: filter_cong)
  show "fresh_chunks d f (of_source (fst f) rows')"
    using vs(1) by (simp add: rows' split old of_source_chunks fresh_chunks_def)
  show "g \<noteq> fst f \<Longrightarrow> of_source g rows' = of_source g rows"
    by (simp add: rows' split old of_source_chunks)
  show "n = length (id_split d (snd f))" by (rule vs(3))
qed

lemma ingest_files_spec:
  assumes "ingest_files d fs summary rows = (r, rows')" "distinct (map fst fs)"
  shows "\<forall>g. of_source g rows' = of_source g rows \<or> (\<exists>t. (g, t) \<in> set fs \<and> fresh_chunks d (g, t) (of_source g rows'))"
    and "r = Inr summary' \<Longrightarrow> summary' = summary @ map (\<lambda>f. (fst f, length (id_split d (snd f)))) fs \<and>
      (\<forall>f \<in> set fs. fresh_chunks d f (of_source (fst f) rows'))"
proof -
  have "(\<forall>g. of_source g rows' = of_source g rows \<or> (\<exists>t. (g, t) \<in> set fs \<and> fresh_chunks d (g, t) (of_source g rows'))) \<and>
    (\<forall>g. g \<notin> fst ` set fs \<longrightarrow> of_source g rows' = of_source g rows) \<and>
    (\<forall>summary'. r = Inr summary' \<longrightarrow> summary' = summary @ map (\<lambda>f. (fst f, length (id_split d (snd f)))) fs \<and>
      (\<forall>f \<in> set fs. fresh_chunks d f (of_source (fst f) rows')))"
    using assms
  proof (induction fs arbitrary: summary rows)
    case (Cons f fs)
    show ?case
    proof (cases "ingest_file d f rows")
      case (Inl x)
      with Cons.prems(1) show ?thesis by auto
    next
      case (Inr rn)
      obtain rows1 n where rn: "rn = (rows1, n)" by (cases rn)
      note ok = ingest_file_ok [OF Inr [unfolded rn]]
      have run: "ingest_files d fs (summary @ [(fst f, n)]) rows1 = (r, rows')" using Cons.prems(1) Inr rn by simp
      have notin: "fst f \<notin> fst ` set fs" and dist: "distinct (map fst fs)" using Cons.prems(2) by auto
      note IH = Cons.IH [OF run dist]
      have same: "of_source (fst f) rows' = of_source (fst f) rows1" using IH notin by blast
      have each: "of_source g rows' = of_source g rows \<or> (\<exists>t. (g, t) \<in> set (f # fs) \<and> fresh_chunks d (g, t) (of_source g rows'))" for g
      proof (cases "g = fst f")
        case True
        then show ?thesis using ok(1) same by (metis list.set_intros(1) prod.collapse)
      next
        case False
        then show ?thesis using IH ok(2) [of g] by (metis list.set_intros(2))
      qed
      show ?thesis using each IH ok same by auto
    qed
  qed auto
  then show "\<forall>g. of_source g rows' = of_source g rows \<or> (\<exists>t. (g, t) \<in> set fs \<and> fresh_chunks d (g, t) (of_source g rows'))"
    "r = Inr summary' \<Longrightarrow> summary' = summary @ map (\<lambda>f. (fst f, length (id_split d (snd f)))) fs \<and>
      (\<forall>f \<in> set fs. fresh_chunks d f (of_source (fst f) rows'))"
    by blast+
qed

text \<open>
  C30: Ingestion replaces the knowledge source by source. However it ends, the lock is free again and
  every source has either exactly the chunks it had or, when it is a file of the directory, exactly the
  chunks of that file, in order; when it succeeds every file has its chunks and the answer counts them; and
  a source whose file is gone keeps its chunks.
\<close>
theorem ingestion_per_source:
  assumes "ingestDirectory d dir s = (r, s')" "distinct (map fst dir)" "\<not> kn_lockHeld s"
  shows "\<not> kn_lockHeld s' \<and>
    (\<forall>g. of_source g (kn_rows s') = of_source g (kn_rows s) \<or>
      (\<exists>t. (g, t) \<in> set dir \<and> fresh_chunks d (g, t) (of_source g (kn_rows s')))) \<and>
    (\<forall>summary. r = Inr (Ingested summary) \<longrightarrow>
      summary = map (\<lambda>f. (fst f, length (id_split d (snd f)))) (markdown_files dir) \<and>
      (\<forall>f \<in> set dir. ends_with (fst f) ''.md'' \<longrightarrow> fresh_chunks d f (of_source (fst f) (kn_rows s')))) \<and>
    (\<forall>g. g \<notin> fst ` set dir \<longrightarrow> of_source g (kn_rows s') = of_source g (kn_rows s))"
proof (cases "kn_lockedElsewhere s")
  case True
  then have "r = Inr (Skipped ''Another instance is ingesting right now'')" "s' = s"
    using assms(1) by (auto simp: ingestDirectory_def withIngestionLock_def)
  then show ?thesis using assms(3) by simp
next
  case False
  obtain q rows where q: "ingest_files d (markdown_files dir) [] (kn_rows s) = (q, rows)"
    by (cases "ingest_files d (markdown_files dir) [] (kn_rows s)")
  have s': "s' = s\<lparr>kn_rows := rows, kn_lockHeld := False\<rparr>"
    using assms(1) False q by (cases q) (auto simp: ingestDirectory_def withIngestionLock_def)
  have r: "r = Inr (Ingested summary) \<longleftrightarrow> q = Inr summary" for summary
    using assms(1) False q by (cases q) (auto simp: ingestDirectory_def withIngestionLock_def)
  have files: "set (markdown_files dir) = {f \<in> set dir. ends_with (fst f) ''.md''}"
    by (auto simp: markdown_files_def)
  have "distinct (map fst (filter P dir))" for P using assms(2) by (induction dir) auto
  then have "distinct (map fst (markdown_files dir))"
    by (simp add: markdown_files_def distinct_map)
  note spec = ingest_files_spec [OF q this]
  have "of_source g rows = of_source g (kn_rows s)" if "g \<notin> fst ` set dir" for g
    using spec(1) that files by force
  then show ?thesis
    using spec files by (auto simp: s' r)
qed

definition sample_ingestion :: ingestion_deps where
  "sample_ingestion = \<lparr>id_split = (\<lambda>t. [(t, ''{}'')]), id_embed = (\<lambda>ts. Inr (map (vectorize (\<lambda>n. 1)) ts))\<rparr>"

definition sample_knowledge :: knowledge where
  "sample_knowledge = \<lparr>kn_rows = [\<lparr>ch_source = ''gone.md'', ch_index = 0, ch_content = ''old'', ch_metadata = ''{}'',
     ch_embedding = replicate 768 0\<rparr>], kn_lockedElsewhere = False, kn_lockHeld = False\<rparr>"

theorem ingestion_per_source_witness:
  "of_source ''gone.md'' (kn_rows (snd (ingestDirectory sample_ingestion [(''fees.md'', ''fees''), (''readme.txt'', ''x'')] sample_knowledge))) =
     kn_rows sample_knowledge \<and>
   fresh_chunks sample_ingestion (''fees.md'', ''fees'')
     (of_source ''fees.md'' (kn_rows (snd (ingestDirectory sample_ingestion [(''fees.md'', ''fees''), (''readme.txt'', ''x'')] sample_knowledge))))"
proof -
  let ?dir = "[(''fees.md'', ''fees''), (''readme.txt'', ''x'')]"
  obtain r s' where run: "ingestDirectory sample_ingestion ?dir sample_knowledge = (r, s')"
    by (cases "ingestDirectory sample_ingestion ?dir sample_knowledge")
  have md: "markdown_files ?dir = [(''fees.md'', ''fees'')]"
    by (simp add: markdown_files_def ends_with_def)
  have "list_all chunk_fits (chunks_of ''fees.md'' [(''fees'', ''{}'')] [vectorize (\<lambda>n. 1) ''fees''])"
    by (simp add: chunks_of_def chunk_fits_def)
  then have "r = Inr (Ingested [(''fees.md'', 1)])"
    using run by (simp add: ingestDirectory_def withIngestionLock_def md ingest_file_def sample_ingestion_def replaceSource_def
        sample_knowledge_def Let_def)
  moreover have "ends_with ''fees.md'' ''.md''" by (simp add: ends_with_def)
  moreover have "of_source ''gone.md'' (kn_rows sample_knowledge) = kn_rows sample_knowledge"
    by (simp add: of_source_def sample_knowledge_def)
  ultimately show ?thesis
    using ingestion_per_source [OF run] run by (simp add: sample_knowledge_def)
qed

section \<open>The interface of a nearest-neighbour search\<close>

fun not_better :: "rat option \<Rightarrow> rat option \<Rightarrow> bool" where
  "not_better (Some a) (Some b) = (b \<le> a)"
| "not_better None (Some b) = False"
| "not_better s None = True"

lemma four_places_mono: "x \<le> y \<Longrightarrow> four_places x \<le> four_places y"
proof -
  assume xy: "x \<le> y"
  have nonneg: "0 \<le> dbl (of_int \<lfloor>z * 10 ^ 4 + 1 / 2\<rfloor> / 10 ^ 4)" if "0 \<le> z" for z :: rat
    using that by (intro dbl_nonneg divide_nonneg_nonneg) (simp_all add: floor_mono)
  have mono: "dbl (of_int \<lfloor>a * 10 ^ 4 + 1 / 2\<rfloor> / 10 ^ 4) \<le> dbl (of_int \<lfloor>b * 10 ^ 4 + 1 / 2\<rfloor> / 10 ^ 4)" if "a \<le> b" for a b :: rat
    using that by (intro dbl_mono divide_right_mono) (simp_all add: floor_mono)
  consider "0 \<le> x" | "x < 0" "0 \<le> y" | "x < 0" "y < 0" using xy by linarith
  then show ?thesis
  proof cases
    case 1
    then show ?thesis using mono [OF xy] xy by (simp add: four_places_def)
  next
    case 2
    then show ?thesis using nonneg [of "- x"] nonneg [of y] by (simp add: four_places_def)
  next
    case 3
    then show ?thesis using mono [of "- y" "- x"] xy by (simp add: four_places_def)
  qed
qed

text \<open>What the service relies on: rows of the table, at most as many as asked for, best first, a NaN last.\<close>

locale vector_search =
  fixes nearest :: search
  assumes found_rows: "nearest rows q k = Inr found \<Longrightarrow> (c, s) \<in> set found \<Longrightarrow> c \<in> set rows"
    and found_bound: "nearest rows q k = Inr found \<Longrightarrow> length found \<le> k"
    and found_best_first: "nearest rows q k = Inr found \<Longrightarrow> sorted_wrt (\<lambda>x y. not_better (snd x) (snd y)) found"
begin

lemma similarity_found:
  assumes "similaritySearch nearest rows q k m = Inr chunks"
  shows "length chunks \<le> k" "sorted_wrt (\<lambda>a b. sc_score b \<le> sc_score a) chunks"
    and "\<forall>c \<in> set chunks. m \<le> sc_score c \<and>
      (\<exists>r \<in> set rows. sc_source c = ch_source r \<and> sc_index c = ch_index r \<and> sc_content c = ch_content r)"
proof -
  let ?pick = "\<lambda>(c, s). case s of None \<Rightarrow> None | Some x \<Rightarrow> (let score = four_places x in
      if m \<le> score then Some \<lparr>sc_source = ch_source c, sc_index = ch_index c, sc_content = ch_content c, sc_score = score\<rparr>
      else None)"
  obtain found where f: "nearest rows q k = Inr found" "chunks = List.map_filter ?pick found"
    using assms by (auto simp: similaritySearch_def result_simps)
  have len: "length (List.map_filter g xs) \<le> length xs" for g and xs :: "(chunk \<times> rat option) list"
    by (simp add: map_filter_def)
  show "length chunks \<le> k"
    using found_bound [OF f(1)] len [of ?pick found] f(2) by simp
  have "sorted_wrt (\<lambda>a b. sc_score b \<le> sc_score a) (List.map_filter ?pick xs)"
    if "sorted_wrt (\<lambda>x y. not_better (snd x) (snd y)) xs" for xs
    using that
  proof (induction xs)
    case (Cons x xs)
    have "sc_score b \<le> sc_score a" if a: "?pick x = Some a" and b: "b \<in> set (List.map_filter ?pick xs)" for a b
    proof -
      from b obtain y where y: "y \<in> set xs" "?pick y = Some b" by (auto simp: map_filter_def)
      from a obtain s where s: "snd x = Some s" "sc_score a = four_places s"
        by (cases x) (auto simp: Let_def split: option.splits if_splits)
      from y(2) obtain t where t: "snd y = Some t" "sc_score b = four_places t"
        by (cases y) (auto simp: Let_def split: option.splits if_splits)
      have "t \<le> s" using Cons.prems y(1) s(1) t(1) by auto
      then show ?thesis using s(2) t(2) four_places_mono by simp
    qed
    with Cons show ?case by (auto simp: map_filter_def split: option.splits)
  qed (simp add: map_filter_def)
  with found_best_first [OF f(1)] f(2) show "sorted_wrt (\<lambda>a b. sc_score b \<le> sc_score a) chunks" by simp
  show "\<forall>c \<in> set chunks. m \<le> sc_score c \<and>
      (\<exists>r \<in> set rows. sc_source c = ch_source r \<and> sc_index c = ch_index r \<and> sc_content c = ch_content r)"
    using found_rows [OF f(1)] by (fastforce simp: f(2) map_filter_def Let_def split: option.splits if_splits)
qed

end

lemma not_better_None [simp]: "not_better s None"
  by (cases s) simp_all

lemma sorted_wrt_nones: "\<forall>x \<in> set xs. snd x = None \<Longrightarrow> sorted_wrt (\<lambda>x y. not_better (snd x) (snd y)) xs"
  by (induction xs) simp_all

text \<open>The exact search: every row compared, by a similarity \<open>sim\<close> that is undefined for vectors of zeros.\<close>

definition exact_search :: "(rat list \<Rightarrow> rat list \<Rightarrow> rat option) \<Rightarrow> search" where
  "exact_search sim rows q k = (let
     scored = map (\<lambda>c. (c, sim (ch_embedding c) q)) rows
   in Inr (take k (sort_key (\<lambda>x. - the (snd x)) (filter (\<lambda>x. snd x \<noteq> None) scored) @ filter (\<lambda>x. snd x = None) scored)))"

interpretation exact: vector_search "exact_search sim" for sim
proof
  fix rows q k found c s
  assume f: "exact_search sim rows q k = Inr found"
  let ?scored = "map (\<lambda>c. (c, sim (ch_embedding c) q)) rows"
  let ?some = "sort_key (\<lambda>x. - the (snd x)) (filter (\<lambda>x. snd x \<noteq> None) ?scored)" and ?none = "filter (\<lambda>x. snd x = None) ?scored"
  have found: "found = take k (?some @ ?none)" using f by (simp add: exact_search_def Let_def)
  show "length found \<le> k" by (simp add: found)
  show "(c, s) \<in> set found \<Longrightarrow> c \<in> set rows" using found by (auto dest: in_set_takeD)
  have "sorted_wrt (\<lambda>x y. not_better (snd x) (snd y)) ?some"
  proof (rule sorted_wrt_mono_rel)
    show "sorted_wrt (\<lambda>x y. - the (snd x) \<le> - the (snd y)) ?some"
      using sorted_sort_key [of "\<lambda>x. - the (snd x)" "filter (\<lambda>x. snd x \<noteq> None) ?scored"] by (simp only: sorted_map)
    fix x y assume "x \<in> set ?some" "y \<in> set ?some" and le: "- the (snd x) \<le> - the (snd y)"
    then obtain u v where "snd x = Some u" "snd y = Some v" unfolding set_sort by auto
    with le show "not_better (snd x) (snd y)" by simp
  qed
  then have "sorted_wrt (\<lambda>x y. not_better (snd x) (snd y)) (?some @ ?none)"
    unfolding sorted_wrt_append by (auto intro: sorted_wrt_nones)
  then show "sorted_wrt (\<lambda>x y. not_better (snd x) (snd y)) found"
    unfolding found by (rule sorted_wrt_take)
qed

lemma retrieve_ok:
  assumes "vector_search (rd_search d)" "retrieve d rows question k = Inr chunks"
  shows "length chunks \<le> k_or_4 k \<and> sorted_wrt (\<lambda>a b. sc_score b \<le> sc_score a) chunks \<and>
    (\<forall>c \<in> set chunks. MIN_SCORE \<le> sc_score c \<and>
      (\<exists>r \<in> set rows. sc_source c = ch_source r \<and> sc_index c = ch_index r \<and> sc_content c = ch_content r))"
proof -
  obtain q where "similaritySearch (rd_search d) rows q (k_or_4 k) MIN_SCORE = Inr chunks"
    using assms(2) by (auto simp: retrieve_def result_simps split: sum.splits)
  from vector_search.similarity_found [OF assms(1) this] show ?thesis by blast
qed

lemma retrieve_error: "retrieve d rows question k = Inl x \<Longrightarrow> is_unavailable x"
  by (auto simp: retrieve_def is_unavailable_def split: sum.splits if_splits)

text \<open>
  C32: An answer of the assistant is grounded. It rests on at most as many chunks as asked for, four if
  nothing is said, best first, each of them stored and at least as similar as the threshold, and it names
  exactly these as its sources; the model is asked with exactly their texts, and not at all when there are
  none; and whatever fails, the caller sees that a dependency is unavailable.
\<close>
theorem answers_grounded:
  assumes "vector_search (rd_search d)"
  shows "case ask d rows question k of
      Inl x \<Rightarrow> is_unavailable x
    | Inr a \<Rightarrow> \<exists>chunks. retrieve d rows question k = Inr chunks \<and> ra_sources a = map source_of chunks \<and>
        length (ra_sources a) \<le> k_or_4 k \<and> sorted_wrt (\<lambda>x y. rs_score y \<le> rs_score x) (ra_sources a) \<and>
        (\<forall>s \<in> set (ra_sources a). MIN_SCORE \<le> rs_score s \<and> (\<exists>r \<in> set rows. rs_source s = ch_source r \<and>
           rs_chunk s = ch_index r \<and> rs_excerpt s = take 160 (ch_content r) @ ''...'')) \<and>
        (if chunks = [] then ra_answer a = NOTHING_YET
         else \<exists>raw. rd_chat d (messages_of chunks question) = Inr raw \<and> ra_answer a = js_trim raw)"
proof (cases "retrieve d rows question k")
  case (Inl x)
  then show ?thesis using retrieve_error [OF Inl] by (simp add: ask_def)
next
  case (Inr chunks)
  note ok = retrieve_ok [OF assms Inr]
  then have sources: "sorted_wrt (\<lambda>x y. rs_score y \<le> rs_score x) (map source_of chunks)"
    "\<forall>s \<in> set (map source_of chunks). MIN_SCORE \<le> rs_score s \<and> (\<exists>r \<in> set rows. rs_source s = ch_source r \<and>
           rs_chunk s = ch_index r \<and> rs_excerpt s = take 160 (ch_content r) @ ''...'')"
    by (simp_all add: sorted_wrt_map source_of_def) (metis)
  show ?thesis
  proof (cases "chunks = []")
    case True
    then show ?thesis using Inr by (simp add: ask_def)
  next
    case False
    then show ?thesis using Inr ok sources
      by (cases "rd_chat d (messages_of chunks question)") (auto simp: ask_def is_unavailable_def)
  qed
qed

theorem answers_grounded_witness:
  "case ask (fake_deps (\<lambda>n. 1) (exact_search (\<lambda>u v. Some 1))) (kn_rows sample_knowledge) ''fees'' None of
     Inl x \<Rightarrow> False
   | Inr a \<Rightarrow> map rs_source (ra_sources a) = [''gone.md''] \<and> length (ra_sources a) \<le> 4"
proof -
  let ?d = "fake_deps (\<lambda>n. 1) (exact_search (\<lambda>u v. Some 1))"
  have search: "vector_search (rd_search ?d)" by (simp add: fake_deps_def exact.vector_search_axioms)
  have "MIN_SCORE \<le> four_places 1" by code_simp
  then obtain c where "retrieve ?d (kn_rows sample_knowledge) ''fees'' None = Inr [c]" "sc_source c = ''gone.md''"
    by (simp add: retrieve_def fake_deps_def similaritySearch_def exact_search_def sample_knowledge_def Let_def
        map_filter_def k_or_4_def)
  then show ?thesis
    using answers_grounded [OF search, of "kn_rows sample_knowledge" "''fees''" None]
    by (auto simp: k_or_4_def source_of_def ask_def fake_deps_def split: sum.splits)
qed

end
