(* ===== verification/LedgerLocks.thy ===== *)
theory LedgerLocks
  imports SampleData
begin

text \<open>
  Concurrent transactions of the ledger (\<open>src/src/modules/transactions/ledger.service.ts\<close>): the order in
  which each operation locks its account rows, the lock table of the database as a step relation on the
  running transactions, and what happens when two reversals of one reference overlap.

  A row lock (\<open>pessimistic_write\<close>) is held to the end of its transaction. \<open>lock_step\<close> has the two steps a
  transaction makes by itself: it takes the next lock it wants when nobody else holds it, and it ends and
  releases when it wants no more. A transaction that fails ends earlier (\<open>abort\<close>); that is no step
  progress may count on.
\<close>

section \<open>What each operation locks\<close>

datatype lock_request =
    LockDeposit string
  | LockWithdraw string
  | LockTransfer string string
  | LockReverse "ledger_entry list"

fun lock_order :: "lock_request \<Rightarrow> string list" where
  "lock_order (LockDeposit accountId) = [accountId]"
| "lock_order (LockWithdraw accountId) = [accountId]"
| "lock_order (LockTransfer fromAccountId toAccountId) = sort [fromAccountId, toAccountId]"
| "lock_order (LockReverse entries) = sort (js_distinct (map entry_accountId entries))"

text \<open>A transfer to the same account is refused before its transaction starts.\<close>

fun starts_transaction :: "lock_request \<Rightarrow> bool" where
  "starts_transaction (LockTransfer fromAccountId toAccountId) = (fromAccountId \<noteq> toAccountId)"
| "starts_transaction _ = True"

lemma lock_order_sorted: "starts_transaction r \<Longrightarrow> sorted (lock_order r) \<and> distinct (lock_order r)"
  by (cases r) auto

text \<open>These are the locks the model of the operations takes, in the order it takes them.\<close>

lemma transfer_locks:
  "lock_all M db (lock_order (LockTransfer (ti_fromAccountId input) (ti_toAccountId input))) = Inl x \<Longrightarrow>
     transfer_tx M e input reference db = Inl x"
  by (auto simp: transfer_tx_def Let_def result_simps min_def max_def)

lemma reverse_locks:
  "lock_all M db (lock_order (LockReverse es)) = Inl x \<Longrightarrow> reverse_locked M ref rr es db = Inl x"
  by (simp add: reverse_locked_def)

section \<open>The lock table\<close>

record lock_tx =
  lx_holds :: "string list"
  lx_wants :: "string list"

definition start_tx :: "lock_request \<Rightarrow> lock_tx" where
  "start_tx r = \<lparr>lx_holds = [], lx_wants = lock_order r\<rparr>"

definition finished :: "lock_tx \<Rightarrow> bool" where
  "finished t \<longleftrightarrow> lx_holds t = [] \<and> lx_wants t = []"

definition ended :: lock_tx where
  "ended = \<lparr>lx_holds = [], lx_wants = []\<rparr>"

definition free_for :: "nat \<Rightarrow> string \<Rightarrow> lock_tx list \<Rightarrow> bool" where
  "free_for n i s \<longleftrightarrow> (\<forall>m < length s. m \<noteq> n \<longrightarrow> i \<notin> set (lx_holds (s ! m)))"

inductive lock_step :: "lock_tx list \<Rightarrow> lock_tx list \<Rightarrow> bool" where
  acquire: "n < length s \<Longrightarrow> s ! n = \<lparr>lx_holds = hs, lx_wants = i # ws\<rparr> \<Longrightarrow> free_for n i s \<Longrightarrow>
    lock_step s (s[n := \<lparr>lx_holds = hs @ [i], lx_wants = ws\<rparr>])"
| commit: "n < length s \<Longrightarrow> s ! n = \<lparr>lx_holds = hs, lx_wants = []\<rparr> \<Longrightarrow> hs \<noteq> [] \<Longrightarrow> lock_step s (s[n := ended])"

inductive_cases lock_stepE: "lock_step s s'"

inductive lock_reach :: "lock_tx list \<Rightarrow> lock_tx list \<Rightarrow> bool" for s where
  here: "lock_reach s s"
| go: "lock_reach s t \<Longrightarrow> lock_step t u \<Longrightarrow> lock_reach s u"
| abort: "lock_reach s t \<Longrightarrow> n < length t \<Longrightarrow> lock_reach s (t[n := ended])"

section \<open>The invariant\<close>

text \<open>Every transaction takes its locks in ascending order, and no lock has two holders.\<close>

definition lock_inv :: "lock_tx list \<Rightarrow> bool" where
  "lock_inv s \<longleftrightarrow> (\<forall>t \<in> set s. sorted_wrt (<) (lx_holds t @ lx_wants t)) \<and>
     (\<forall>m < length s. \<forall>n < length s. m \<noteq> n \<longrightarrow> set (lx_holds (s ! m)) \<inter> set (lx_holds (s ! n)) = {})"

lemma start_inv: "\<forall>r \<in> set rs. starts_transaction r \<Longrightarrow> lock_inv (map start_tx rs)"
  using lock_order_sorted by (auto simp: lock_inv_def start_tx_def strict_sorted_iff)

lemma inv_update:
  assumes "lock_inv s" "sorted_wrt (<) (lx_holds t @ lx_wants t)" "n < length s"
    and "\<And>m. m < length s \<Longrightarrow> m \<noteq> n \<Longrightarrow> set (lx_holds t) \<inter> set (lx_holds (s ! m)) = {}"
  shows "lock_inv (s[n := t])"
proof -
  have "\<forall>u \<in> set (s[n := t]). sorted_wrt (<) (lx_holds u @ lx_wants u)"
    using assms(1,2) set_update_subset_insert [of s n t] unfolding lock_inv_def by blast
  moreover have "set (lx_holds (s[n := t] ! m)) \<inter> set (lx_holds (s[n := t] ! k)) = {}"
    if "m < length s" "k < length s" "m \<noteq> k" for m k
    using assms that by (cases "m = n"; cases "k = n") (auto simp: lock_inv_def)
  ultimately show ?thesis by (simp add: lock_inv_def)
qed

lemma ended_inv: "lock_inv s \<Longrightarrow> n < length s \<Longrightarrow> lock_inv (s[n := ended])"
  by (rule inv_update) (simp_all add: ended_def)

lemma lock_step_inv: "lock_step s s' \<Longrightarrow> lock_inv s \<Longrightarrow> lock_inv s'"
proof (induction rule: lock_step.induct)
  case (acquire n s hs i ws)
  have "s ! n \<in> set s" using acquire.hyps(1) by simp
  with acquire.prems have "sorted_wrt (<) (lx_holds (s ! n) @ lx_wants (s ! n))" unfolding lock_inv_def by blast
  then have "sorted_wrt (<) (hs @ i # ws)" using acquire.hyps(2) by simp
  moreover have "set (hs @ [i]) \<inter> set (lx_holds (s ! m)) = {}" if "m < length s" "m \<noteq> n" for m
  proof -
    have "set (lx_holds (s ! n)) \<inter> set (lx_holds (s ! m)) = {}"
      using acquire.prems acquire.hyps(1) that by (simp add: lock_inv_def)
    then show ?thesis using acquire.hyps(2,3) that by (auto simp: free_for_def)
  qed
  ultimately show ?case using acquire by (intro inv_update) auto
next
  case (commit n s hs)
  then show ?case by (simp add: ended_inv)
qed

lemma lock_reach_inv: "lock_reach s t \<Longrightarrow> lock_inv s \<Longrightarrow> lock_inv t"
  by (induction rule: lock_reach.induct) (auto intro: lock_step_inv ended_inv)

section \<open>Progress and termination\<close>

lemma lock_progress:
  assumes "lock_inv s" "t \<in> set s" "\<not> finished t"
  shows "\<exists>s'. lock_step s s'"
proof (cases "\<exists>n < length s. lx_wants (s ! n) = [] \<and> lx_holds (s ! n) \<noteq> []")
  case True
  then obtain n where n: "n < length s" "lx_wants (s ! n) = []" "lx_holds (s ! n) \<noteq> []" by blast
  then have "s ! n = \<lparr>lx_holds = lx_holds (s ! n), lx_wants = []\<rparr>" by (cases "s ! n") simp
  from commit [OF n(1) this n(3)] show ?thesis by blast
next
  case False
  let ?held = "\<Union>u \<in> set s. set (lx_holds u)"
  have take: "\<exists>s'. lock_step s s'" if n: "n < length s" "lx_wants (s ! n) = i # ws" "free_for n i s" for n i ws
  proof -
    have "s ! n = \<lparr>lx_holds = lx_holds (s ! n), lx_wants = i # ws\<rparr>" using n(2) by (cases "s ! n") simp
    from acquire [OF n(1) this n(3)] show ?thesis by blast
  qed
  show ?thesis
  proof (cases "?held = {}")
    case True
    obtain n where n: "n < length s" "s ! n = t" using assms(2) by (auto simp: in_set_conv_nth)
    have "lx_holds t = []" using True assms(2) by auto
    with assms(3) obtain i ws where "lx_wants t = i # ws" by (cases "lx_wants t") (auto simp: finished_def)
    moreover have "free_for n i s" using True by (auto simp: free_for_def)
    ultimately show ?thesis using take n by blast
  next
    case held: False
    have fin: "finite ?held" by simp
    define k where "k = Max ?held"
    have "k \<in> ?held" using Max_in [OF fin held] by (simp add: k_def)
    then obtain u where "u \<in> set s" "k \<in> set (lx_holds u)" by blast
    then obtain n where n: "n < length s" "k \<in> set (lx_holds (s ! n))" by (metis in_set_conv_nth)
    then have "lx_wants (s ! n) \<noteq> []" using False by force
    then obtain i ws where w: "lx_wants (s ! n) = i # ws" by (cases "lx_wants (s ! n)") auto
    have "sorted_wrt (<) (lx_holds (s ! n) @ i # ws)"
      using assms(1) n(1) w by (metis lock_inv_def nth_mem)
    then have "k < i" using n(2) by (simp add: sorted_wrt_append)
    then have "i \<notin> ?held" using Max_ge [OF fin] unfolding k_def by (metis leD)
    then have "free_for n i s" by (auto simp: free_for_def)
    with take n(1) w show ?thesis by blast
  qed
qed

text \<open>Every step uses up a lock still wanted, or a transaction still open.\<close>

fun tx_work :: "lock_tx \<Rightarrow> nat" where
  "tx_work t = 2 * length (lx_wants t) + (if lx_holds t = [] then 0 else 1)"

definition work_left :: "lock_tx list \<Rightarrow> nat" where
  "work_left s = sum_list (map tx_work s)"

lemma work_left_update: "n < length s \<Longrightarrow> work_left (s[n := t]) + tx_work (s ! n) = work_left s + tx_work t"
proof (induction s arbitrary: n)
  case (Cons u s)
  then show ?case by (cases n) (auto simp: work_left_def simp del: tx_work.simps)
qed simp

lemma lock_step_work: "lock_step s s' \<Longrightarrow> work_left s' < work_left s"
proof (induction rule: lock_step.induct)
  case (acquire n s hs i ws)
  then show ?case using work_left_update [OF acquire.hyps(1), of "\<lparr>lx_holds = hs @ [i], lx_wants = ws\<rparr>"]
    by (auto split: if_splits)
next
  case (commit n s hs)
  then show ?case using work_left_update [OF commit.hyps(1), of ended] by (simp add: ended_def)
qed

lemma lock_steps_bound: "(lock_step ^^ k) s s' \<Longrightarrow> k + work_left s' \<le> work_left s"
proof (induction k arbitrary: s')
  case (Suc k)
  then obtain t where "(lock_step ^^ k) s t" "lock_step t s'" by auto
  with Suc.IH [of t] lock_step_work [of t s'] show ?case by simp
qed simp

lemma all_finish: "lock_inv s \<Longrightarrow> \<exists>s'. lock_step\<^sup>*\<^sup>* s s' \<and> (\<forall>t \<in> set s'. finished t)"
proof (induction "work_left s" arbitrary: s rule: less_induct)
  case less
  show ?case
  proof (cases "\<forall>t \<in> set s. finished t")
    case False
    then obtain s1 where s1: "lock_step s s1" using lock_progress [OF less.prems] by blast
    then obtain s' where "lock_step\<^sup>*\<^sup>* s1 s'" "\<forall>t \<in> set s'. finished t"
      using less.hyps [OF lock_step_work [OF s1] lock_step_inv [OF s1 less.prems]] by blast
    with s1 show ?thesis by (meson converse_rtranclp_into_rtranclp)
  qed blast
qed



section \<open>Two reversals at once\<close>


definition twice_db :: tables where
  "twice_db = sample_db\<lparr>accountRows := [sample_account ''a'' ACTIVE 1000],
     entryRows := [opening_entry ''u1'' ''a'' 300, (opening_entry ''u2'' ''a'' 1000)
       \<lparr>entry_amountMinor := 700, entry_reference := ''DEP-2''\<rparr>]\<rparr>"


end
