(* ===== verification/Precision.thy ===== *)
theory Precision
  imports FraudRules SampleData
begin

text \<open>
  Money as the machine keeps it: a \<open>bigint\<close> column that is read with \<open>Number\<close>
  (\<open>src/src/common/utils/bigint.transformer.ts\<close>), arithmetic on doubles, and a number written back as its
  text. Everywhere else money is \<open>int\<close>; this theory shows for which amounts that is the same.
\<close>

section \<open>A column of big integers\<close>

text \<open>\<open>null\<close> and \<open>undefined\<close> are read as they are.\<close>

definition bigint_from :: "string option \<Rightarrow> jsnum option" where
  "bigint_from value = map_option js_number value"

definition bigint_to :: "jsnum option \<Rightarrow> jsnum option" where
  "bigint_to value = value"

text \<open>The text the driver makes of a number.\<close>

definition column_text :: "jsnum \<Rightarrow> string" where
  "column_text n = number_to_string n"

fun num_add :: "jsnum \<Rightarrow> jsnum \<Rightarrow> jsnum" where
  "num_add (Finite a) (Finite b) = Finite (dbl (a + b))"
| "num_add NaN n = NaN"
| "num_add n NaN = NaN"
| "num_add PosInf NegInf = NaN"
| "num_add NegInf PosInf = NaN"
| "num_add PosInf n = PosInf"
| "num_add NegInf n = NegInf"
| "num_add n PosInf = PosInf"
| "num_add n NegInf = NegInf"

text \<open>\<open>account.balanceMinor += signedAmountMinor\<close> between two visits to the column.\<close>

definition machine_post :: "string \<Rightarrow> int \<Rightarrow> string" where
  "machine_post column signedAmountMinor = (case bigint_from (Some column) of
     None \<Rightarrow> column
   | Some balance \<Rightarrow> (case bigint_to (Some (num_add balance (Finite (of_int signedAmountMinor)))) of
       None \<Rightarrow> column | Some n \<Rightarrow> column_text n))"

lemma machine_post_exact:
  assumes "\<bar>b\<bar> \<le> 2 ^ 53" "\<bar>b + n\<bar> \<le> 2 ^ 53"
  shows "machine_post (show_int b) n = show_int (b + n)"
proof -
  have "dbl (of_int b + of_int n) = of_int (b + n)"
    using dbl_of_int [OF assms(2)] by simp
  then show ?thesis
    using number_to_string_int [OF assms(2)]
    by (simp add: machine_post_def bigint_from_def bigint_to_def js_number_show_int [OF assms(1)] column_text_def)
qed

lemma trail_exact:
  assumes "trail_ok b rows b'" "\<bar>b\<bar> \<le> 2 ^ 53" "\<forall>r \<in> set rows. \<bar>entry_balanceAfterMinor r\<bar> \<le> 2 ^ 53"
  shows "foldl machine_post (show_int b) (map entry_amountMinor rows) = show_int b'"
  using assms by (induction rows arbitrary: b) (auto simp: machine_post_exact)

text \<open>
  C38: In the range of exact doubles the model's integers are the machine's numbers: while no balance of an
  account passes 2 to the 53 minor units, replaying its ledger entries the way the code computes, reading
  the column as a number, adding in doubles and writing the text back, ends with exactly the
  balance of the model.
\<close>
theorem machine_balance_exact:
  assumes "ledger_inv M entries db" "em_findAccount M db i = Some a"
    and "\<forall>r \<in> set (entries_for i (entries db)). \<bar>entry_balanceAfterMinor r\<bar> \<le> 2 ^ 53"
  shows "foldl machine_post ''0'' (map entry_amountMinor (entries_for i (entries db))) = show_int (balanceMinor a)"
proof -
  have "show_int 0 = ''0''" by (simp add: show_int_def show_nat.simps)
  moreover have "trail_ok 0 (entries_for i (entries db)) (balanceMinor a)"
    using assms(1,2) by (simp add: ledger_inv_def)
  ultimately show ?thesis using trail_exact assms(3) by fastforce
qed

theorem machine_balance_exact_witness:
  "foldl machine_post ''0'' (map entry_amountMinor (entries_for ''a'' (entryRows sample_db))) = ''50000''"
proof -
  have text50: "show_int 50000 = ''50000''" by (simp add: show_int_def show_nat.simps)
  have "em_findAccount tables_manager sample_db ''a'' = Some (sample_account ''a'' ACTIVE 50000)" by simp
  moreover have "\<forall>r \<in> set (entries_for ''a'' (entryRows sample_db)). \<bar>entry_balanceAfterMinor r\<bar> \<le> 2 ^ 53"
    by (simp add: sample_db_def opening_entry_def entries_for_def)
  ultimately show ?thesis
    using machine_balance_exact [OF sample_inv] by (metis sample_account_simps(1) text50)
qed

text \<open>
  Beyond it money is lost: a deposit of one minor unit into an account that holds 2 to the 53, an amount
  the validation of a deposit accepts, leaves the balance as it is, although its entry is written.
\<close>

theorem deposit_lost_beyond_range:
  "machine_post (show_int (2 ^ 53)) 1 = show_int (2 ^ 53)"
proof -
  have "dbl 9007199254740993 = (9007199254740992 :: rat)" by code_simp
  then show ?thesis
    using number_to_string_int [of "2 ^ 53"] js_number_show_int [of "2 ^ 53"]
    by (simp add: machine_post_def bigint_from_def bigint_to_def column_text_def)
qed

end
