(* ===== verification/Requests.thy ===== *)
theory Requests
  imports Commands Facade Loans Payments
begin

text \<open>
  What requests look like and which the application accepts: the classes with the decorators of
  \<open>class-validator\<close> (\<open>src/src/modules/*/dto/*.ts\<close>, and those declared beside their controllers) and the
  validation pipe of \<open>src/src/app.setup.ts\<close>, and the commands and inputs made of accepted bodies.

  A body is what \<open>JSON.parse\<close> made of it. A decorator is a value of \<open>check\<close>, with the behaviour the
  library documents: on a missing or \<open>null\<close> optional field no decorator is asked. What a UUID looks like and
  the messages of the library are arguments.
\<close>

section \<open>Bodies and decorators\<close>

datatype body_value =
    BNull
  | BBool bool
  | BNum jsnum
  | BStr string
  | BArr "body_value list"
  | BObj "(string \<times> body_value) list"

type_synonym request_body = "(string \<times> body_value) list"

datatype check =
    IsString
  | IsInt
  | IsPositive
  | Min_value int
  | Max_value int
  | Length_between nat nat
  | MaxLength nat
  | IsUUID
  | IsIn "string list"
  | IsObject

fun is_integer :: "jsnum \<Rightarrow> bool" where
  "is_integer (Finite q) = (of_int \<lfloor>q\<rfloor> = q)"
| "is_integer _ = False"

fun check_ok :: "(string \<Rightarrow> bool) \<Rightarrow> check \<Rightarrow> body_value option \<Rightarrow> bool" where
  "check_ok u IsString (Some (BStr s)) = True"
| "check_ok u IsInt (Some (BNum n)) = is_integer n"
| "check_ok u IsPositive (Some (BNum n)) = num_less (Finite 0) n"
| "check_ok u (Min_value k) (Some (BNum n)) = num_le (Finite (of_int k)) n"
| "check_ok u (Max_value k) (Some (BNum n)) = num_le n (Finite (of_int k))"
| "check_ok u (Length_between a b) (Some (BStr s)) = (a \<le> length s \<and> length s \<le> b)"
| "check_ok u (MaxLength b) (Some (BStr s)) = (length s \<le> b)"
| "check_ok u IsUUID (Some (BStr s)) = u s"
| "check_ok u (IsIn xs) (Some (BStr s)) = (s \<in> set xs)"
| "check_ok u IsObject (Some (BObj f)) = True"
| "check_ok u c v = False"

record request_field =
  rf_name :: string
  rf_optional :: bool
  rf_checks :: "check list"

abbreviation "required k cs \<equiv> \<lparr>rf_name = k, rf_optional = False, rf_checks = cs\<rparr>"
abbreviation "optional k cs \<equiv> \<lparr>rf_name = k, rf_optional = True, rf_checks = cs\<rparr>"

type_synonym request_class = "request_field list"

definition field_ok :: "(string \<Rightarrow> bool) \<Rightarrow> request_body \<Rightarrow> request_field \<Rightarrow> bool" where
  "field_ok u body f = (let v = map_of body (rf_name f) in
     rf_optional f \<and> (v = None \<or> v = Some BNull) \<or> list_all (\<lambda>c. check_ok u c v) (rf_checks f))"

text \<open>\<open>whitelist\<close> with \<open>forbidNonWhitelisted\<close>: a field the class does not declare is an error.\<close>

definition body_ok :: "(string \<Rightarrow> bool) \<Rightarrow> request_class \<Rightarrow> request_body \<Rightarrow> bool" where
  "body_ok u cls body \<longleftrightarrow> list_all (\<lambda>kv. fst kv \<in> set (map rf_name cls)) body \<and> list_all (field_ok u body) cls"

definition validation_pipe ::
  "(string \<Rightarrow> bool) \<Rightarrow> (request_class \<Rightarrow> request_body \<Rightarrow> string) \<Rightarrow> request_class \<Rightarrow> request_body \<Rightarrow> err + request_body" where
  "validation_pipe u msg cls body =
     (if body_ok u cls body then Inr body else Inl (HttpException 400 (ObjectBody (Some (msg cls body)))))"

definition parse_uuid :: "(string \<Rightarrow> bool) \<Rightarrow> string \<Rightarrow> err + string" where
  "parse_uuid u i = (if u i then Inr i else Inl (HttpException 400 (ObjectBody (Some ''Validation failed (uuid is expected)''))))"

section \<open>The classes\<close>

definition MoneyMovementDto :: request_class where
  "MoneyMovementDto =
     [required ''accountId'' [IsUUID], required ''amountMinor'' [IsInt, IsPositive],
      optional ''description'' [IsString, MaxLength 200]]"

definition TransferDto :: request_class where
  "TransferDto =
     [required ''fromAccountId'' [IsUUID], required ''toAccountId'' [IsUUID], required ''amountMinor'' [IsInt, IsPositive],
      required ''channel'' [IsIn [''web'', ''mobile'', ''branch'']], optional ''description'' [IsString, MaxLength 200]]"

definition OpenAccountDto :: request_class where
  "OpenAccountDto =
     [required ''ownerName'' [IsString, Length_between 2 120],
      required ''type'' [IsIn [''CURRENT'', ''SAVINGS'', ''FIXED_DEPOSIT'']],
      required ''currency'' [IsString, Length_between 3 3], optional ''productCode'' [IsString],
      optional ''initialDepositMinor'' [IsInt, Min_value 0]]"

definition ChangeStatusDto :: request_class where
  "ChangeStatusDto = [required ''action'' [IsIn [''activate'', ''freeze'', ''unfreeze'', ''close'']]]"

definition LoanDraftDto :: request_class where
  "LoanDraftDto =
     [optional ''applicantName'' [IsString], optional ''accountId'' [IsUUID], optional ''amountMinor'' [IsInt, IsPositive],
      optional ''termMonths'' [IsInt, Min_value 3, Max_value 84], optional ''purpose'' [IsString],
      optional ''monthlyIncomeMinor'' [IsInt, IsPositive], optional ''collateralDescription'' [IsString],
      optional ''collateralValueMinor'' [IsInt, IsPositive]]"

definition PaymentQuoteDto :: request_class where
  "PaymentQuoteDto =
     [required ''rail'' [IsIn [''RAAST'', ''SWIFT'']], required ''amountMinor'' [IsInt, IsPositive],
      required ''currency'' [IsString, Length_between 3 3], required ''beneficiaryName'' [IsString],
      required ''beneficiaryIban'' [IsString], optional ''beneficiaryBic'' [IsString], optional ''purpose'' [IsString]]"

definition EvaluateRuleDto :: request_class where
  "EvaluateRuleDto = [required ''rule'' [IsString], required ''context'' [IsObject]]"

definition AskDto :: request_class where
  "AskDto =
     [required ''question'' [IsString, Length_between 3 500], optional ''k'' [IsInt, Min_value 1, Max_value 10]]"

section \<open>Reading an accepted body\<close>

definition text_of :: "request_body \<Rightarrow> string \<Rightarrow> string" where
  "text_of body k = (case map_of body k of Some (BStr s) \<Rightarrow> s | _ \<Rightarrow> [])"

definition int_of :: "request_body \<Rightarrow> string \<Rightarrow> int" where
  "int_of body k = (case map_of body k of Some (BNum (Finite q)) \<Rightarrow> \<lfloor>q\<rfloor> | _ \<Rightarrow> 0)"

definition text_option :: "request_body \<Rightarrow> string \<Rightarrow> string option" where
  "text_option body k = (case map_of body k of Some (BStr s) \<Rightarrow> Some s | _ \<Rightarrow> None)"

definition int_option :: "request_body \<Rightarrow> string \<Rightarrow> int option" where
  "int_option body k = (case map_of body k of Some (BNum (Finite q)) \<Rightarrow> Some \<lfloor>q\<rfloor> | _ \<Rightarrow> None)"

text \<open>Texts that \<open>IsIn\<close> and \<open>IsEnum\<close> let through, as values.\<close>

definition type_of_text :: "string \<Rightarrow> AccountType" where
  "type_of_text s = (if s = ''SAVINGS'' then SAVINGS else if s = ''CURRENT'' then CURRENT else FIXED_DEPOSIT)"

definition action_of_text :: "string \<Rightarrow> account_action" where
  "action_of_text s =
     (if s = ''activate'' then Activate else if s = ''freeze'' then Freeze else if s = ''unfreeze'' then Unfreeze else Close)"

definition channel_of_text :: "string \<Rightarrow> channel" where
  "channel_of_text s = (if s = ''web'' then Web else if s = ''mobile'' then Mobile else Branch)"

definition open_dto_of :: "request_body \<Rightarrow> open_dto" where
  "open_dto_of body =
     \<lparr>od_ownerName = text_of body ''ownerName'', od_type = type_of_text (text_of body ''type''),
      od_currency = text_of body ''currency'', od_productCode = text_option body ''productCode'',
      od_initialDepositMinor = int_option body ''initialDepositMinor''\<rparr>"

text \<open>\<open>{ ...dto, initialDepositMinor: dto.initialDepositMinor ?? 0 }\<close>.\<close>

definition onboard_input_of :: "request_body \<Rightarrow> onboard_input" where
  "onboard_input_of body =
     \<lparr>oc_ownerName = text_of body ''ownerName'', oc_type = type_of_text (text_of body ''type''),
      oc_currency = text_of body ''currency'',
      oc_initialDepositMinor = (case int_option body ''initialDepositMinor'' of None \<Rightarrow> 0 | Some n \<Rightarrow> n),
      oc_productCode = text_option body ''productCode''\<rparr>"

definition transfer_request_of :: "request_body \<Rightarrow> transfer_request" where
  "transfer_request_of body =
     \<lparr>tq_fromAccountId = text_of body ''fromAccountId'', tq_toAccountId = text_of body ''toAccountId'',
      tq_amountMinor = int_of body ''amountMinor'', tq_channel = channel_of_text (text_of body ''channel''),
      tq_description = text_option body ''description'', tq_feeMinor = int_option body ''feeMinor''\<rparr>"

definition draft_value_of :: "body_value \<Rightarrow> draft_value" where
  "draft_value_of v = (case v of BStr s \<Rightarrow> DvText s | BNum (Finite q) \<Rightarrow> DvNum \<lfloor>q\<rfloor> | _ \<Rightarrow> DvNull)"

definition draft_fields_of :: "request_body \<Rightarrow> draft_fields" where
  "draft_fields_of body = dto_instance (map (\<lambda>(k, v). (k, draft_value_of v)) body)"

definition rail_of_text :: "string \<Rightarrow> rail_name" where
  "rail_of_text s = (if s = ''RAAST'' then RAAST else SWIFT)"

definition payment_of :: "request_body \<Rightarrow> outbound_payment" where
  "payment_of body =
     \<lparr>op_amountMinor = int_of body ''amountMinor'', op_currency = text_of body ''currency'',
      op_beneficiaryName = text_of body ''beneficiaryName'', op_beneficiaryIban = text_of body ''beneficiaryIban'',
      op_beneficiaryBic = text_option body ''beneficiaryBic'', op_purpose = text_option body ''purpose''\<rparr>"

text \<open>
  The context a rule is tried on. Its values are declared as texts, numbers and booleans, but only
  the context as a whole is checked, so any JSON value comes through: \<open>null\<close> converts to 0, an array as its
  text, an object to NaN. The transformation of the body leaves out the names \<open>__proto__\<close> and
  \<open>constructor\<close>. A nested object that defines \<open>toString\<close> itself cannot be converted at all and is not covered.
\<close>

fun array_item :: "body_value \<Rightarrow> string" where
  "array_item BNull = []"
| "array_item (BBool b) = (if b then ''true'' else ''false'')"
| "array_item (BNum n) = number_to_string n"
| "array_item (BStr s) = s"
| "array_item (BArr xs) = js_join '','' (map array_item xs)"
| "array_item (BObj f) = ''[object Object]''"

fun rule_value :: "body_value \<Rightarrow> rvalue" where
  "rule_value BNull = VOpaque (Finite 0)"
| "rule_value (BBool b) = VBool b"
| "rule_value (BNum n) = VNum n"
| "rule_value (BStr s) = VStr s"
| "rule_value (BArr xs) = VOpaque (js_number (array_item (BArr xs)))"
| "rule_value (BObj f) = VObject"

definition rule_context_of :: "request_body \<Rightarrow> rule_context" where
  "rule_context_of body = (case map_of body ''context'' of
     Some (BObj f) \<Rightarrow> map (\<lambda>(k, v). (k, rule_value v)) (filter (\<lambda>x. fst x \<notin> {''__proto__'', ''constructor''}) f)
   | _ \<Rightarrow> [])"

section \<open>The commands of the transactions controller\<close>

text \<open>
  A description that is \<open>null\<close> passes \<open>IsOptional\<close>. A transfer replaces it by its default text (\<open>??\<close>); a
  deposit or a withdrawal hands it on (a default parameter stands in for \<open>undefined\<close> only), and the
  database refuses the entry: the transaction is rolled back, the reference number is used up.
\<close>

definition not_null_violation :: err where
  "not_null_violation = PlainError ''null value in column description violates not-null constraint''"

definition refuse_null :: "'db bank_state bank_command \<Rightarrow> 'db bank_state bank_command" where
  "refuse_null c = c\<lparr>cmd_execute := \<lambda>e w. case cmd_execute c e w of
     (Inl x, w') \<Rightarrow> (Inl x, w')
   | (Inr _, w') \<Rightarrow> (Inl not_null_violation, w\<lparr>bs_ledger := (bs_ledger w)\<lparr>ls_refs := ls_refs (bs_ledger w')\<rparr>\<rparr>)\<rparr>"

definition with_description :: "request_body \<Rightarrow> (string option \<Rightarrow> 'db bank_state bank_command) \<Rightarrow> 'db bank_state bank_command" where
  "with_description body c =
     (if map_of body ''description'' = Some BNull then refuse_null (c None) else c (text_option body ''description''))"

definition deposit_command_of :: "'db entity_manager \<Rightarrow> request_body \<Rightarrow> 'db bank_state bank_command" where
  "deposit_command_of M body =
     with_description body (DepositCommand M (text_of body ''accountId'') (int_of body ''amountMinor''))"

definition withdraw_command_of :: "'db entity_manager \<Rightarrow> request_body \<Rightarrow> 'db bank_state bank_command" where
  "withdraw_command_of M body =
     with_description body (WithdrawCommand M (text_of body ''accountId'') (int_of body ''amountMinor''))"

definition transfer_command_of ::
  "'db transfer_service \<Rightarrow> 'db entity_manager \<Rightarrow> request_body \<Rightarrow> 'db bank_state bank_command" where
  "transfer_command_of transfers M body = (let c = TransferCommand transfers M (transfer_request_of body) in
     if map_of body ''description'' = Some BNull then c\<lparr>cmd_summary := cmd_summary c @ [(''description'', JNull)]\<rparr> else c)"

section \<open>What acceptance guarantees\<close>

lemma check_ok_iff:
  "check_ok u IsString v \<longleftrightarrow> (\<exists>s. v = Some (BStr s))"
  "check_ok u IsInt v \<longleftrightarrow> (\<exists>n. v = Some (BNum (Finite (of_int n))))"
  "check_ok u IsUUID v \<longleftrightarrow> (\<exists>s. v = Some (BStr s) \<and> u s)"
  "check_ok u (IsIn xs) v \<longleftrightarrow> (\<exists>s \<in> set xs. v = Some (BStr s))"
  "check_ok u (Length_between a b) v \<longleftrightarrow> (\<exists>s. v = Some (BStr s) \<and> a \<le> length s \<and> length s \<le> b)"
  "check_ok u (MaxLength b) v \<longleftrightarrow> (\<exists>s. v = Some (BStr s) \<and> length s \<le> b)"
  "check_ok u IsPositive v \<longleftrightarrow> (\<exists>n. v = Some (BNum n) \<and> num_less (Finite 0) n)"
  "check_ok u (Min_value k) v \<longleftrightarrow> (\<exists>n. v = Some (BNum n) \<and> num_le (Finite (of_int k)) n)"
  "check_ok u (Max_value k) v \<longleftrightarrow> (\<exists>n. v = Some (BNum n) \<and> num_le n (Finite (of_int k)))"
  subgoal by (cases "(u, IsString, v)" rule: check_ok.cases) auto
  subgoal by (cases "(u, IsInt, v)" rule: check_ok.cases) (auto elim: is_integer.elims)
  subgoal by (cases "(u, IsUUID, v)" rule: check_ok.cases) auto
  subgoal by (cases "(u, IsIn xs, v)" rule: check_ok.cases) auto
  subgoal by (cases "(u, Length_between a b, v)" rule: check_ok.cases) auto
  subgoal by (cases "(u, MaxLength b, v)" rule: check_ok.cases) auto
  subgoal by (cases "(u, IsPositive, v)" rule: check_ok.cases) auto
  subgoal by (cases "(u, Min_value k, v)" rule: check_ok.cases) auto
  subgoal by (cases "(u, Max_value k, v)" rule: check_ok.cases) auto
  done

lemma validation_pipe_ok [result_simps]: "validation_pipe u msg cls body = Inr b \<longleftrightarrow> body_ok u cls body \<and> b = body"
  by (auto simp: validation_pipe_def)

lemma body_ok_field: "body_ok u cls body \<Longrightarrow> f \<in> set cls \<Longrightarrow> field_ok u body f"
  by (simp add: body_ok_def list_all_iff)

lemma body_ok_undeclared: "body_ok u cls body \<Longrightarrow> k \<notin> set (map rf_name cls) \<Longrightarrow> map_of body k = None"
  by (auto simp: body_ok_def list_all_iff map_of_eq_None_iff)

lemma integer_field:
  assumes "field_ok u body (required k (IsInt # cs))"
  shows "map_of body k = Some (BNum (Finite (of_int (int_of body k))))" "int_option body k = Some (int_of body k)"
  using assms by (auto simp: field_ok_def Let_def check_ok_iff int_of_def int_option_def)

lemma text_field_ok:
  assumes "field_ok u body (required k (c # cs))" "c \<in> {IsString, IsUUID} \<or> (\<exists>xs. c = IsIn xs)"
  shows "map_of body k = Some (BStr (text_of body k))"
  using assms by (auto simp: field_ok_def Let_def check_ok_iff text_of_def)

lemma channel_text: "s \<in> {''web'', ''mobile'', ''branch''} \<Longrightarrow> channel_name (channel_of_text s) = s"
  by (auto simp: channel_of_text_def)

lemma type_text: "s \<in> {''CURRENT'', ''SAVINGS'', ''FIXED_DEPOSIT''} \<Longrightarrow> type_name (type_of_text s) = s"
  by (auto simp: type_of_text_def)


lemma optional_text:
  assumes "field_ok u body (optional k (IsString # cs))" "text_option body k = Some t"
  shows "map_of body k = Some (BStr t) \<and> list_all (\<lambda>c. check_ok u c (Some (BStr t))) cs"
  using assms by (auto simp: field_ok_def Let_def text_option_def split: option.splits body_value.splits)

lemma accepted_onboard:
  assumes "body_ok u OpenAccountDto body"
  shows "0 \<le> oc_initialDepositMinor (onboard_input_of body)"
proof -
  have "field_ok u body (optional ''initialDepositMinor'' [IsInt, Min_value 0])"
    by (rule body_ok_field [OF assms]) (simp add: OpenAccountDto_def)
  then show ?thesis
    by (auto simp: onboard_input_of_def int_option_def field_ok_def Let_def check_ok_iff num_le_def
        split: option.splits body_value.splits jsnum.splits)
qed

lemma accepted_transfer_parts:
  assumes "body_ok u TransferDto body"
  shows "u (tq_fromAccountId (transfer_request_of body))" "u (tq_toAccountId (transfer_request_of body))"
    "0 < tq_amountMinor (transfer_request_of body)"
proof -
  note f = body_ok_field [OF assms, unfolded TransferDto_def]
  have ids: "field_ok u body (required ''fromAccountId'' [IsUUID])" "field_ok u body (required ''toAccountId'' [IsUUID])"
    and amount: "field_ok u body (required ''amountMinor'' [IsInt, IsPositive])"
    by (rule f, simp)+
  have uuid: "u (text_of body k)" if "field_ok u body (required k [IsUUID])" for k
    using that by (auto simp: field_ok_def Let_def check_ok_iff text_of_def)
  show "u (tq_fromAccountId (transfer_request_of body))" "u (tq_toAccountId (transfer_request_of body))"
    using ids [THEN uuid] by (simp_all add: transfer_request_of_def)
  show "0 < tq_amountMinor (transfer_request_of body)"
    using amount integer_field(1) [OF amount] by (auto simp: transfer_request_of_def field_ok_def Let_def check_ok_iff)
qed

text \<open>
  C36: An accepted transfer request is a well-formed one, and the client cannot name its fee: both ids are
  UUIDs, the amount is a positive whole number, exactly the one in the body, the channel is one of the
  three, a description has at most 200 characters, and no fee comes from the body, which cannot even hold
  one.
\<close>
theorem accepted_transfer_typed:
  assumes "validation_pipe u msg TransferDto body = Inr b"
  shows "let q = transfer_request_of b in
    u (tq_fromAccountId q) \<and> u (tq_toAccountId q) \<and> 0 < tq_amountMinor q \<and>
    map_of body ''amountMinor'' = Some (BNum (Finite (of_int (tq_amountMinor q)))) \<and>
    map_of body ''channel'' = Some (BStr (channel_name (tq_channel q))) \<and>
    (\<forall>t. tq_description q = Some t \<longrightarrow> map_of body ''description'' = Some (BStr t) \<and> length t \<le> 200) \<and>
    tq_feeMinor q = None \<and> map_of body ''feeMinor'' = None"
proof -
  have ok: "body_ok u TransferDto body" and b: "b = body" using assms by (simp_all add: result_simps)
  note f = body_ok_field [OF ok, unfolded TransferDto_def]
  have amount: "field_ok u body (required ''amountMinor'' [IsInt, IsPositive])"
    and channel: "field_ok u body (required ''channel'' [IsIn [''web'', ''mobile'', ''branch'']])"
    and description: "field_ok u body (optional ''description'' [IsString, MaxLength 200])"
    by (rule f, simp)+
  have "text_of body ''channel'' \<in> {''web'', ''mobile'', ''branch''}"
    using channel text_field_ok [OF channel] by (auto simp: field_ok_def Let_def check_ok_iff)
  then have ch: "map_of body ''channel'' = Some (BStr (channel_name (channel_of_text (text_of body ''channel''))))"
    using text_field_ok [OF channel] channel_text by simp
  have none: "map_of body ''feeMinor'' = None"
    by (rule body_ok_undeclared [OF ok]) (simp add: TransferDto_def)
  have desc: "map_of body ''description'' = Some (BStr t) \<and> length t \<le> 200" if "text_option body ''description'' = Some t" for t
    using optional_text [OF description that] by simp
  show ?thesis
    using accepted_transfer_parts [OF ok] integer_field(1) [OF amount] ch none desc
    by (simp add: b Let_def transfer_request_of_def int_option_def)
qed

definition sample_transfer_body :: request_body where
  "sample_transfer_body =
     [(''fromAccountId'', BStr ''a''), (''toAccountId'', BStr ''b''), (''amountMinor'', BNum (Finite 1500)),
      (''channel'', BStr ''mobile'')]"

lemma sample_transfer_ok: "body_ok (\<lambda>i. length i = 1) TransferDto sample_transfer_body"
  by (simp add: body_ok_def TransferDto_def sample_transfer_body_def field_ok_def Let_def)

theorem accepted_transfer_typed_witness:
  "tq_amountMinor (transfer_request_of sample_transfer_body) = 1500 \<and>
   map_of sample_transfer_body ''channel'' = Some (BStr (channel_name (tq_channel (transfer_request_of sample_transfer_body)))) \<and>
   tq_feeMinor (transfer_request_of sample_transfer_body) = None"
proof -
  have "validation_pipe (\<lambda>i. length i = 1) (\<lambda>_ _. []) TransferDto sample_transfer_body = Inr sample_transfer_body"
    using sample_transfer_ok by (simp add: validation_pipe_def)
  from accepted_transfer_typed [OF this] show ?thesis
    by (simp add: Let_def) (simp add: sample_transfer_body_def transfer_request_of_def int_of_def)
qed

end
