(* ===== verification/Exports.thy ===== *)
theory Exports
  imports Statements Rag
begin

text \<open>
  What is written to the response piece by piece: the ledger export of
  \<open>src/src/modules/transactions/transactions.controller.ts\<close> and the event stream of
  \<open>src/src/modules/ai/ai.controller.ts\<close>. Both theorems read the text back.
\<close>

section \<open>The ledger export\<close>

definition export_header :: string where
  "export_header = ''created_at,reference,type,amount_minor,balance_after_minor,description'' @ [CHR 0x0A]"

definition csv_quote :: "string \<Rightarrow> string" where
  "csv_quote v = [CHR 0x22] @ concat (map (\<lambda>c. if c = CHR 0x22 then [CHR 0x22, CHR 0x22] else [c]) v) @ [CHR 0x22]"

definition export_line :: "ledger_entry \<Rightarrow> string" where
  "export_line e = js_join '',''
     [toISOString (js_date_ms (entry_createdAt e)), entry_reference e, entry_type_name (entry_type e),
      show_int (entry_amountMinor e), show_int (entry_balanceAfterMinor e), csv_quote (entry_description e)] @ [CHR 0x0A]"

definition export_text :: "ledger_entry list \<Rightarrow> string" where
  "export_text rows = export_header @ concat (map export_line rows)"

text \<open>\<open>None\<close>: the loop over the history does not end within \<open>fuel\<close> entries.\<close>

definition exportCsv :: "ledger_entry list \<Rightarrow> string \<Rightarrow> nat \<Rightarrow> (string \<times> string) option" where
  "exportCsv rows accountId fuel =
     map_option (\<lambda>(es, _). (''attachment; filename='' @ [CHR 0x22] @ ''ledger-'' @ accountId @ ''.csv'' @ [CHR 0x22], export_text es))
       (iterate_history rows accountId by_500 fuel)"

definition export_record :: "ledger_entry \<Rightarrow> string list" where
  "export_record e =
     [toISOString (js_date_ms (entry_createdAt e)), entry_reference e, entry_type_name (entry_type e),
      show_int (entry_amountMinor e), show_int (entry_balanceAfterMinor e), entry_description e]"

definition plain_text :: "string \<Rightarrow> bool" where
  "plain_text s \<longleftrightarrow> \<not> list_ex csv_special s"

lemma writes_plain: "plain_text s \<Longrightarrow> writes_cell s s"
  using writes_escape [of s] by (simp add: plain_text_def csv_escape_def)

lemma writes_quote: "writes_cell (csv_quote v) v"
  by (simp add: writes_cell_def csv_cell_def csv_quote_def csv_quoted_escape)

lemma plain_digits: "set s \<subseteq> Collect is_digit \<union> set ''-T:.Z'' \<Longrightarrow> plain_text s"
proof -
  assume "set s \<subseteq> Collect is_digit \<union> set ''-T:.Z''"
  then have "\<not> csv_special c" if "c \<in> set s" for c
    using that by (auto simp: csv_special_def is_digit_def)
  then show "plain_text s" by (simp add: plain_text_def list_ex_iff)
qed

lemma plain_fields: "plain_text (toISOString ms)" "plain_text (show_int n)" "plain_text (entry_type_name t)"
proof -
  show "plain_text (toISOString ms)" by (rule plain_digits) (rule iso_chars)
  show "plain_text (show_int n)" by (rule plain_digits) (use show_nat_digits in \<open>auto simp: show_int_def\<close>)
  show "plain_text (entry_type_name t)" by (cases t) (simp_all add: plain_text_def csv_special_def)
qed

lemma read_export_line:
  assumes "plain_text (entry_reference e)"
  shows "csv_read (export_line e @ t) = export_record e # csv_read t"
proof -
  let ?ws = "[toISOString (js_date_ms (entry_createdAt e)), entry_reference e, entry_type_name (entry_type e),
      show_int (entry_amountMinor e), show_int (entry_balanceAfterMinor e), csv_quote (entry_description e)]"
  have "list_all2 writes_cell ?ws (export_record e)"
    using assms plain_fields writes_plain by (simp add: export_record_def writes_quote)
  from csv_read_cells [OF this, of "CHR 0x0A # t"] show ?thesis by (simp add: export_line_def)
qed

lemma read_export_lines:
  "\<forall>e \<in> set rows. plain_text (entry_reference e) \<Longrightarrow>
     csv_read (concat (map export_line rows)) = map export_record rows @ [[[]]]"
proof (induction rows)
  case Nil
  show ?case by (subst csv_read.simps) (simp add: csv_cell_def)
qed (simp add: read_export_line)

lemma read_export_header:
  "csv_read (export_header @ t) =
     [''created_at'', ''reference'', ''type'', ''amount_minor'', ''balance_after_minor'', ''description''] # csv_read t"
proof -
  let ?row = "[''created_at'', ''reference'', ''type'', ''amount_minor'', ''balance_after_minor'', ''description'']"
  have e: "js_join '','' (map csv_escape ?row) @ CHR 0x0A # t = export_header @ t"
    by (simp add: export_header_def csv_escape_def csv_special_def)
  show ?thesis using csv_read_row [of ?row "CHR 0x0A # t"] unfolding e by simp
qed

text \<open>
  The ledger export is complete and can be read back: with time stamps of whole milliseconds the
  request is answered, and a CSV reader finds the column names, then one record for every entry of the
  account, in the order of time and id, with its reference, type, amounts and, whatever it contains, its
  description; nothing else follows the last line break.
\<close>
theorem export_reads_back:
  assumes "millisecond_rows rows" "length rows < fuel" "\<forall>e \<in> set rows. plain_text (entry_reference e)"
  shows "\<exists>name body. exportCsv rows accountId fuel = Some (name, body) \<and>
    csv_read body =
      [''created_at'', ''reference'', ''type'', ''amount_minor'', ''balance_after_minor'', ''description''] #
      map export_record (history_rows rows accountId by_500) @ [[[]]]"
proof -
  obtain it where "iterate_history rows accountId by_500 fuel = Some (history_rows rows accountId by_500, it)"
    using iterate_milliseconds [OF assms(1) _ assms(2), of by_500 accountId] by (auto simp: by_500_def page_size_def)
  moreover have "\<forall>e \<in> set (history_rows rows accountId by_500). plain_text (entry_reference e)"
    using assms(3) by (auto simp: history_rows_def)
  ultimately show ?thesis
    by (simp add: exportCsv_def export_text_def read_export_header read_export_lines)
qed

theorem export_reads_back_witness:
  "\<exists>name body. exportCsv (entryRows sample_db) ''a'' 9 = Some (name, body) \<and> length (csv_read body) = 3"
proof -
  have "millisecond_rows (entryRows sample_db)" by (simp add: millisecond_rows_def sample_defs)
  moreover have "length (entryRows sample_db) < 9" by (simp add: sample_db_def)
  moreover have "\<forall>e \<in> set (entryRows sample_db). plain_text (entry_reference e)"
    by (simp add: sample_db_def opening_entry_def plain_text_def csv_special_def)
  moreover have "length (history_rows (entryRows sample_db) ''a'' by_500) = 1"
    by (simp add: history_rows_def sample_db_def opening_entry_def in_range_def by_500_def)
  ultimately show ?thesis
    using export_reads_back [of "entryRows sample_db" 9 "''a''"] by auto
qed

section \<open>The event stream\<close>

definition sse_frame :: "string \<Rightarrow> string" where
  "sse_frame token = ''data: '' @ json_string token @ [CHR 0x0A, CHR 0x0A]"

definition sse_done :: string where
  "sse_done = ''event: done'' @ [CHR 0x0A] @ ''data: {}'' @ [CHR 0x0A, CHR 0x0A]"

definition sse_error :: "string \<Rightarrow> string" where
  "sse_error message = ''event: error'' @ [CHR 0x0A] @ ''data: '' @ json_string message @ [CHR 0x0A, CHR 0x0A]"

text \<open>What the handler writes; a failure before the first token is written as an event as well.\<close>

definition ask_stream :: "rag_deps \<Rightarrow> chunk list \<Rightarrow> string option \<Rightarrow> string" where
  "ask_stream d rows question =
     (case stream_answer d rows (case question of None \<Rightarrow> [] | Some q \<Rightarrow> q) None of
        Inl x \<Rightarrow> sse_error (err_message x)
      | Inr tokens \<Rightarrow> concat (map sse_frame tokens) @ sse_done)"

lemma split_line: "CHR 0x0A \<notin> set s \<Longrightarrow> js_split (CHR 0x0A) (s @ CHR 0x0A # t) = s # js_split (CHR 0x0A) t"
  by (induction s) auto

lemma char_of_no_break: "48 \<le> k \<Longrightarrow> k < 256 \<Longrightarrow> char_of k \<noteq> CHR 0x0A" for k :: nat
  by (simp add: char_of_eq_iff take_bit_nat_def)

lemma json_no_break: "CHR 0x0A \<notin> set (json_string s)"
proof -
  have "CHR 0x0A \<notin> set (json_escape c)" for c
  proof -
    have ten: "c = CHR 0x0A \<Longrightarrow> (of_char c :: nat) = 10" by simp
    have hex: "char_of (if d < 10 then 48 + d else 87 + d) \<noteq> CHR 0x0A" if "d < 16" for d :: nat
      using that char_of_no_break by simp
    have "(of_char c :: nat) < 32 \<Longrightarrow> (of_char c :: nat) div 16 < 16" by (simp add: less_mult_imp_div_less)
    with hex [of "of_char c div 16"] hex [of "of_char c mod 16"] ten show ?thesis
      by (auto simp: json_escape_def Let_def split: if_splits)
  qed
  then show ?thesis by (simp add: json_string_def)
qed

text \<open>The data of the frames of a stream, in order.\<close>

definition sse_data :: "string \<Rightarrow> string list" where
  "sse_data body = map (drop 6) (filter (starts_with ''data: '') (js_split (CHR 0x0A) body))"

lemma sse_data_frame: "sse_data (sse_frame t @ s) = json_string t # sse_data s"
proof -
  have "CHR 0x0A \<notin> set (''data: '' @ json_string t)" using json_no_break by simp
  from split_line [OF this] show ?thesis by (simp add: sse_data_def sse_frame_def)
qed

lemma sse_data_frames: "sse_data (concat (map sse_frame ts) @ s) = map json_string ts @ sse_data s"
  by (induction ts) (simp_all add: sse_data_frame)

lemma sse_data_done: "sse_data sse_done = [''{}'']"
  by (simp add: sse_data_def sse_done_def)

text \<open>
  Every token of a streamed answer arrives in one frame of its own, whatever line breaks and quotes it
  contains, and then the end of the stream; a failure arrives as one frame with its message.
\<close>

lemma stream_frames:
  "sse_data (ask_stream d rows question) =
     (case stream_answer d rows (case question of None \<Rightarrow> [] | Some q \<Rightarrow> q) None of
        Inl x \<Rightarrow> [json_string (err_message x)]
      | Inr tokens \<Rightarrow> map json_string tokens @ [''{}''])"
proof -
  have "sse_data (sse_error m) = [json_string m]" for m
  proof -
    have "sse_error m = (''event: error'' @ [CHR 0x0A]) @ sse_frame m @ []" by (simp add: sse_error_def sse_frame_def)
    moreover have "sse_data ((''event: error'' @ [CHR 0x0A]) @ s) = sse_data s" for s by (simp add: sse_data_def)
    ultimately show ?thesis by (simp only: sse_data_frame) (simp add: sse_data_def)
  qed
  then show ?thesis by (simp add: ask_stream_def sse_data_frames sse_data_done split: sum.splits)
qed

end
