(* ===== verification/Broker.thy ===== *)
theory Broker
  imports Notifications
begin

text \<open>
  Reaching the broker, and saying whether it is reached: the background connection of the publisher
  (\<open>src/src/modules/messaging/kafka-event-publisher.adapter.ts\<close>), the start of the worker's consumer
  (\<open>src/src/modules/messaging/consumers/notification.consumer.ts\<close>) and the health endpoints
  (\<open>src/src/modules/health/health.controller.ts\<close>).

  Both loops have no bound, so they are instances of \<open>retrying\<close>, whose value \<open>None\<close> is a loop that never
  ends. How each attempt fares is an argument: \<open>world k\<close> for the \<open>k\<close>th.
\<close>

section \<open>Trying again\<close>

text \<open>One attempt after the other until the first that does not throw; the result holds the waits in between.\<close>

partial_function (option) retrying ::
  "(nat \<Rightarrow> 's \<Rightarrow> (err + unit) \<times> 's) \<Rightarrow> (nat \<Rightarrow> nat) \<Rightarrow> nat \<Rightarrow> nat list \<Rightarrow> 's \<Rightarrow> (nat list \<times> 's) option" where
  "retrying step delay attempt waits s = (case step attempt s of (r, s') \<Rightarrow>
     if is_ok r then Some (waits, s') else retrying step delay (Suc attempt) (waits @ [delay attempt]) s')"

fun attempts :: "(nat \<Rightarrow> 's \<Rightarrow> (err + unit) \<times> 's) \<Rightarrow> nat \<Rightarrow> nat \<Rightarrow> 's \<Rightarrow> 's" where
  "attempts step k 0 s = s"
| "attempts step k (Suc n) s = attempts step (Suc k) n (snd (step k s))"

text \<open>The interface of an attempt: whether it succeeds is up to the world alone.\<close>

locale attempting =
  fixes step :: "nat \<Rightarrow> 's \<Rightarrow> (err + unit) \<times> 's" and works :: "nat \<Rightarrow> bool"
  assumes step_works: "is_ok (fst (step k s)) = works k"
begin

lemma retrying_first:
  assumes "works (k + n)" "\<forall>j < n. \<not> works (k + j)"
  shows "retrying step delay k waits s = Some (waits @ map delay [k..<k + n], snd (step (k + n) (attempts step k n s)))"
  using assms
proof (induction n arbitrary: k waits s)
  case 0
  then show ?case using step_works [of k s] by (simp add: retrying.simps [of step] case_prod_beta)
next
  case (Suc n)
  have "\<not> works k" using Suc.prems(2) by force
  then have "retrying step delay k waits s = retrying step delay (Suc k) (waits @ [delay k]) (snd (step k s))"
    using step_works [of k s] by (simp add: retrying.simps [of step delay k] case_prod_beta)
  also have "\<dots> = Some ((waits @ [delay k]) @ map delay [Suc k..<Suc k + n],
      snd (step (Suc k + n) (attempts step (Suc k) n (snd (step k s)))))"
    using Suc.prems by (intro Suc.IH) auto
  finally show ?case by (simp add: upt_conv_Cons [of k] del: upt_Suc)
qed

lemma retrying_returns:
  assumes ret: "retrying step delay k waits s = Some r"
  shows "\<exists>n. works (k + n)"
proof -
  have "step = step \<longrightarrow> (\<exists>n. works (k + n))"
  proof (rule retrying.raw_induct [where P = "\<lambda>step' delay k waits s r. step' = step \<longrightarrow> (\<exists>n. works (k + n))", OF _ ret])
    fix again and step' :: "nat \<Rightarrow> 's \<Rightarrow> (err + unit) \<times> 's" and delay' :: "nat \<Rightarrow> nat" and j waits' s' r'
    assume IH: "\<And>step' delay k waits s r. again step' delay k waits s = Some r \<Longrightarrow> step' = step \<longrightarrow> (\<exists>n. works (k + n))"
      and eq: "(case step' j s' of (r, s'') \<Rightarrow>
        if is_ok r then Some (waits', s'') else again step' delay' (Suc j) (waits' @ [delay' j]) s'') = Some r'"
    show "step' = step \<longrightarrow> (\<exists>n. works (j + n))"
    proof (intro impI, cases "works j")
      case True
      then have "works (j + 0)" by simp
      then show "\<exists>n. works (j + n)" by blast
    next
      assume same: "step' = step"
      case False
      with eq same have "again step' delay' (Suc j) (waits' @ [delay' j]) (snd (step j s')) = Some r'"
        using step_works [of j s'] by (simp add: case_prod_beta)
      from IH [OF this] same obtain n where "works (j + Suc n)" by auto
      then show "\<exists>n. works (j + n)" by blast
    qed
  qed
  then show ?thesis by simp
qed

text \<open>The loop ends exactly if some attempt works, and then with the first that does.\<close>

lemma retrying_iff: "retrying step delay k waits s \<noteq> None \<longleftrightarrow> (\<exists>n \<ge> k. works n)"
proof
  assume "retrying step delay k waits s \<noteq> None"
  then show "\<exists>n \<ge> k. works n" using retrying_returns by (metis le_add1 not_None_eq)
next
  assume "\<exists>n \<ge> k. works n"
  then obtain n where "works (k + n)" by (metis le_iff_add)
  then have "works (k + (LEAST n. works (k + n)))" by (rule LeastI)
  moreover have "\<forall>j < (LEAST n. works (k + n)). \<not> works (k + j)" using not_less_Least by blast
  ultimately show "retrying step delay k waits s \<noteq> None" by (simp add: retrying_first)
qed

lemma retrying_never: "\<not> (\<exists>n \<ge> k. works n) \<Longrightarrow> retrying step delay k waits s = None"
  using retrying_iff by blast

end

section \<open>The publisher\<close>

text \<open>The topics of the broker, each with its partitions and replicas.\<close>

type_synonym topics = "(string \<times> nat \<times> nat) list"

text \<open>
  How an attempt fares: whether the administration client connects, what it creates before creating
  fails (\<open>None\<close>: it does not fail), whether it disconnects, and whether the producer connects.
\<close>

record link_attempt =
  la_admin :: bool
  la_failsAfter :: "string list option"
  la_disconnect :: bool
  la_producer :: bool

definition unreachable :: err where
  "unreachable = PlainError ''connection refused''"

text \<open>Creating a topic that exists is not an error and leaves it as it is.\<close>

definition createTopics :: "nat \<Rightarrow> string list \<Rightarrow> topics \<Rightarrow> topics" where
  "createTopics replicationFactor names ts =
     ts @ map (\<lambda>t. (t, 3, replicationFactor)) (filter (\<lambda>t. t \<notin> fst ` set ts) names)"

definition ensureTopics :: "nat \<Rightarrow> link_attempt \<Rightarrow> topics \<Rightarrow> (err + unit) \<times> topics" where
  "ensureTopics replicationFactor a ts =
     (if \<not> la_admin a then (Inl unreachable, ts)
      else case (case la_failsAfter a of
          None \<Rightarrow> (Inr (), createTopics replicationFactor (ALL_TOPICS @ [DEAD_LETTER_TOPIC]) ts)
        | Some names \<Rightarrow> (Inl unreachable, createTopics replicationFactor names ts)) of
        (r, ts') \<Rightarrow> (if la_disconnect a then r else Inl unreachable, ts'))"

definition connect_once :: "nat \<Rightarrow> link_attempt \<Rightarrow> topics \<Rightarrow> (err + unit) \<times> topics" where
  "connect_once replicationFactor a ts = (case ensureTopics replicationFactor a ts of
     (Inl x, ts') \<Rightarrow> (Inl x, ts')
   | (Inr _, ts') \<Rightarrow> (if la_producer a then Inr () else Inl unreachable, ts'))"

definition connect_delay :: "nat \<Rightarrow> nat" where
  "connect_delay attempt = min 30000 (1000 * attempt)"

definition connectWithRetry :: "nat \<Rightarrow> (nat \<Rightarrow> link_attempt) \<Rightarrow> topics \<Rightarrow> (nat list \<times> topics) option" where
  "connectWithRetry replicationFactor world ts =
     retrying (\<lambda>k. connect_once replicationFactor (world k)) connect_delay 1 [] ts"

definition reachable :: "link_attempt \<Rightarrow> bool" where
  "reachable a \<longleftrightarrow> la_admin a \<and> la_failsAfter a = None \<and> la_disconnect a \<and> la_producer a"

interpretation publisher_link: attempting "\<lambda>k. connect_once replicationFactor (world k)" "\<lambda>k. reachable (world k)"
  for replicationFactor world
  by unfold_locales
    (auto simp: connect_once_def ensureTopics_def reachable_def split: option.splits prod.splits if_splits)

text \<open>Once started, \<open>connected\<close> is set when the loop ends; a shutdown disconnects.\<close>

definition after_start :: "nat \<Rightarrow> (nat \<Rightarrow> link_attempt) \<Rightarrow> topics \<Rightarrow> bus_state \<Rightarrow> bus_state" where
  "after_start replicationFactor world ts s =
     (if kafkaEnabled s \<and> connectWithRetry replicationFactor world ts \<noteq> None then s\<lparr>connected := True\<rparr> else s)"

section \<open>The worker\<close>

record worker_link =
  wl_producer :: bool
  wl_consumer :: bool
  wl_topics :: "string list"
  wl_running :: bool

record start_attempt =
  sa_producer :: bool
  sa_consumer :: bool
  sa_subscribe :: bool
  sa_run :: bool

definition start_once :: "start_attempt \<Rightarrow> worker_link \<Rightarrow> (err + unit) \<times> worker_link" where
  "start_once a s = (
     if \<not> sa_producer a then (Inl unreachable, s)
     else let s1 = s\<lparr>wl_producer := True\<rparr> in
     if \<not> sa_consumer a then (Inl unreachable, s1)
     else let s2 = s1\<lparr>wl_consumer := True\<rparr> in
     if \<not> sa_subscribe a then (Inl unreachable, s2)
     else let s3 = s2\<lparr>wl_topics := ALL_TOPICS\<rparr> in
     if \<not> sa_run a then (Inl unreachable, s3)
     else (Inr (), s3\<lparr>wl_running := True\<rparr>))"

definition startWithRetry :: "(nat \<Rightarrow> start_attempt) \<Rightarrow> worker_link \<Rightarrow> (nat list \<times> worker_link) option" where
  "startWithRetry world s = retrying (\<lambda>k. start_once (world k)) retry_delay 1 [] s"

definition startable :: "start_attempt \<Rightarrow> bool" where
  "startable a \<longleftrightarrow> sa_producer a \<and> sa_consumer a \<and> sa_subscribe a \<and> sa_run a"

interpretation consumer_link: attempting "\<lambda>k. start_once (world k)" "\<lambda>k. startable (world k)" for world
  by unfold_locales (simp add: start_once_def startable_def Let_def)


section \<open>Health\<close>

definition kafka_status :: "bus_state \<Rightarrow> string" where
  "kafka_status s =
     (if kafkaEnabled s then (if connected s then ''connected'' else ''connecting'') else ''disabled (in-memory)'')"

text \<open>The answer of the model server is an argument: an error, or the names of its models.\<close>

definition ollama_status :: "string \<Rightarrow> err + string list \<Rightarrow> string" where
  "ollama_status provider answer =
     (if provider \<noteq> ''ollama'' then ''not used (fake provider)''
      else case answer of
        Inl _ \<Rightarrow> ''unreachable''
      | Inr models \<Rightarrow> ''up, models: '' @ (if js_join '', '' models = [] then ''none pulled yet'' else js_join '', '' models))"

definition dependencies :: "bus_state \<Rightarrow> string \<Rightarrow> err + string list \<Rightarrow> string \<times> string" where
  "dependencies s provider answer = (kafka_status s, ollama_status provider answer)"

section \<open>What the loops guarantee\<close>

lemma createTopics_keeps: "map_of ts t = Some p \<Longrightarrow> map_of (createTopics r names ts) t = Some p"
  by (simp add: createTopics_def map_of_append)

lemma createTopics_names: "fst ` set (createTopics r names ts) = fst ` set ts \<union> set names"
  by (auto simp: createTopics_def image_Un image_image)

lemma connect_once_keeps: "map_of ts t = Some p \<Longrightarrow> map_of (snd (connect_once r a ts)) t = Some p"
  by (auto simp: connect_once_def ensureTopics_def createTopics_keeps split: option.splits prod.splits sum.splits if_splits)

lemma attempts_keep:
  "map_of ts t = Some p \<Longrightarrow> map_of (attempts (\<lambda>k. connect_once r (world k)) k n ts) t = Some p"
  by (induction n arbitrary: k ts) (simp_all add: connect_once_keeps)

lemma connect_once_creates:
  "reachable a \<Longrightarrow> snd (connect_once r a ts) = createTopics r (ALL_TOPICS @ [DEAD_LETTER_TOPIC]) ts"
  by (simp add: connect_once_def ensureTopics_def reachable_def)

lemma message_topic: "km_topic (kafka_message_of e) \<in> set ALL_TOPICS"
  using all_event_types_complete [of "eventType e"] by (simp add: kafka_message_of_def ALL_TOPICS_def)

lemma first_attempt:
  assumes "P n" "1 \<le> (n :: nat)"
  obtains m where "1 \<le> m" "P m" "\<forall>j \<in> {1..<m}. \<not> P j"
proof -
  let ?m = "LEAST m. 1 \<le> m \<and> P m"
  have "1 \<le> ?m \<and> P ?m" by (rule LeastI [of "\<lambda>m. 1 \<le> m \<and> P m"]) (use assms in simp)
  moreover have "\<forall>j \<in> {1..<?m}. \<not> P j" using not_less_Least by fastforce
  ultimately show thesis using that by blast
qed

text \<open>
  The publisher connects as soon as it can, and not before: its loop ends exactly if some attempt
  reaches the broker, at the first that does; until then it waited one second longer each time,
  never more than thirty; and when it ends every event, and every dead letter, has its topic, while topics
  that were there are as they were.
\<close>
theorem publisher_connects_when_reachable:
  "case connectWithRetry r world ts of
     None \<Rightarrow> \<forall>n \<ge> 1. \<not> reachable (world n)
   | Some (waits, ts') \<Rightarrow>
       (\<exists>n \<ge> 1. reachable (world n) \<and> (\<forall>j \<in> {1..<n}. \<not> reachable (world j)) \<and>
          waits = map (\<lambda>j. min 30000 (1000 * j)) [1..<n]) \<and>
       (\<forall>e. km_topic (kafka_message_of e) \<in> fst ` set ts') \<and> DEAD_LETTER_TOPIC \<in> fst ` set ts' \<and>
       (\<forall>t p. map_of ts t = Some p \<longrightarrow> map_of ts' t = Some p)"
proof (cases "\<exists>n \<ge> 1. reachable (world n)")
  case False
  from publisher_link.retrying_never [OF this, of r connect_delay "[]" ts] False
  show ?thesis by (simp add: connectWithRetry_def)
next
  case True
  then obtain n0 where "reachable (world n0)" "1 \<le> n0" by blast
  then obtain n where n: "1 \<le> n" "reachable (world n)" "\<forall>j \<in> {1..<n}. \<not> reachable (world j)"
    by (rule first_attempt)
  then have first: "reachable (world (1 + (n - 1)))" "\<forall>j < n - 1. \<not> reachable (world (1 + j))" by auto
  define before where "before = attempts (\<lambda>k. connect_once r (world k)) 1 (n - 1) ts"
  have run: "connectWithRetry r world ts =
      Some (map connect_delay [1..<n], createTopics r (ALL_TOPICS @ [DEAD_LETTER_TOPIC]) before)"
    using publisher_link.retrying_first [OF first, of r connect_delay "[]" ts] n(1) connect_once_creates [OF n(2)]
    by (simp add: connectWithRetry_def before_def)
  have kept: "map_of before t = Some p" if "map_of ts t = Some p" for t p
    unfolding before_def by (rule attempts_keep [OF that])
  have "\<exists>n \<ge> 1. reachable (world n) \<and> (\<forall>j \<in> {1..<n}. \<not> reachable (world j)) \<and>
      map connect_delay [1..<n0] = map (\<lambda>j. min 30000 (1000 * j)) [1..<n]" if "n0 = n" for n0
    unfolding that by (rule exI [of _ n], intro conjI n) (simp add: connect_delay_def)
  from this [OF refl] show ?thesis
    unfolding run option.case prod.case createTopics_names
    by (intro conjI allI impI createTopics_keeps kept) (use message_topic in auto)
qed

definition sample_world :: "nat \<Rightarrow> link_attempt" where
  "sample_world k = \<lparr>la_admin = 3 \<le> k, la_failsAfter = None, la_disconnect = True, la_producer = True\<rparr>"

theorem publisher_connects_when_reachable_witness:
  "\<exists>ts'. connectWithRetry 1 sample_world [(''banking.account-events'', 6, 2)] = Some ([1000, 2000], ts') \<and>
     map_of ts' ''banking.account-events'' = Some (6, 2) \<and> DEAD_LETTER_TOPIC \<in> fst ` set ts'"
proof -
  have up: "reachable (sample_world n) \<longleftrightarrow> 3 \<le> n" for n by (simp add: reachable_def sample_world_def)
  let ?ts = "[(''banking.account-events'', 6, 2)] :: topics"
  note spec = publisher_connects_when_reachable [where r = 1 and world = sample_world and ts = ?ts]
  obtain waits ts' where run: "connectWithRetry 1 sample_world ?ts = Some (waits, ts')"
    using spec up [of 3] by (cases "connectWithRetry 1 sample_world ?ts") auto
  with spec obtain n where n: "3 \<le> n" "\<forall>j \<in> {1..<n}. \<not> 3 \<le> j" "waits = map (\<lambda>j. min 30000 (1000 * j)) [1..<n]"
    by (auto simp: up)
  have "n = 3" using n(1,2) by (cases "n = 3") (force dest: bspec [of _ _ 3])+
  then have "waits = [1000, 2000]" by (simp add: n(3) upt_rec)
  with run spec show ?thesis by auto
qed

text \<open>The same for the worker: it ends up subscribed to every topic and running, as soon as it can.\<close>

theorem worker_starts_when_possible:
  "case startWithRetry world s of
     None \<Rightarrow> \<forall>n \<ge> 1. \<not> startable (world n)
   | Some (waits, s') \<Rightarrow>
       (\<exists>n \<ge> 1. startable (world n) \<and> (\<forall>j \<in> {1..<n}. \<not> startable (world j)) \<and> waits = map retry_delay [1..<n]) \<and>
       s' = \<lparr>wl_producer = True, wl_consumer = True, wl_topics = ALL_TOPICS, wl_running = True\<rparr>"
proof (cases "\<exists>n \<ge> 1. startable (world n)")
  case False
  from consumer_link.retrying_never [OF this, of retry_delay "[]" s] False
  show ?thesis by (simp add: startWithRetry_def)
next
  case True
  then obtain n0 where "startable (world n0)" "1 \<le> n0" by blast
  then obtain n where n: "1 \<le> n" "startable (world n)" "\<forall>j \<in> {1..<n}. \<not> startable (world j)"
    by (rule first_attempt)
  then have first: "startable (world (1 + (n - 1)))" "\<forall>j < n - 1. \<not> startable (world (1 + j))" by auto
  have "snd (start_once (world n) t) = \<lparr>wl_producer = True, wl_consumer = True, wl_topics = ALL_TOPICS, wl_running = True\<rparr>" for t
    using n(2) by (simp add: start_once_def startable_def)
  then have run: "startWithRetry world s = Some (map retry_delay [1..<n],
      \<lparr>wl_producer = True, wl_consumer = True, wl_topics = ALL_TOPICS, wl_running = True\<rparr>)"
    using consumer_link.retrying_first [OF first, of retry_delay "[]" s] n(1) by (simp add: startWithRetry_def)
  show ?thesis
    unfolding run option.case prod.case by (rule conjI [OF exI [of _ n]]; intro conjI n refl)
qed

end
