(* ===== verification/Config.thy ===== *)
theory Config
  imports FraudRules DomainErrors
begin

text \<open>
  The configuration: the schema of the environment (\<open>src/src/config/env.validation.ts\<close>) and the typed access
  to it (\<open>src/src/config/app-config.service.ts\<close>).

  The validation itself is the library's: an argument with the laws of the locale \<open>env_validator\<close>. The
  schema is data, and the validated configuration a list of named settings.
\<close>

section \<open>The schema\<close>

datatype setting = SText string | SNum int | SBool bool

text \<open>The kinds of variables the schema declares: \<open>AText\<close> says whether the empty string is allowed.\<close>

datatype env_kind = AText bool | OneOf "string list" | Uri | ABool | Port | IntMin int

type_synonym env_schema = "(string \<times> env_kind \<times> setting) list"
type_synonym env_vars = "(string \<times> string) list"
type_synonym configuration = "(string \<times> setting) list"

fun fits :: "env_kind \<Rightarrow> setting \<Rightarrow> bool" where
  "fits (AText e) (SText s) = (e \<or> s \<noteq> [])"
| "fits (OneOf xs) (SText s) = (s \<in> set xs)"
| "fits Uri (SText s) = (s \<noteq> [])"
| "fits ABool (SBool b) = True"
| "fits Port (SNum n) = (0 \<le> n \<and> n \<le> 65535)"
| "fits (IntMin m) (SNum n) = (m \<le> n)"
| "fits k v = False"

definition envValidationSchema :: env_schema where
  "envValidationSchema =
     [(''NODE_ENV'', OneOf [''development'', ''test'', ''production''], SText ''development''),
      (''APP_MODE'', OneOf [''api'', ''worker''], SText ''api''),
      (''PORT'', Port, SNum 3000),
      (''LOG_FORMAT'', OneOf [''pretty'', ''json''], SText ''pretty''),
      (''DB_HOST'', AText False, SText ''localhost''),
      (''DB_PORT'', Port, SNum 5432),
      (''DB_USER'', AText False, SText ''bank''),
      (''DB_PASSWORD'', AText False, SText ''bank_password''),
      (''DB_NAME'', AText False, SText ''bank''),
      (''DB_RUN_MIGRATIONS'', ABool, SBool True),
      (''DB_SSL'', ABool, SBool False),
      (''KAFKA_ENABLED'', ABool, SBool False),
      (''KAFKA_BROKERS'', AText False, SText ''localhost:29092''),
      (''KAFKA_CLIENT_ID'', AText False, SText ''banking-api''),
      (''KAFKA_CONSUMER_GROUP'', AText False, SText ''banking-notifications''),
      (''KAFKA_REPLICATION_FACTOR'', IntMin 1, SNum 1),
      (''KAFKA_SSL'', ABool, SBool False),
      (''AI_PROVIDER'', OneOf [''ollama'', ''fake''], SText ''fake''),
      (''OLLAMA_BASE_URL'', Uri, SText ''http://localhost:11434''),
      (''OLLAMA_CHAT_MODEL'', AText False, SText ''llama3.2:1b''),
      (''OLLAMA_EMBEDDING_MODEL'', AText False, SText ''nomic-embed-text''),
      (''AI_AUTO_INGEST'', ABool, SBool False),
      (''KNOWLEDGE_DIR'', AText False, SText ''./knowledge''),
      (''INTERNAL_TRANSFER_FEE_MINOR'', IntMin 0, SNum 0),
      (''FRAUD_RULES'', AText True, SText default_rules)]"

section \<open>Validation\<close>

text \<open>
  What the library documents: a validated configuration has every variable of the schema, with a
  value of its kind, or with its default where the environment does not set it; a text out of a list of
  choices is kept as it is; an environment that sets none of the variables is valid.
\<close>

locale env_validator =
  fixes validate :: "env_schema \<Rightarrow> env_vars \<Rightarrow> string + configuration"
  assumes validated: "validate sch env = Inr c \<Longrightarrow> (k, kind, d) \<in> set sch \<Longrightarrow> distinct (map fst sch) \<Longrightarrow>
      (case map_of env k of None \<Rightarrow> map_of c k = Some d | Some _ \<Rightarrow> \<exists>v. map_of c k = Some v \<and> fits kind v)"
    and chosen: "validate sch env = Inr c \<Longrightarrow> (k, OneOf xs, d) \<in> set sch \<Longrightarrow> distinct (map fst sch) \<Longrightarrow>
      map_of env k = Some s \<Longrightarrow> s \<in> set xs \<and> map_of c k = Some (SText s)"
    and defaults: "fst ` set sch \<inter> fst ` set env = {} \<Longrightarrow> \<exists>c. validate sch env = Inr c"
begin

lemma setting_fits:
  assumes "validate sch env = Inr c" "(k, kind, d) \<in> set sch" "distinct (map fst sch)" "fits kind d"
  shows "\<exists>v. map_of c k = Some v \<and> fits kind v"
  using validated [OF assms(1-3)] assms(4) by (cases "map_of env k") auto

end

fun read_setting :: "env_kind \<Rightarrow> string \<Rightarrow> setting option" where
  "read_setting (AText e) s = (if e \<or> s \<noteq> [] then Some (SText s) else None)"
| "read_setting (OneOf xs) s = (if s \<in> set xs then Some (SText s) else None)"
| "read_setting Uri s = (if s \<noteq> [] then Some (SText s) else None)"
| "read_setting ABool s = (if toLowerCase s = ''true'' then Some (SBool True)
     else if toLowerCase s = ''false'' then Some (SBool False) else None)"
| "read_setting Port s = (if s \<noteq> [] \<and> list_all is_digit s \<and> digits_val s \<le> 65535 then Some (SNum (int (digits_val s))) else None)"
| "read_setting (IntMin m) s = (if s \<noteq> [] \<and> list_all is_digit s \<and> m \<le> int (digits_val s) then Some (SNum (int (digits_val s))) else None)"

lemma read_setting_fits: "read_setting k s = Some v \<Longrightarrow> fits k v"
  by (cases "(k, s)" rule: read_setting.cases) (auto split: if_splits)

fun simple_validate :: "env_schema \<Rightarrow> env_vars \<Rightarrow> string + configuration" where
  "simple_validate [] env = Inr []"
| "simple_validate ((k, kind, d) # sch) env =
     (case (case map_of env k of None \<Rightarrow> Some d | Some s \<Rightarrow> read_setting kind s) of
        None \<Rightarrow> Inl (''Config validation error: '' @ k)
      | Some v \<Rightarrow> ebind (simple_validate sch env) (\<lambda>c. Inr ((k, v) # c)))"

lemma simple_validate_ok:
  assumes "simple_validate sch env = Inr c" "(k, kind, d) \<in> set sch" "distinct (map fst sch)"
  shows "case map_of env k of None \<Rightarrow> map_of c k = Some d | Some s \<Rightarrow> \<exists>v. read_setting kind s = Some v \<and> map_of c k = Some v"
  using assms
  by (induction sch env arbitrary: c rule: simple_validate.induct) (force simp: result_simps split: option.splits)+

interpretation simple_env: env_validator simple_validate
proof
  fix sch env c k kind d xs s
  show "simple_validate sch env = Inr c \<Longrightarrow> (k, OneOf xs, d) \<in> set sch \<Longrightarrow> distinct (map fst sch) \<Longrightarrow>
      map_of env k = Some s \<Longrightarrow> s \<in> set xs \<and> map_of c k = Some (SText s)"
    using simple_validate_ok [of sch env c k "OneOf xs" d] by (auto split: if_splits)
  show "simple_validate sch env = Inr c \<Longrightarrow> (k, kind, d) \<in> set sch \<Longrightarrow> distinct (map fst sch) \<Longrightarrow>
      (case map_of env k of None \<Rightarrow> map_of c k = Some d | Some _ \<Rightarrow> \<exists>v. map_of c k = Some v \<and> fits kind v)"
    using simple_validate_ok [of sch env c k kind d] read_setting_fits by (auto split: option.splits)
  show "fst ` set sch \<inter> fst ` set env = {} \<Longrightarrow> \<exists>c. simple_validate sch env = Inr c"
  proof (induction sch)
    case (Cons x sch)
    obtain k kind d where x: "x = (k, kind, d)" by (cases x)
    from Cons obtain c where "simple_validate sch env = Inr c" by auto
    moreover have "map_of env k = None" using Cons.prems by (auto simp: x map_of_eq_None_iff)
    ultimately show ?case by (simp add: x)
  qed simp
qed

section \<open>The configuration service\<close>

definition getOrThrow :: "configuration \<Rightarrow> string \<Rightarrow> err + setting" where
  "getOrThrow c k = (case map_of c k of
     None \<Rightarrow> Inl (PlainError (''Configuration key '' @ [CHR 0x22] @ k @ [CHR 0x22] @ '' does not exist''))
   | Some v \<Rightarrow> Inr v)"

fun setting_text :: "setting \<Rightarrow> string" where
  "setting_text (SText s) = s"
| "setting_text (SNum n) = show_int n"
| "setting_text (SBool b) = (if b then ''true'' else ''false'')"

fun setting_number :: "setting \<Rightarrow> jsnum" where
  "setting_number (SText s) = js_number s"
| "setting_number (SNum n) = Finite (of_int n)"
| "setting_number (SBool b) = Finite (if b then 1 else 0)"

definition get_text :: "configuration \<Rightarrow> string \<Rightarrow> err + string" where
  "get_text c k = ebind (getOrThrow c k) (\<lambda>v. Inr (setting_text v))"

definition get_number :: "configuration \<Rightarrow> string \<Rightarrow> err + jsnum" where
  "get_number c k = ebind (getOrThrow c k) (\<lambda>v. Inr (setting_number v))"

definition get_bool :: "configuration \<Rightarrow> string \<Rightarrow> bool" where
  "get_bool c k = (map_of c k = Some (SBool True) \<or> map_of c k = Some (SText ''true''))"

record database_config =
  dc_host :: string
  dc_port :: jsnum
  dc_username :: string
  dc_password :: string
  dc_database :: string
  dc_runMigrations :: bool
  dc_ssl :: bool

record kafka_config =
  kc_enabled :: bool
  kc_brokers :: "string list"
  kc_clientId :: string
  kc_consumerGroup :: string
  kc_ssl :: bool
  kc_replicationFactor :: jsnum

record ai_config =
  ac_provider :: string
  ac_baseUrl :: string
  ac_chatModel :: string
  ac_embeddingModel :: string
  ac_autoIngest :: bool
  ac_knowledgeDir :: string

definition config_nodeEnv :: "configuration \<Rightarrow> err + string" where
  "config_nodeEnv c = get_text c ''NODE_ENV''"

definition config_appMode :: "configuration \<Rightarrow> err + string" where
  "config_appMode c = get_text c ''APP_MODE''"

definition config_port :: "configuration \<Rightarrow> err + jsnum" where
  "config_port c = get_number c ''PORT''"

definition config_logFormat :: "configuration \<Rightarrow> err + string" where
  "config_logFormat c = get_text c ''LOG_FORMAT''"

definition config_database :: "configuration \<Rightarrow> err + database_config" where
  "config_database c =
     ebind (get_text c ''DB_HOST'') (\<lambda>host.
     ebind (get_number c ''DB_PORT'') (\<lambda>port.
     ebind (get_text c ''DB_USER'') (\<lambda>username.
     ebind (get_text c ''DB_PASSWORD'') (\<lambda>password.
     ebind (get_text c ''DB_NAME'') (\<lambda>database.
     Inr \<lparr>dc_host = host, dc_port = port, dc_username = username, dc_password = password, dc_database = database,
          dc_runMigrations = get_bool c ''DB_RUN_MIGRATIONS'', dc_ssl = get_bool c ''DB_SSL''\<rparr>)))))"

definition config_kafka :: "configuration \<Rightarrow> err + kafka_config" where
  "config_kafka c =
     ebind (get_text c ''KAFKA_BROKERS'') (\<lambda>brokers.
     ebind (get_text c ''KAFKA_CLIENT_ID'') (\<lambda>clientId.
     ebind (get_text c ''KAFKA_CONSUMER_GROUP'') (\<lambda>consumerGroup.
     ebind (get_number c ''KAFKA_REPLICATION_FACTOR'') (\<lambda>replicationFactor.
     Inr \<lparr>kc_enabled = get_bool c ''KAFKA_ENABLED'', kc_brokers = map js_trim (js_split CHR '','' brokers),
          kc_clientId = clientId, kc_consumerGroup = consumerGroup, kc_ssl = get_bool c ''KAFKA_SSL'',
          kc_replicationFactor = replicationFactor\<rparr>))))"

definition config_ai :: "configuration \<Rightarrow> err + ai_config" where
  "config_ai c =
     ebind (get_text c ''AI_PROVIDER'') (\<lambda>provider.
     ebind (get_text c ''OLLAMA_BASE_URL'') (\<lambda>baseUrl.
     ebind (get_text c ''OLLAMA_CHAT_MODEL'') (\<lambda>chatModel.
     ebind (get_text c ''OLLAMA_EMBEDDING_MODEL'') (\<lambda>embeddingModel.
     ebind (get_text c ''KNOWLEDGE_DIR'') (\<lambda>knowledgeDir.
     Inr \<lparr>ac_provider = provider, ac_baseUrl = baseUrl, ac_chatModel = chatModel, ac_embeddingModel = embeddingModel,
          ac_autoIngest = get_bool c ''AI_AUTO_INGEST'', ac_knowledgeDir = knowledgeDir\<rparr>)))))"

definition internalTransferFeeMinor :: "configuration \<Rightarrow> err + jsnum" where
  "internalTransferFeeMinor c = get_number c ''INTERNAL_TRANSFER_FEE_MINOR''"

definition config_fraudRules :: "configuration \<Rightarrow> string list" where
  "config_fraudRules c = fraudRules (map_option setting_text (map_of c ''FRAUD_RULES''))"

section \<open>Nothing is missing after validation\<close>

lemma getOrThrow_ok [result_simps]: "getOrThrow c k = Inr v \<longleftrightarrow> map_of c k = Some v"
  by (simp add: getOrThrow_def split: option.splits)

lemma schema_facts:
  "distinct (map fst envValidationSchema)" "\<forall>(k, kind, d) \<in> set envValidationSchema. fits kind d"
  by (simp_all add: envValidationSchema_def default_rules_def mobile_rule_def night_rule_def)

definition sound_config :: "configuration \<Rightarrow> bool" where
  "sound_config c \<longleftrightarrow> (\<forall>(k, kind, d) \<in> set envValidationSchema. \<exists>v. map_of c k = Some v \<and> fits kind v)"

lemma validated_sound:
  assumes "env_validator validate" "validate envValidationSchema env = Inr c"
  shows "sound_config c"
  using env_validator.setting_fits [OF assms] schema_facts by (fastforce simp: sound_config_def)

lemma sound_setting:
  assumes "sound_config c" "(k, kind, d) \<in> set envValidationSchema"
  obtains v where "map_of c k = Some v" "fits kind v"
  using assms by (auto simp: sound_config_def)

lemma sound_text:
  assumes "sound_config c" "(k, OneOf xs, d) \<in> set envValidationSchema"
  shows "\<exists>s. get_text c k = Inr s \<and> s \<in> set xs"
  by (rule sound_setting [OF assms]) (auto simp: get_text_def getOrThrow_def elim!: fits.elims)

lemma sound_number:
  assumes "sound_config c" "(k, kind, d) \<in> set envValidationSchema" "kind = Port \<or> kind = IntMin m"
  shows "\<exists>n. get_number c k = Inr (Finite (of_int n)) \<and> fits kind (SNum n)"
  by (rule sound_setting [OF assms(1,2)]) (use assms(3) in \<open>auto simp: get_number_def getOrThrow_def elim!: fits.elims\<close>)

lemma sound_some_text:
  assumes "sound_config c" "(k, kind, d) \<in> set envValidationSchema"
  shows "\<exists>s. get_text c k = Inr s"
  by (rule sound_setting [OF assms]) (simp add: get_text_def getOrThrow_def)

lemma schema_entry: "x \<in> set envValidationSchema \<longleftrightarrow> list_ex (\<lambda>y. y = x) envValidationSchema"
  by (auto simp: list_ex_iff)

text \<open>
  An application that starts is completely configured: after the validation of the environment no
  access of the configuration service throws, and what it reads is in range: the mode is one of the two, ports
  are ports, there is a broker to connect to, topics are replicated at least once, and the transfer
  fee is a whole number and not negative.
\<close>
theorem configuration_complete:
  assumes "env_validator validate" "validate envValidationSchema env = Inr c"
  shows "(\<exists>mode. config_appMode c = Inr mode \<and> mode \<in> {''api'', ''worker''}) \<and>
    is_ok (config_nodeEnv c) \<and> is_ok (config_logFormat c) \<and>
    (\<exists>n. config_port c = Inr (Finite (of_int n)) \<and> 0 \<le> n \<and> n \<le> 65535) \<and>
    is_ok (config_database c) \<and>
    (\<exists>k r. config_kafka c = Inr k \<and> kc_brokers k \<noteq> [] \<and> kc_replicationFactor k = Finite (of_int r) \<and> 1 \<le> r) \<and>
    (\<exists>a. config_ai c = Inr a \<and> ac_provider a \<in> {''ollama'', ''fake''}) \<and>
    (\<exists>fee. internalTransferFeeMinor c = Inr (Finite (of_int fee)) \<and> 0 \<le> fee)"
proof -
  have sound: "sound_config c" by (rule validated_sound [OF assms])
  note schema = envValidationSchema_def
  have "\<forall>k \<in> fst ` set envValidationSchema. \<exists>s. get_text c k = Inr s"
    using sound_some_text [OF sound] by fastforce
  from bchoice [OF this] obtain t where t: "\<forall>k \<in> fst ` set envValidationSchema. get_text c k = Inr (t k)" ..
  have texts: "get_text c k = Inr (t k)" if "list_ex (\<lambda>x. k = fst x) envValidationSchema" for k
    using that t by (auto simp: list_ex_iff)
  have "\<exists>mode. get_text c ''APP_MODE'' = Inr mode \<and> mode \<in> set [''api'', ''worker'']"
    "\<exists>p. get_text c ''AI_PROVIDER'' = Inr p \<and> p \<in> set [''ollama'', ''fake'']"
    by (rule sound_text [OF sound]; simp add: schema)+
  moreover have "\<exists>n. get_number c ''PORT'' = Inr (Finite (of_int n)) \<and> fits Port (SNum n)"
    "\<exists>n. get_number c ''DB_PORT'' = Inr (Finite (of_int n)) \<and> fits Port (SNum n)"
    "\<exists>n. get_number c ''KAFKA_REPLICATION_FACTOR'' = Inr (Finite (of_int n)) \<and> fits (IntMin 1) (SNum n)"
    "\<exists>n. get_number c ''INTERNAL_TRANSFER_FEE_MINOR'' = Inr (Finite (of_int n)) \<and> fits (IntMin 0) (SNum n)"
    by (rule sound_number [OF sound]; simp add: schema)+
  moreover have "is_ok (config_nodeEnv c)" "is_ok (config_logFormat c)"
    by (simp_all add: config_nodeEnv_def config_logFormat_def texts schema)
  moreover have "\<And>n. get_number c ''DB_PORT'' = Inr n \<Longrightarrow> is_ok (config_database c)"
    by (simp add: config_database_def texts schema)
  moreover have "\<And>r. get_number c ''KAFKA_REPLICATION_FACTOR'' = Inr r \<Longrightarrow>
      \<exists>k. config_kafka c = Inr k \<and> kc_brokers k \<noteq> [] \<and> kc_replicationFactor k = r"
    by (simp add: config_kafka_def texts schema)
  moreover have "\<And>p. get_text c ''AI_PROVIDER'' = Inr p \<Longrightarrow> \<exists>a. config_ai c = Inr a \<and> ac_provider a = p"
    by (simp add: config_ai_def texts schema)
  ultimately show ?thesis
    unfolding config_appMode_def config_port_def internalTransferFeeMinor_def
    by (intro conjI; (assumption | force))
qed


definition sample_vars :: env_vars where
  "sample_vars = [(''INTERNAL_TRANSFER_FEE_MINOR'', ''2500''), (''KAFKA_ENABLED'', ''TRUE''), (''PATH'', ''/bin'')]"

lemma sample_vars_valid: "\<exists>c. simple_validate envValidationSchema sample_vars = Inr c"
proof -
  have "is_digit CHR ''2''" "is_digit CHR ''5''" "is_digit CHR ''0''" "toLowerCase ''TRUE'' = ''true''"
    by code_simp+
  then show ?thesis by (simp add: envValidationSchema_def sample_vars_def)
qed

theorem configuration_complete_witness:
  "\<exists>c fee. simple_validate envValidationSchema sample_vars = Inr c \<and> internalTransferFeeMinor c = Inr (Finite (of_int fee)) \<and> 0 \<le> fee"
proof -
  obtain c where c: "simple_validate envValidationSchema sample_vars = Inr c" using sample_vars_valid ..
  from configuration_complete [OF simple_env.env_validator_axioms c] c show ?thesis by blast
qed

end
