(* ===== verification/Patterns.thy ===== *)
theory Patterns
  imports Main
begin

text \<open>
  The pattern catalogue (\<open>src/src/modules/patterns/patterns.catalog.ts\<close>) and what its endpoint answers
  (\<open>src/src/modules/patterns/patterns.controller.ts\<close>).
\<close>

datatype pattern_category = Creational | Structural | Behavioral

record pattern_entry =
  pe_pattern :: string
  pe_category :: pattern_category
  pe_inOneLine :: string
  pe_file :: string
  pe_tryIt :: string

abbreviation catalogued :: "string \<Rightarrow> pattern_category \<Rightarrow> string \<Rightarrow> string \<Rightarrow> string \<Rightarrow> pattern_entry" where
  "catalogued p c l f t \<equiv> \<lparr>pe_pattern = p, pe_category = c, pe_inOneLine = l, pe_file = f, pe_tryIt = t\<rparr>"

definition PATTERN_CATALOG :: "pattern_entry list" where
  "PATTERN_CATALOG =
     [catalogued ''Singleton'' Creational
        ''Exactly one shared reference-number generator''
        ''src/modules/core/reference-number.singleton.ts''
        ''POST /api/transactions/deposit (see the reference)'',
      catalogued ''Factory Method'' Creational
        ''Subclasses decide how Savings/Current/FD accounts are created''
        ''src/modules/accounts/domain/account.factory.ts''
        ''POST /api/accounts'',
      catalogued ''Abstract Factory'' Creational
        ''Matching validator + fee + formatter families for RAAST and SWIFT''
        ''src/modules/payments/payment-rail.abstract-factory.ts''
        ''POST /api/payments/quote'',
      catalogued ''Builder'' Creational
        ''Step-by-step, validated loan application''
        ''src/modules/loans/domain/loan-application.builder.ts''
        ''POST /api/loans/drafts/:id/submit'',
      catalogued ''Prototype'' Creational
        ''Account products cloned from base prototypes''
        ''src/modules/accounts/domain/account-product.prototype.ts''
        ''GET /api/accounts/products'',
      catalogued ''Adapter'' Structural
        ''Kafka client and legacy credit bureau behind our own interfaces''
        ''src/modules/messaging/kafka-event-publisher.adapter.ts''
        ''GET /api/loans/credit-report/Ali%20Raza'',
      catalogued ''Bridge'' Structural
        ''Statement types x output formats without class explosion''
        ''src/modules/statements/statement.bridge.ts''
        ''GET /api/statements/:accountId?type=detailed&format=csv'',
      catalogued ''Composite'' Structural
        ''Portfolio tree of groups and accounts with rolled-up totals''
        ''src/modules/accounts/domain/portfolio.composite.ts''
        ''GET /api/accounts/portfolio/:ownerName'',
      catalogued ''Decorator'' Structural
        ''Audit, fraud screening and fees layered around transfers''
        ''src/modules/transactions/transfer/money-transfer.decorators.ts''
        (''POST /api/transactions/transfer (see '' @ [CHR 0x22] @ ''pipeline'' @ [CHR 0x22] @ '')''),
      catalogued ''Facade'' Structural
        ''One call to onboard a customer across many subsystems''
        ''src/modules/banking/banking.facade.ts''
        ''POST /api/banking/onboard'',
      catalogued ''Flyweight'' Structural
        ''Shared immutable Currency objects''
        ''src/modules/core/currency.flyweight.ts''
        ''GET /api/accounts/currencies'',
      catalogued ''Proxy'' Structural
        ''Caching, rate-limiting proxy in front of a slow FX provider''
        ''src/modules/fx/exchange-rate.proxy.ts''
        ''GET /api/fx/convert?from=USD&to=PKR&amountMinor=10000 (twice)'',
      catalogued ''Chain of Responsibility'' Behavioral
        ''Amount, status, funds and daily-limit checks as linked handlers''
        ''src/modules/transactions/validation/transaction-validation.chain.ts''
        ''POST /api/transactions/withdraw with too much money'',
      catalogued ''Command'' Behavioral
        ''Deposits/withdrawals/transfers as objects with undo''
        ''src/modules/transactions/commands/bank.commands.ts''
        ''POST /api/transactions/commands/:commandId/undo'',
      catalogued ''Interpreter'' Behavioral
        ''A small fraud-rule language parsed and evaluated at runtime''
        ''src/modules/fraud/fraud-rule.interpreter.ts''
        ''POST /api/fraud/evaluate'',
      catalogued ''Iterator'' Behavioral
        ''Page through millions of ledger entries one at a time''
        ''src/modules/transactions/ledger-history.iterator.ts''
        ''GET /api/transactions/accounts/:accountId/export.csv'',
      catalogued ''Mediator'' Behavioral
        ''Loan desks coordinate only through an approval mediator''
        ''src/modules/loans/domain/loan-approval.mediator.ts''
        ''POST /api/loans/drafts/:id/submit (see decisionLog)'',
      catalogued ''Memento'' Behavioral
        ''Undo changes to a loan draft via snapshots''
        ''src/modules/loans/domain/loan-draft.memento.ts''
        ''POST /api/loans/drafts/:id/undo'',
      catalogued ''Observer'' Behavioral
        ''Event bus notifies audit, metrics and Kafka observers''
        ''src/modules/messaging/domain-event-bus.observer.ts''
        ''GET /api/events/stats'',
      catalogued ''State'' Behavioral
        ''Pending/Active/Frozen/Closed decide what an account may do''
        ''src/modules/accounts/domain/account-state.ts''
        ''PATCH /api/accounts/:id/status'',
      catalogued ''Strategy'' Behavioral
        ''Swappable interest algorithms per account type''
        ''src/modules/accounts/domain/interest.strategy.ts''
        ''GET /api/accounts/:id/interest-preview'',
      catalogued ''Template Method'' Behavioral
        ''Batch jobs share one skeleton, differ in steps''
        ''src/modules/operations/end-of-day.template-method.ts''
        ''POST /api/operations/jobs/interest-posting/run'',
      catalogued ''Visitor'' Behavioral
        ''Fee, tax and risk reports over accounts without changing them''
        ''src/modules/accounts/domain/account.visitor.ts''
        ''GET /api/accounts/reports/month-end'']"

definition patterns_list :: "nat \<times> pattern_entry list" where
  "patterns_list = (length PATTERN_CATALOG, PATTERN_CATALOG)"

text \<open>The catalogue names every pattern once, in the three groups of the book: 5, 7 and 11.\<close>

lemma catalogue_complete:
  "distinct (map pe_pattern PATTERN_CATALOG)"
  "map (\<lambda>c. length (filter (\<lambda>p. pe_category p = c) PATTERN_CATALOG)) [Creational, Structural, Behavioral] = [5, 7, 11]"
  by (simp_all add: PATTERN_CATALOG_def)

end
