(* ===== verification/Api.thy ===== *)
theory Api
  imports Requests Exports Operations Fx Broker Config Patterns
begin

text \<open>
  The application behind its endpoints: the controllers of \<open>src/src/modules/*/*.controller.ts\<close> as functions
  from a request to an answer and the next state, over one state that the services share.

  \<open>app\<close> is that state: the accounts service with the ledger in it, the log of the transfer pipeline, the
  command history, the loan drafts, the rate proxy, the knowledge base, and the table of notifications, which
  the worker fills and the endpoints only read. Each request comes with its circumstances \<open>call_env\<close>: clocks,
  random numbers and the models behind the assistant. A controller is
  one function per module; \<open>api\<close> dispatches to them and turns errors into responses with the exception
  filter. Every request runs to its end before the next one starts.
\<close>

section \<open>State and circumstances\<close>

record 'db app =
  ap_accounts :: "'db accounts_state"
  ap_transferLog :: "audit_line list"
  ap_commands :: "'db bank_state history"
  ap_drafts :: caretaker
  ap_fx :: "nat fx_proxy"
  ap_knowledge :: knowledge
  ap_notifications :: "notification list"

record 'db app_deps =
  dp_accounts :: "'db accounts_deps"
  dp_loans :: "'db loan_repository"
  dp_bureau :: "string \<Rightarrow> credit_report"
  dp_pow :: math_pow
  dp_transferFee :: int
  dp_rules :: "(string \<times> expression) list"
  dp_uuid :: "string \<Rightarrow> bool"
  dp_config :: configuration
  dp_message :: "request_class \<Rightarrow> request_body \<Rightarrow> string"

record call_env =
  ca_env :: "nat \<Rightarrow> env"
  ca_uuid :: string
  ca_random :: "nat list \<times> nat"
  ca_clock :: fx_clock
  ca_fuel :: nat
  ca_rag :: rag_deps
  ca_ingestion :: ingestion_deps
  ca_directory :: "(string \<times> string) list"
  ca_uptime :: rat
  ca_models :: "err + string list"

abbreviation ap_ledger :: "'db app \<Rightarrow> 'db ledger_state" where
  "ap_ledger s \<equiv> as_ledger (ap_accounts s)"

abbreviation ap_db :: "'db app \<Rightarrow> 'db" where
  "ap_db s \<equiv> ls_db (ap_ledger s)"

abbreviation dp_manager :: "'db app_deps \<Rightarrow> 'db entity_manager" where
  "dp_manager D \<equiv> ad_manager (dp_accounts D)"

definition bank_of :: "'db app \<Rightarrow> 'db bank_state" where
  "bank_of s = \<lparr>bs_ledger = ap_ledger s, bs_transferLog = ap_transferLog s\<rparr>"

definition set_ledger :: "'db ledger_state \<Rightarrow> 'db app \<Rightarrow> 'db app" where
  "set_ledger l s = s\<lparr>ap_accounts := (ap_accounts s)\<lparr>as_ledger := l\<rparr>\<rparr>"

definition transfers_of :: "'db app_deps \<Rightarrow> 'db transfer_service" where
  "transfers_of D = money_transfer (dp_manager D) (dp_transferFee D) (dp_rules D)"

definition loans_deps_of :: "'db app_deps \<Rightarrow> 'db loans_deps" where
  "loans_deps_of D = \<lparr>lp_manager = dp_manager D, lp_repository = dp_loans D, lp_bureau = dp_bureau D, lp_pow = dp_pow D\<rparr>"

section \<open>Requests and answers\<close>

datatype accounts_request =
    GetProducts
  | GetCurrencies
  | GetMonthEnd
  | GetPortfolio string
  | OpenAccount request_body
  | ListAccounts "string option"
  | GetAccount string
  | PatchStatus string request_body
  | GetInterest string

datatype banking_request = PostOnboard request_body | GetOverview string

datatype transactions_request =
    PostDeposit request_body
  | PostWithdraw request_body
  | PostTransfer request_body
  | GetCommands
  | PostUndo string
  | PostReverse string
  | GetRecent string nat
  | GetExport string

datatype loans_request =
    PostDraft request_body
  | GetDraft string
  | PatchDraft string request_body
  | UndoDraft string
  | SubmitDraft string
  | GetCreditReport string
  | GetLoan string

datatype ai_request =
    AiStatus
  | AiIngest
  | AiRetrieve request_body
  | AiAsk request_body
  | AiStream "string option"

datatype api_request =
    Accounts accounts_request
  | Banking banking_request
  | Transactions transactions_request
  | Loans loans_request
  | Ai ai_request
  | RunJob string
  | GetStatement string "string option" "string option"
  | PostQuote request_body
  | GetConversion string string int
  | GetRules
  | PostEvaluate request_body
  | GetNotifications
  | GetEventStats
  | GetLive
  | GetDependencies
  | GetPatterns

datatype answer =
    ProductsAnswer "product_view option list"
  | CurrenciesAnswer "string list" nat
  | MonthEndAnswer month_end_report
  | PortfolioAnswer portfolio_json "string list"
  | AccountAnswer presented_account
  | AccountsAnswer "presented_account list"
  | InterestAnswer interest_preview
  | OnboardAnswer onboard_result
  | OverviewAnswer overview
  | CommandAnswer string command_result
  | UndoAnswer string string nat
  | CommandsAnswer "command_record list"
  | ReverseAnswer string nat
  | EntriesAnswer "ledger_entry list"
  | TextAnswer string string
  | DraftAnswer draft_view
  | DecisionAnswer loan int
  | LoanAnswer loan
  | ReportAnswer credit_report
  | JobAnswer job_report
  | QuoteAnswer payment_quote
  | ConversionAnswer conversion
  | RulesAnswer "string list"
  | EvaluationAnswer string string bool
  | NotificationsAnswer "notification list"
  | StatsAnswer event_stats
  | LiveAnswer string int
  | DependenciesAnswer string string
  | PatternsAnswer nat "pattern_entry list"
  | KnowledgeAnswer nat "string list"
  | IngestAnswer ingestion_result
  | ChunksAnswer "scored_chunk list"
  | AskAnswer rag_answer
  | Unanswered

section \<open>Calling a service\<close>

text \<open>Each lifts an operation on its part of the state.\<close>

definition on_accounts ::
  "('db accounts_state \<Rightarrow> (err + 'a) \<times> 'db accounts_state) \<Rightarrow> ('a \<Rightarrow> answer) \<Rightarrow> 'db app \<Rightarrow> (err + answer) \<times> 'db app" where
  "on_accounts f g s = (case f (ap_accounts s) of (r, a) \<Rightarrow> (ebind r (\<lambda>x. Inr (g x)), s\<lparr>ap_accounts := a\<rparr>))"

definition on_ledger ::
  "('db ledger_state \<Rightarrow> (err + 'a) \<times> 'db ledger_state) \<Rightarrow> ('a \<Rightarrow> answer) \<Rightarrow> 'db app \<Rightarrow> (err + answer) \<times> 'db app" where
  "on_ledger f g s = (case f (ap_ledger s) of (r, l) \<Rightarrow> (ebind r (\<lambda>x. Inr (g x)), set_ledger l s))"

definition on_commands ::
  "('db bank_state history \<times> 'db bank_state \<Rightarrow> (err + 'a) \<times> 'db bank_state history \<times> 'db bank_state) \<Rightarrow> ('a \<Rightarrow> answer) \<Rightarrow>
     'db app \<Rightarrow> (err + answer) \<times> 'db app" where
  "on_commands f g s = (case f (ap_commands s, bank_of s) of
     (r, h, w) \<Rightarrow> (ebind r (\<lambda>x. Inr (g x)), (set_ledger (bs_ledger w) s)\<lparr>ap_transferLog := bs_transferLog w, ap_commands := h\<rparr>))"

definition on_drafts ::
  "(caretaker \<Rightarrow> (err + draft_view) \<times> caretaker) \<Rightarrow> 'db app \<Rightarrow> (err + answer) \<times> 'db app" where
  "on_drafts f s = (case f (ap_drafts s) of (r, c) \<Rightarrow> (ebind r (\<lambda>x. Inr (DraftAnswer x)), s\<lparr>ap_drafts := c\<rparr>))"

definition with_body ::
  "'db app_deps \<Rightarrow> request_class \<Rightarrow> request_body \<Rightarrow> (request_body \<Rightarrow> 'db app \<Rightarrow> (err + answer) \<times> 'db app) \<Rightarrow>
     'db app \<Rightarrow> (err + answer) \<times> 'db app" where
  "with_body D cls body k s = (case validation_pipe (dp_uuid D) (dp_message D) cls body of Inl x \<Rightarrow> (Inl x, s) | Inr b \<Rightarrow> k b s)"

definition with_uuid ::
  "'db app_deps \<Rightarrow> string \<Rightarrow> (string \<Rightarrow> 'db app \<Rightarrow> (err + answer) \<times> 'db app) \<Rightarrow> 'db app \<Rightarrow> (err + answer) \<times> 'db app" where
  "with_uuid D i k s = (case parse_uuid (dp_uuid D) i of Inl x \<Rightarrow> (Inl x, s) | Inr u \<Rightarrow> k u s)"

text \<open>A handler that only reads.\<close>

definition reading :: "('db app \<Rightarrow> err + answer) \<Rightarrow> 'db app \<Rightarrow> (err + answer) \<times> 'db app" where
  "reading f s = (f s, s)"

section \<open>The controllers\<close>

definition then_present ::
  "'db accounts_deps \<Rightarrow> (err + account) \<times> 'db accounts_state \<Rightarrow> (err + presented_account) \<times> 'db accounts_state" where
  "then_present d rs = (case rs of (Inl x, s) \<Rightarrow> (Inl x, s) | (Inr a, s) \<Rightarrow> present d a s)"

fun present_all ::
  "'db accounts_deps \<Rightarrow> account list \<Rightarrow> 'db accounts_state \<Rightarrow> (err + presented_account list) \<times> 'db accounts_state" where
  "present_all d [] s = (Inr [], s)"
| "present_all d (a # as) s = (case present d a s of
     (Inl x, s1) \<Rightarrow> (Inl x, s1)
   | (Inr p, s1) \<Rightarrow> (case present_all d as s1 of (r, s2) \<Rightarrow> (ebind r (\<lambda>ps. Inr (p # ps)), s2)))"

definition product_views :: "'db accounts_deps \<Rightarrow> 'db accounts_state \<Rightarrow> (err + product_view option list) \<times> 'db accounts_state" where
  "product_views d s = (case products d s of (ps, s') \<Rightarrow> (Inr (map (view (as_heap s')) ps), s'))"

definition change_and_present ::
  "'db accounts_deps \<Rightarrow> env \<Rightarrow> string \<Rightarrow> account_action \<Rightarrow> 'db accounts_state \<Rightarrow> (err + presented_account) \<times> 'db accounts_state" where
  "change_and_present d e i action s = (case changeStatus (ad_manager d) e i action (as_ledger s) of
     (r, l) \<Rightarrow> then_present d (r, s\<lparr>as_ledger := l\<rparr>))"

fun accounts_controller :: "'db app_deps \<Rightarrow> call_env \<Rightarrow> accounts_request \<Rightarrow> 'db app \<Rightarrow> (err + answer) \<times> 'db app" where
  "accounts_controller D c GetProducts = on_accounts (product_views (dp_accounts D)) ProductsAnswer"
| "accounts_controller D c GetCurrencies =
     reading (\<lambda>s. case currencyStats (as_pool (ap_accounts s)) of (codes, n) \<Rightarrow> Inr (CurrenciesAnswer codes n))"
| "accounts_controller D c GetMonthEnd =
     reading (\<lambda>s. Inr (MonthEndAnswer (monthEndReport (ad_repository (dp_accounts D)) (ap_db s))))"
| "accounts_controller D c (GetPortfolio owner) =
     on_accounts (portfolio (dp_accounts D) owner) (\<lambda>(p, totals). PortfolioAnswer p totals)"
| "accounts_controller D c (OpenAccount body) = with_body D OpenAccountDto body (\<lambda>b.
     on_accounts (\<lambda>s. then_present (dp_accounts D) (open_account (dp_accounts D) (ca_env c 0) (ca_random c) (open_dto_of b) s))
       AccountAnswer)"
| "accounts_controller D c (ListAccounts owner) =
     on_accounts (\<lambda>s. present_all (dp_accounts D) (list_accounts (ad_repository (dp_accounts D)) (as_db s) owner) s) AccountsAnswer"
| "accounts_controller D c (GetAccount i) = with_uuid D i (\<lambda>i.
     on_accounts (\<lambda>s. then_present (dp_accounts D) (findById (dp_manager D) (as_db s) i, s)) AccountAnswer)"
| "accounts_controller D c (PatchStatus i body) = with_uuid D i (\<lambda>i. with_body D ChangeStatusDto body (\<lambda>b.
     on_accounts (change_and_present (dp_accounts D) (ca_env c 0) i (action_of_text (text_of b ''action''))) AccountAnswer))"
| "accounts_controller D c (GetInterest i) = with_uuid D i (\<lambda>i.
     on_accounts (interestPreview (dp_accounts D) i) InterestAnswer)"

fun banking_controller :: "'db app_deps \<Rightarrow> call_env \<Rightarrow> banking_request \<Rightarrow> 'db app \<Rightarrow> (err + answer) \<times> 'db app" where
  "banking_controller D c (PostOnboard body) = with_body D OpenAccountDto body (\<lambda>b.
     on_accounts (onboardCustomer (dp_accounts D) (ca_env c) (ca_random c) (onboard_input_of b)) OnboardAnswer)"
| "banking_controller D c (GetOverview owner) = on_accounts (customerOverview (dp_accounts D) owner) OverviewAnswer"

definition run_command :: "call_env \<Rightarrow> 'db bank_state bank_command \<Rightarrow> 'db app \<Rightarrow> (err + answer) \<times> 'db app" where
  "run_command c cmd = on_commands (run cmd (ca_uuid c) (ca_env c 0)) (\<lambda>(i, result). CommandAnswer i result)"

abbreviation rows_of :: "'db app_deps \<Rightarrow> string \<Rightarrow> 'db app \<Rightarrow> ledger_entry list" where
  "rows_of D i s \<equiv> em_findEntries (dp_manager D) (ap_db s) (\<lambda>r. entry_accountId r = i)"

fun transactions_controller ::
  "'db app_deps \<Rightarrow> call_env \<Rightarrow> transactions_request \<Rightarrow> 'db app \<Rightarrow> (err + answer) \<times> 'db app" where
  "transactions_controller D c (PostDeposit body) = with_body D MoneyMovementDto body (\<lambda>b.
     run_command c (deposit_command_of (dp_manager D) b))"
| "transactions_controller D c (PostWithdraw body) = with_body D MoneyMovementDto body (\<lambda>b.
     run_command c (withdraw_command_of (dp_manager D) b))"
| "transactions_controller D c (PostTransfer body) = with_body D TransferDto body (\<lambda>b.
     run_command c (transfer_command_of (transfers_of D) (dp_manager D) b))"
| "transactions_controller D c GetCommands = reading (\<lambda>s. Inr (CommandsAnswer (list_commands (ap_commands s))))"
| "transactions_controller D c (PostUndo i) = with_uuid D i (\<lambda>i.
     on_commands (undo i (ca_env c 0)) (\<lambda>(i, ref, n). UndoAnswer i ref n))"
| "transactions_controller D c (PostReverse ref) =
     on_ledger (reverse (dp_manager D) (ca_env c 0) ref) (\<lambda>(rr, n). ReverseAnswer rr n)"
| "transactions_controller D c (GetRecent i limit) = with_uuid D i (\<lambda>i.
     reading (\<lambda>s. Inr (EntriesAnswer (recent (rows_of D i s) i limit))))"
| "transactions_controller D c (GetExport i) = with_uuid D i (\<lambda>i.
     reading (\<lambda>s. case exportCsv (rows_of D i s) i (ca_fuel c) of
       None \<Rightarrow> Inr Unanswered | Some (name, body) \<Rightarrow> Inr (TextAnswer name body)))"

definition submit_draft :: "'db app_deps \<Rightarrow> env \<Rightarrow> string \<Rightarrow> 'db app \<Rightarrow> (err + answer) \<times> 'db app" where
  "submit_draft D e i s = (case submit (loans_deps_of D) e i \<lparr>lo_ledger = ap_ledger s, lo_drafts = ap_drafts s\<rparr> of
     (r, t) \<Rightarrow> (ebind r (\<lambda>(l, instalment). Inr (DecisionAnswer l instalment)),
       (set_ledger (lo_ledger t) s)\<lparr>ap_drafts := lo_drafts t\<rparr>))"

fun loans_controller :: "'db app_deps \<Rightarrow> call_env \<Rightarrow> loans_request \<Rightarrow> 'db app \<Rightarrow> (err + answer) \<times> 'db app" where
  "loans_controller D c (PostDraft body) = with_body D LoanDraftDto body (\<lambda>b.
     on_drafts (createDraft (ca_uuid c) (draft_fields_of b)))"
| "loans_controller D c (GetDraft i) = with_uuid D i (\<lambda>i.
     reading (\<lambda>s. ebind (getDraft i (ap_drafts s)) (\<lambda>v. Inr (DraftAnswer v))))"
| "loans_controller D c (PatchDraft i body) = with_uuid D i (\<lambda>i. with_body D LoanDraftDto body (\<lambda>b.
     on_drafts (updateDraft (ca_env c 0) i (draft_fields_of b))))"
| "loans_controller D c (UndoDraft i) = with_uuid D i (\<lambda>i. on_drafts (undoDraft i))"
| "loans_controller D c (SubmitDraft i) = with_uuid D i (submit_draft D (ca_env c 0))"
| "loans_controller D c (GetCreditReport name) = reading (\<lambda>s. Inr (ReportAnswer (creditReport (dp_bureau D) name)))"
| "loans_controller D c (GetLoan i) = with_uuid D i (\<lambda>i.
     reading (\<lambda>s. ebind (find_loan (dp_loans D) (ap_db s) i) (\<lambda>l. Inr (LoanAnswer l))))"

definition k_of :: "request_body \<Rightarrow> nat option" where
  "k_of body = map_option nat (int_option body ''k'')"

fun ai_controller :: "'db app_deps \<Rightarrow> call_env \<Rightarrow> ai_request \<Rightarrow> 'db app \<Rightarrow> (err + answer) \<times> 'db app" where
  "ai_controller D c AiStatus =
     reading (\<lambda>s. case store_stats (kn_rows (ap_knowledge s)) of (n, sources) \<Rightarrow> Inr (KnowledgeAnswer n sources))"
| "ai_controller D c AiIngest = (\<lambda>s. case ingestDirectory (ca_ingestion c) (ca_directory c) (ap_knowledge s) of
     (r, k) \<Rightarrow> (ebind r (\<lambda>x. Inr (IngestAnswer x)), s\<lparr>ap_knowledge := k\<rparr>))"
| "ai_controller D c (AiRetrieve body) = with_body D AskDto body (\<lambda>b.
     reading (\<lambda>s. ebind (retrieve (ca_rag c) (kn_rows (ap_knowledge s)) (text_of b ''question'') (k_of b)) (\<lambda>x. Inr (ChunksAnswer x))))"
| "ai_controller D c (AiAsk body) = with_body D AskDto body (\<lambda>b.
     reading (\<lambda>s. ebind (ask (ca_rag c) (kn_rows (ap_knowledge s)) (text_of b ''question'') (k_of b)) (\<lambda>x. Inr (AskAnswer x))))"
| "ai_controller D c (AiStream q) =
     reading (\<lambda>s. Inr (TextAnswer ''text/event-stream'' (ask_stream (ca_rag c) (kn_rows (ap_knowledge s)) q)))"

section \<open>The application\<close>

definition job_request :: "'db app_deps \<Rightarrow> call_env \<Rightarrow> string \<Rightarrow> 'db app \<Rightarrow> (err + answer) \<times> 'db app" where
  "job_request D c name =
     on_ledger (operations_run (dp_manager D) (ad_repository (dp_accounts D)) (ca_env c) name) JobAnswer"

definition statement_request ::
  "'db app_deps \<Rightarrow> call_env \<Rightarrow> string option \<Rightarrow> string option \<Rightarrow> string \<Rightarrow> 'db app \<Rightarrow> (err + answer) \<times> 'db app" where
  "statement_request D c type format i s =
     (case statement (dp_manager D) (ad_locale (dp_accounts D)) (ca_fuel c) (ca_env c 0) i type format (ap_db s)
             (as_pool (ap_accounts s)) of
        None \<Rightarrow> (Inr Unanswered, s)
      | Some (r, pool) \<Rightarrow> (ebind r (\<lambda>(t, body). Inr (TextAnswer t body)), s\<lparr>ap_accounts := (ap_accounts s)\<lparr>as_pool := pool\<rparr>\<rparr>))"

definition quote_request :: "call_env \<Rightarrow> request_body \<Rightarrow> 'db app \<Rightarrow> (err + answer) \<times> 'db app" where
  "quote_request c b = on_ledger (\<lambda>l.
     case quote (rail_of_text (text_of b ''rail'')) (ca_env c 0) (payment_of b) (ls_refs l) of
       (q, refs) \<Rightarrow> (Inr q, l\<lparr>ls_refs := refs\<rparr>)) QuoteAnswer"

definition conversion_request :: "'db app_deps \<Rightarrow> call_env \<Rightarrow> string \<Rightarrow> string \<Rightarrow> int \<Rightarrow> 'db app \<Rightarrow> (err + answer) \<times> 'db app" where
  "conversion_request D c from to amountMinor s =
     (case convert (ad_locale (dp_accounts D)) (ca_clock c) from to amountMinor (ap_fx s, as_pool (ap_accounts s)) of
        (r, p, pool) \<Rightarrow> (ebind r (\<lambda>x. Inr (ConversionAnswer x)),
          s\<lparr>ap_fx := p, ap_accounts := (ap_accounts s)\<lparr>as_pool := pool\<rparr>\<rparr>))"

text \<open>The reports: the inbox the worker fills, the event bus, the process and its dependencies.\<close>

definition health_live :: "configuration \<Rightarrow> rat \<Rightarrow> err + answer" where
  "health_live cfg uptime = ebind (config_appMode cfg) (\<lambda>mode. Inr (LiveAnswer mode (math_round uptime)))"

definition health_dependencies :: "configuration \<Rightarrow> bus_state \<Rightarrow> err + string list \<Rightarrow> err + answer" where
  "health_dependencies cfg bus models = ebind (config_ai cfg) (\<lambda>ai.
     case dependencies bus (ac_provider ai) models of (kafka, ollama) \<Rightarrow> Inr (DependenciesAnswer kafka ollama))"

definition evaluate_request :: "request_body \<Rightarrow> err + answer" where
  "evaluate_request b = ebind (evaluate_endpoint (text_of b ''rule'') (rule_context_of b))
     (\<lambda>(rule, parsedAs, matched). Inr (EvaluationAnswer rule parsedAs matched))"

fun handle_request :: "'db app_deps \<Rightarrow> call_env \<Rightarrow> api_request \<Rightarrow> 'db app \<Rightarrow> (err + answer) \<times> 'db app" where
  "handle_request D c (Accounts q) = accounts_controller D c q"
| "handle_request D c (Banking q) = banking_controller D c q"
| "handle_request D c (Transactions q) = transactions_controller D c q"
| "handle_request D c (Loans q) = loans_controller D c q"
| "handle_request D c (Ai q) = ai_controller D c q"
| "handle_request D c (RunJob name) = job_request D c name"
| "handle_request D c (GetStatement i type format) = with_uuid D i (statement_request D c type format)"
| "handle_request D c (PostQuote body) = with_body D PaymentQuoteDto body (quote_request c)"
| "handle_request D c (GetConversion from to amountMinor) = conversion_request D c from to amountMinor"
| "handle_request D c GetRules = reading (\<lambda>s. Inr (RulesAnswer (activeRules (dp_rules D))))"
| "handle_request D c (PostEvaluate body) = with_body D EvaluateRuleDto body (\<lambda>b. reading (\<lambda>s. evaluate_request b))"
| "handle_request D c GetNotifications = reading (\<lambda>s. Inr (NotificationsAnswer (latest (ap_notifications s))))"
| "handle_request D c GetEventStats = reading (\<lambda>s. Inr (StatsAnswer (event_stats_of (ls_bus (ap_ledger s)))))"
| "handle_request D c GetLive = reading (\<lambda>s. health_live (dp_config D) (ca_uptime c))"
| "handle_request D c GetDependencies =
     reading (\<lambda>s. health_dependencies (dp_config D) (ls_bus (ap_ledger s)) (ca_models c))"
| "handle_request D c GetPatterns = reading (\<lambda>s. case patterns_list of (n, ps) \<Rightarrow> Inr (PatternsAnswer n ps))"

text \<open>What leaves the application: an answer, or the response the exception filter makes of an error.\<close>

definition api :: "'db app_deps \<Rightarrow> call_env \<Rightarrow> api_request \<Rightarrow> 'db app \<Rightarrow> (http_response + answer) \<times> 'db app" where
  "api D c q s = (case handle_request D c q s of
     (Inl x, s') \<Rightarrow> (Inl (exception_filter x), s') | (Inr a, s') \<Rightarrow> (Inr a, s'))"

fun api_run :: "'db app_deps \<Rightarrow> (call_env \<times> api_request) list \<Rightarrow> 'db app \<Rightarrow> 'db app" where
  "api_run D [] s = s"
| "api_run D ((c, q) # qs) s = api_run D qs (snd (api D c q s))"

end
