(* ===== verification/Endpoints.thy ===== *)
theory Endpoints
  imports Api
begin

text \<open>
  What holds of the application whatever is asked of it. A service call is sound when it keeps the
  invariant of its part of the state and moves no money if it fails; the lemmas \<open>sound_*\<close> (collection
  \<open>sound\<close>) say so of every call a controller makes, and the locale \<open>application\<close> puts them together for
  \<open>api\<close>, over any tables that satisfy the contracts of the account and loan repositories.
\<close>

section \<open>Sound endpoints\<close>

text \<open>
  The invariant of the application: books that balance, a pool of known currencies, and a history of
  commands that are undone by reversal. An endpoint is sound when it keeps the invariant and, if it answers
  with an error, has moved no money.
\<close>

definition commands_ok :: "'db entity_manager \<Rightarrow> 'db bank_state history \<Rightarrow> bool" where
  "commands_ok M h \<longleftrightarrow> (\<forall>(i, c, r) \<in> set h. cmd_undo c = undo_by_reverse M)"

definition app_inv :: "'db entity_manager \<Rightarrow> ('db \<Rightarrow> ledger_entry list) \<Rightarrow> 'db app \<Rightarrow> bool" where
  "app_inv M entries s \<longleftrightarrow>
     ledger_inv M entries (ap_db s) \<and> pool_ok (as_pool (ap_accounts s)) \<and> commands_ok M (ap_commands s)"

definition same_money :: "'db entity_manager \<Rightarrow> ('db \<Rightarrow> ledger_entry list) \<Rightarrow> 'db \<Rightarrow> 'db \<Rightarrow> bool" where
  "same_money M entries db db' \<longleftrightarrow> entries db' = entries db \<and>
     (\<forall>i. map_option balanceMinor (em_findAccount M db' i) = map_option balanceMinor (em_findAccount M db i))"

definition sound_endpoint ::
  "'db entity_manager \<Rightarrow> ('db \<Rightarrow> ledger_entry list) \<Rightarrow> ('db app \<Rightarrow> (err + 'a) \<times> 'db app) \<Rightarrow> bool" where
  "sound_endpoint M entries f \<longleftrightarrow> (\<forall>s. app_inv M entries s \<longrightarrow> app_inv M entries (snd (f s)) \<and>
     (\<not> is_ok (fst (f s)) \<longrightarrow> same_money M entries (ap_db s) (ap_db (snd (f s)))))"

named_theorems sound "endpoints that are sound"

lemma same_money_refl [simp]: "same_money M entries db db"
  by (simp add: same_money_def)

lemma sound_reading [sound]: "sound_endpoint M entries (reading f)"
  by (simp add: sound_endpoint_def reading_def)

lemma sound_with_body [sound]:
  "(\<And>b. body_ok (dp_uuid D) cls b \<Longrightarrow> sound_endpoint M entries (k b)) \<Longrightarrow> sound_endpoint M entries (with_body D cls body k)"
  by (auto simp: sound_endpoint_def with_body_def validation_pipe_def)

lemma sound_with_uuid [sound]: "(\<And>u. sound_endpoint M entries (k u)) \<Longrightarrow> sound_endpoint M entries (with_uuid D i k)"
  by (auto simp: sound_endpoint_def with_uuid_def split: sum.splits)

lemma is_ok_ebind [simp]: "is_ok (ebind r (\<lambda>x. Inr (g x))) = is_ok r"
  by (cases r) simp_all

lemma sound_on_drafts [sound]: "sound_endpoint M entries (on_drafts f)"
  by (simp add: sound_endpoint_def on_drafts_def app_inv_def case_prod_beta)

text \<open>The same for an operation on the part of the accounts service.\<close>

definition accounts_inv :: "'db entity_manager \<Rightarrow> ('db \<Rightarrow> ledger_entry list) \<Rightarrow> 'db accounts_state \<Rightarrow> bool" where
  "accounts_inv M entries s \<longleftrightarrow> ledger_inv M entries (as_db s) \<and> pool_ok (as_pool s)"

definition sound_accounts ::
  "'db entity_manager \<Rightarrow> ('db \<Rightarrow> ledger_entry list) \<Rightarrow> ('db accounts_state \<Rightarrow> (err + 'a) \<times> 'db accounts_state) \<Rightarrow> bool" where
  "sound_accounts M entries f \<longleftrightarrow> (\<forall>s. accounts_inv M entries s \<longrightarrow> accounts_inv M entries (snd (f s)) \<and>
     (\<not> is_ok (fst (f s)) \<longrightarrow> same_money M entries (as_db s) (as_db (snd (f s)))))"

lemma sound_on_accounts [sound]: "sound_accounts M entries f \<Longrightarrow> sound_endpoint M entries (on_accounts f g)"
  by (auto simp: sound_endpoint_def sound_accounts_def on_accounts_def app_inv_def accounts_inv_def case_prod_beta)

definition sound_ledger ::
  "'db entity_manager \<Rightarrow> ('db \<Rightarrow> ledger_entry list) \<Rightarrow> ('db ledger_state \<Rightarrow> (err + 'a) \<times> 'db ledger_state) \<Rightarrow> bool" where
  "sound_ledger M entries f \<longleftrightarrow> (\<forall>l. ledger_inv M entries (ls_db l) \<longrightarrow> ledger_inv M entries (ls_db (snd (f l))) \<and>
     (\<not> is_ok (fst (f l)) \<longrightarrow> same_money M entries (ls_db l) (ls_db (snd (f l)))))"

lemma sound_on_ledger [sound]: "sound_ledger M entries f \<Longrightarrow> sound_endpoint M entries (on_ledger f g)"
  by (auto simp: sound_endpoint_def sound_ledger_def on_ledger_def set_ledger_def app_inv_def case_prod_beta)

text \<open>An operation that leaves the ledger alone needs only to keep the pool.\<close>

lemma sound_accounts_reading:
  assumes "\<And>s. as_ledger (snd (f s)) = as_ledger s" "\<And>s. pool_ok (as_pool s) \<Longrightarrow> pool_ok (as_pool (snd (f s)))"
  shows "sound_accounts M entries f"
  using assms by (simp add: sound_accounts_def accounts_inv_def)


section \<open>The accounts service\<close>

lemma present_keeps:
  "as_ledger (snd (present d a s)) = as_ledger s"
  "pool_ok (as_pool s) \<Longrightarrow> pool_ok (as_pool (snd (present d a s)))"
  by (simp_all add: present_def case_prod_beta Let_def registry_get_pool_ok)

lemma then_present_keeps:
  "as_ledger (snd (then_present d (r, s))) = as_ledger s"
  "pool_ok (as_pool s) \<Longrightarrow> pool_ok (as_pool (snd (then_present d (r, s))))"
  by (simp_all add: then_present_def present_keeps split: sum.splits)

lemma present_all_ledger: "as_ledger (snd (present_all d as s)) = as_ledger s"
proof (induction "as" arbitrary: s)
  case (Cons a as)
  obtain r s1 where q: "present d a s = (r, s1)" by (cases "present d a s")
  then show ?case using present_keeps(1) [where d = d and a = a and s = s] Cons.IH [of s1]
    by (cases r) (simp_all add: case_prod_beta)
qed simp

lemma present_all_pool: "pool_ok (as_pool s) \<Longrightarrow> pool_ok (as_pool (snd (present_all d as s)))"
proof (induction "as" arbitrary: s)
  case (Cons a as)
  obtain r s1 where q: "present d a s = (r, s1)" by (cases "present d a s")
  then show ?case using present_keeps(2) [OF Cons.prems, of d a] Cons.IH [of s1]
    by (cases r) (simp_all add: case_prod_beta)
qed simp

lemmas present_all_keeps = present_all_ledger present_all_pool

lemma format_totals_pool: "pool_ok pool \<Longrightarrow> pool_ok (snd (format_totals loc ts pool))"
proof (induction loc ts pool rule: format_totals.induct)
  case (2 loc code minor rest pool)
  obtain r pool1 where g: "registry_get code pool = (r, pool1)" by (cases "registry_get code pool")
  then have "pool_ok pool1" using registry_get_pool_ok [OF 2(2), of code] by simp
  with 2 g show ?case by (cases r) (simp_all add: case_prod_beta)
qed simp

lemma portfolio_keeps:
  "as_ledger (snd (portfolio d owner s)) = as_ledger s"
  "pool_ok (as_pool s) \<Longrightarrow> pool_ok (as_pool (snd (portfolio d owner s)))"
  by (simp_all add: portfolio_def Let_def case_prod_beta format_totals_pool)

lemma sound_products [sound]: "sound_accounts M entries (product_views d)"
  by (rule sound_accounts_reading) (simp_all add: product_views_def products_def case_prod_beta Let_def)

lemma sound_portfolio [sound]: "sound_accounts M entries (portfolio d owner)"
  by (rule sound_accounts_reading) (simp_all add: portfolio_keeps)

lemma sound_overview [sound]: "sound_accounts M entries (customerOverview d owner)"
  by (rule sound_accounts_reading) (simp_all add: customerOverview_def Let_def case_prod_beta portfolio_keeps)

lemma sound_list [sound]: "sound_accounts M entries (\<lambda>s. present_all d (f s) s)"
  by (rule sound_accounts_reading) (simp_all add: present_all_keeps)

lemma sound_get [sound]: "sound_accounts M entries (\<lambda>s. then_present d (f s, s))"
  by (rule sound_accounts_reading) (simp_all add: then_present_keeps)

lemma sound_interest [sound]: "sound_accounts M entries (interestPreview d i)"
  by (rule sound_accounts_reading)
    (auto simp: interestPreview_def case_prod_beta Let_def registry_get_pool_ok split: sum.splits)

lemma changeStatus_pool_free: "\<not> is_ok (fst (changeStatus M e i action st)) \<Longrightarrow> snd (changeStatus M e i action st) = st"
  by (auto simp: changeStatus_def status_write_def split: sum.splits option.splits prod.splits)

context account_store
begin

lemma changeStatus_same_money:
  assumes "ledger_inv M entries (ls_db st)"
  shows "same_money M entries (ls_db st) (ls_db (snd (changeStatus M e i action st)))"
proof (cases "fst (changeStatus M e i action st)")
  case (Inl x)
  then show ?thesis using changeStatus_pool_free [of M e i action st] by simp
next
  case (Inr saved)
  then have "changeStatus M e i action st = (Inr saved, snd (changeStatus M e i action st))" by (simp add: prod_eq_iff)
  from changeStatus_ok [OF this] obtain a nxt where a: "em_findAccount M (ls_db st) i = Some a"
    "saved = a\<lparr>acc_status := nxt, acc_version := Suc (acc_version a)\<rparr>"
    "entries (ls_db (snd (changeStatus M e i action st))) = entries (ls_db st)"
    "em_findAccount M (ls_db (snd (changeStatus M e i action st))) = (em_findAccount M (ls_db st))(i := Some saved)" .
  show ?thesis unfolding same_money_def a(3,4) by (simp add: a(1,2))
qed

lemma sound_status: "ad_manager d = M \<Longrightarrow> sound_accounts M entries (change_and_present d e i action)"
  using changeStatus_inv changeStatus_same_money
  by (auto simp: sound_accounts_def accounts_inv_def change_and_present_def case_prod_beta then_present_keeps)

lemma open_error: "\<not> is_ok (fst (open_account d e rnd dto s)) \<Longrightarrow> as_ledger (snd (open_account d e rnd dto s)) = as_ledger s"
proof -
  assume e: "\<not> is_ok (fst (open_account d e rnd dto s))"
  obtain r s' where o: "open_account d e rnd dto s = (r, s')" by (cases "open_account d e rnd dto s")
  with e obtain x where "r = Inl x" by (cases r) auto
  then show ?thesis using open_account_error [of d e rnd dto s x s'] o by simp
qed

lemma sound_open:
  assumes "ad_repository d = R"
  shows "sound_accounts M entries (\<lambda>s. then_present d (open_account d e rnd dto s))"
  unfolding sound_accounts_def
proof (intro allI impI)
  fix s :: "'db accounts_state"
  assume inv: "accounts_inv M entries s"
  obtain r s1 where o: "open_account d e rnd dto s = (r, s1)" by (cases "open_account d e rnd dto s")
  have pool: "pool_ok (as_pool s1)" using open_account_pool [of d e rnd dto s] inv o by (simp add: accounts_inv_def)
  have inv1: "ledger_inv M entries (as_db s1)"
    using open_account_inv [OF assms _ o] inv by (simp add: accounts_inv_def)
  have "is_ok (fst (then_present d (r, s1)))" if "is_ok r"
  proof -
    from that obtain a where a: "r = Inr a" by (cases r) auto
    have "isSupported (acc_currency a)"
      using opening_account [OF account_store_axioms assms _ o [unfolded a]] inv by (simp add: accounts_inv_def)
    then show ?thesis using present_succeeds [OF pool] by (simp add: a then_present_def)
  qed
  then have "\<not> is_ok (fst (then_present d (r, s1))) \<Longrightarrow> as_ledger s1 = as_ledger s"
    using open_error [of d e rnd dto s] o by auto
  then show "accounts_inv M entries (snd (then_present d (open_account d e rnd dto s))) \<and>
      (\<not> is_ok (fst (then_present d (open_account d e rnd dto s))) \<longrightarrow>
        same_money M entries (as_db s) (as_db (snd (then_present d (open_account d e rnd dto s)))))"
    using pool inv1 by (auto simp: o accounts_inv_def then_present_keeps)
qed

lemma onboard_pool: "pool_ok (as_pool s) \<Longrightarrow> pool_ok (as_pool (snd (onboardCustomer d es rnd inp s)))"
  using open_account_pool [of d "es 0" rnd "onboard_dto inp" s]
  by (auto simp: onboardCustomer_def Let_def case_prod_beta present_keeps split: sum.splits prod.splits)

lemma sound_onboard:
  assumes "ad_manager d = M" "ad_repository d = R" "0 \<le> oc_initialDepositMinor inp"
  shows "sound_accounts M entries (onboardCustomer d es rnd inp)"
  unfolding sound_accounts_def
proof (intro allI impI)
  fix s :: "'db accounts_state"
  assume inv: "accounts_inv M entries s"
  then have i: "ledger_inv M entries (as_db s)" "pool_ok (as_pool s)" by (simp_all add: accounts_inv_def)
  have "as_ledger (snd (onboardCustomer d es rnd inp s)) = as_ledger s" if "\<not> is_ok (fst (onboardCustomer d es rnd inp s))"
  proof (cases "open_account d (es 0) rnd (onboard_dto inp) s")
    case (Pair r s1)
    show ?thesis
    proof (cases r)
      case (Inl x)
      with Pair open_account_error [of d "es 0" rnd "onboard_dto inp" s x s1] show ?thesis
        by (simp add: onboardCustomer_def Let_def)
    next
      case (Inr account)
      from onboard_ok [where es = es, OF assms(1,2) i assms(3) Pair [unfolded Inr]] that show ?thesis by fastforce
    qed
  qed
  then show "accounts_inv M entries (snd (onboardCustomer d es rnd inp s)) \<and>
      (\<not> is_ok (fst (onboardCustomer d es rnd inp s)) \<longrightarrow>
        same_money M entries (as_db s) (as_db (snd (onboardCustomer d es rnd inp s))))"
    using onboard_inv [OF assms(1,2) i(1)] onboard_pool [OF i(2)] by (simp add: accounts_inv_def)
qed

end


section \<open>The commands\<close>

definition sound_commands ::
  "'db entity_manager \<Rightarrow> ('db \<Rightarrow> ledger_entry list) \<Rightarrow>
     ('db bank_state history \<times> 'db bank_state \<Rightarrow> (err + 'a) \<times> 'db bank_state history \<times> 'db bank_state) \<Rightarrow> bool" where
  "sound_commands M entries f \<longleftrightarrow> (\<forall>h w r h' w'. commands_ok M h \<longrightarrow> ledger_inv M entries (bs_db w) \<longrightarrow> f (h, w) = (r, h', w') \<longrightarrow>
     commands_ok M h' \<and> ledger_inv M entries (bs_db w') \<and> (\<not> is_ok r \<longrightarrow> same_money M entries (bs_db w) (bs_db w')))"

lemma bank_of_simps [simp]: "bs_ledger (bank_of s) = ap_ledger s" "bs_transferLog (bank_of s) = ap_transferLog s"
  by (simp_all add: bank_of_def)

lemma sound_on_commands [sound]: "sound_commands M entries f \<Longrightarrow> sound_endpoint M entries (on_commands f g)"
  unfolding sound_endpoint_def
proof (intro allI impI)
  fix s
  assume f: "sound_commands M entries f" and inv: "app_inv M entries s"
  obtain r h w where c: "f (ap_commands s, bank_of s) = (r, h, w)" by (cases "f (ap_commands s, bank_of s)")
  with f inv have "commands_ok M h" "ledger_inv M entries (bs_db w)"
    "\<not> is_ok r \<Longrightarrow> same_money M entries (ap_db s) (bs_db w)"
    unfolding sound_commands_def app_inv_def by (metis bank_of_simps(1))+
  with inv c show "app_inv M entries (snd (on_commands f g s)) \<and>
      (\<not> is_ok (fst (on_commands f g s)) \<longrightarrow> same_money M entries (ap_db s) (ap_db (snd (on_commands f g s))))"
    by (simp add: on_commands_def app_inv_def set_ledger_def)
qed

lemma commands_ok_remember: "commands_ok M h \<Longrightarrow> cmd_undo c = undo_by_reverse M \<Longrightarrow> commands_ok M (remember c r h)"
  by (auto simp: commands_ok_def remember_def Let_def dest!: in_map_set)

lemma commands_ok_update: "commands_ok M h \<Longrightarrow> commands_ok M (update_record i f h)"
  by (auto simp: commands_ok_def update_record_def)

lemma sound_run:
  assumes "bank_command M entries cmd"
  shows "sound_commands M entries (run cmd uuid e)"
  unfolding sound_commands_def
proof (intro allI impI)
  fix h w r h' w'
  assume h: "commands_ok M h" and inv: "ledger_inv M entries (bs_db w)" and r: "run cmd uuid e (h, w) = (r, h', w')"
  obtain q v where x: "cmd_execute cmd e w = (q, v)" by (cases "cmd_execute cmd e w")
  have rem: "commands_ok M (update_record uuid f (remember cmd y h))" for f y
    by (intro commands_ok_update commands_ok_remember h bank_command.undo_reverses [OF assms])
  have h': "commands_ok M h'" and w': "w' = v" and ok: "is_ok r = is_ok q"
    using r x rem by (auto simp: run_def Let_def split: sum.splits)
  show "commands_ok M h' \<and> ledger_inv M entries (bs_db w') \<and> (\<not> is_ok r \<longrightarrow> same_money M entries (bs_db w) (bs_db w'))"
  proof (cases q)
    case (Inl y)
    then have "bs_db v = bs_db w" using bank_command.execute_failed [OF assms] x by blast
    then show ?thesis using h' w' inv by simp
  next
    case (Inr ref)
    then obtain ps where "applies M entries ps (bs_db w) (bs_db v)" using bank_command.execute_ok [OF assms] x by blast
    from applies_inv [OF this inv] show ?thesis using h' w' ok Inr by simp
  qed
qed

lemma sound_undo:
  assumes "entity_store M entries"
  shows "sound_commands M entries (undo i e)"
  unfolding sound_commands_def
proof (intro allI impI)
  fix h w r h' w'
  assume h: "commands_ok M h" and inv: "ledger_inv M entries (bs_db w)" and r: "undo i e (h, w) = (r, h', w')"
  have rev: "ledger_inv M entries (ls_db (snd (reverse M e ref (bs_ledger w))))" for ref
    using entity_store.reverse_applies [OF assms] inv by (rule applies_ex_inv)
  have failed: "ls_db l = bs_db w" if "reverse M e ref (bs_ledger w) = (Inl x, l)" for ref x l
    using reverse_failed [OF that] by simp
  have c: "cmd_undo c = undo_by_reverse M" if "map_of h i = Some (c, x)" for c x
    using h map_of_SomeD [OF that] by (auto simp: commands_ok_def)
  show "commands_ok M h' \<and> ledger_inv M entries (bs_db w') \<and> (\<not> is_ok r \<longrightarrow> same_money M entries (bs_db w) (bs_db w'))"
  proof (cases "map_of h i")
    case None
    then show ?thesis using r h inv by (auto simp: undo_def)
  next
    case (Some cx)
    obtain c x where cx: "cx = (c, x)" by (cases cx)
    obtain q l where q: "reverse M e (the (cr_reference x)) (bs_ledger w) = (q, l)"
      by (cases "reverse M e (the (cr_reference x)) (bs_ledger w)")
    have "ledger_inv M entries (ls_db l)" using rev [of "the (cr_reference x)"] q by simp
    then show ?thesis
      using r h inv Some cx c [OF Some [unfolded cx]] q failed commands_ok_update [OF h]
      by (auto simp: undo_def undo_by_reverse_def split: if_splits sum.splits)
  qed
qed

text \<open>The commands the controller makes of accepted bodies.\<close>

lemma refuse_null_command:
  assumes "bank_command M entries c"
  shows "bank_command M entries (refuse_null c)"
proof (intro bank_command.intro bank_command_axioms.intro)
  show "entity_store M entries" by (rule bank_command.axioms(1) [OF assms])
  fix e w res w' x
  show "cmd_execute (refuse_null c) e w = (Inr res, w') \<Longrightarrow>
      \<exists>ps. applies M entries ps (bs_db w) (bs_db w') \<and> (\<forall>p \<in> set ps. pg_reference p = result_reference res)"
    by (simp add: refuse_null_def split: prod.splits sum.splits)
  show "cmd_execute (refuse_null c) e w = (Inl x, w') \<Longrightarrow> bs_db w' = bs_db w"
    using bank_command.execute_failed [OF assms] by (auto simp: refuse_null_def split: prod.splits sum.splits)
  show "cmd_undo (refuse_null c) = undo_by_reverse M"
    using bank_command.undo_reverses [OF assms] by (simp add: refuse_null_def)
qed

lemma with_description_command:
  "(\<And>t. bank_command M entries (c t)) \<Longrightarrow> bank_command M entries (with_description body c)"
  by (simp add: with_description_def refuse_null_command)

lemma deposit_command_ok: "entity_store M entries \<Longrightarrow> bank_command M entries (deposit_command_of M body)"
  unfolding deposit_command_of_def by (intro with_description_command deposit_command)

lemma withdraw_command_ok: "entity_store M entries \<Longrightarrow> bank_command M entries (withdraw_command_of M body)"
  unfolding withdraw_command_of_def by (intro with_description_command withdraw_command)

lemma summary_command: "bank_command M entries c \<Longrightarrow> bank_command M entries (c\<lparr>cmd_summary := t\<rparr>)"
  by (simp add: bank_command_def bank_command_axioms_def)

lemma transfer_command_ok:
  "entity_store M entries \<Longrightarrow> bank_command M entries (transfer_command_of (money_transfer M fee rules) M body)"
  unfolding transfer_command_of_def Let_def
  by (auto intro!: summary_command transfer_command money_transfer_contract)


section \<open>Reversals, jobs, loans, statements and conversions\<close>

lemma sound_reverse:
  assumes "entity_store M entries"
  shows "sound_ledger M entries (reverse M e ref)"
  unfolding sound_ledger_def
proof (intro allI impI conjI)
  fix l :: "'a ledger_state"
  assume inv: "ledger_inv M entries (ls_db l)"
  show "ledger_inv M entries (ls_db (snd (reverse M e ref l)))"
    using entity_store.reverse_applies [OF assms] inv by (rule applies_ex_inv)
  assume err: "\<not> is_ok (fst (reverse M e ref l))"
  obtain r l' where "reverse M e ref l = (r, l')" by (cases "reverse M e ref l")
  then show "same_money M entries (ls_db l) (ls_db (snd (reverse M e ref l)))"
    using err by (cases r) (auto dest: reverse_failed)
qed

lemma operations_run_state:
  "snd (operations_run M R es name st) \<in> {st, snd (run_job (InterestPostingJob M R) es st), snd (run_job (DormancyReviewJob M R 180) es st)}"
  "\<not> is_ok (fst (operations_run M R es name st)) \<Longrightarrow> snd (operations_run M R es name st) = st"
  by (auto simp: operations_run_def Let_def split: option.splits prod.splits if_splits)

lemma sound_job:
  assumes "entity_store M entries"
  shows "sound_ledger M entries (operations_run M R es name)"
  unfolding sound_ledger_def
proof (intro allI impI conjI)
  fix l :: "'a ledger_state"
  assume inv: "ledger_inv M entries (ls_db l)"
  have "ledger_inv M entries (ls_db (snd (run_job (InterestPostingJob M R) es l)))"
    by (rule eod_step.run_keeps [OF interest_step [OF assms] TrueI inv])
  moreover have "snd (run_job (DormancyReviewJob M R 180) es l) = l"
    by (rule dormancy_job.run_keeps [OF TrueI refl])
  ultimately show "ledger_inv M entries (ls_db (snd (operations_run M R es name l)))"
    using operations_run_state(1) [of M R es name l] inv by auto
  show "same_money M entries (ls_db l) (ls_db (snd (operations_run M R es name l)))"
    if "\<not> is_ok (fst (operations_run M R es name l))"
    using operations_run_state(2) [OF that] by simp
qed

lemma submit_effect:
  assumes "loan_store M entries L loans" "lp_repository d = L" "submit d e i s = (r, s')"
  shows "lo_ledger s' = lo_ledger s \<or>
    is_ok r \<and> em_findAccount M (ls_db (lo_ledger s')) = em_findAccount M (ls_db (lo_ledger s)) \<and>
      entries (ls_db (lo_ledger s')) = entries (ls_db (lo_ledger s))"
proof (cases "lo_ledger s' = lo_ledger s")
  case False
  with assms(2,3) obtain la db' saved where
    "lr_insert L (ls_db (lo_ledger s)) la (decide (lp_bureau d) (lp_pow d) la) = Some (db', saved)"
    "is_ok r" "ls_db (lo_ledger s') = db'"
    by (auto simp: submit_def Let_def split: sum.splits option.splits)
  with loan_store.loan_insert [OF assms(1) this(1)] show ?thesis by simp
qed simp

lemma sound_submit:
  assumes "loan_store M entries L loans" "dp_loans D = L"
  shows "sound_endpoint M entries (submit_draft D e i)"
  unfolding sound_endpoint_def
proof (intro allI impI)
  fix s
  assume inv: "app_inv M entries s"
  obtain r t where t: "submit (loans_deps_of D) e i \<lparr>lo_ledger = ap_ledger s, lo_drafts = ap_drafts s\<rparr> = (r, t)" by fastforce
  have "lp_repository (loans_deps_of D) = L" by (simp add: loans_deps_of_def assms(2))
  from submit_effect [OF assms(1) this t] inv
  show "app_inv M entries (snd (submit_draft D e i s)) \<and>
      (\<not> is_ok (fst (submit_draft D e i s)) \<longrightarrow> same_money M entries (ap_db s) (ap_db (snd (submit_draft D e i s))))"
    by (auto simp: submit_draft_def app_inv_def set_ledger_def ledger_inv_def same_money_def t)
qed

lemma statement_pool:
  "statement M loc fuel e i type format db pool = Some (r, pool') \<Longrightarrow> pool_ok pool \<Longrightarrow> pool_ok pool'"
  using registry_get_pool_ok [of pool]
  by (auto simp: statement_def split: option.splits sum.splits prod.splits) (metis snd_conv)+

lemma sound_statement [sound]: "sound_endpoint M entries (statement_request D c type format i)"
  by (auto simp: sound_endpoint_def statement_request_def app_inv_def dest: statement_pool split: option.splits)

lemma convert_pool:
  assumes "pool_ok (snd s)"
  shows "pool_ok (snd (snd (convert loc c f t n s)))"
  using assms registry_get_pool_ok
  by (auto simp: convert_def Let_def split: sum.splits prod.splits) (metis snd_conv)+

lemma sound_conversion [sound]: "sound_endpoint M entries (conversion_request D c f t n)"
  using convert_pool
  by (auto simp: sound_endpoint_def conversion_request_def app_inv_def split: prod.splits) (metis snd_conv)+

lemma sound_quote [sound]: "sound_endpoint M entries (quote_request c b)"
  unfolding quote_request_def by (rule sound_on_ledger) (simp add: sound_ledger_def split: prod.splits)

lemma sound_ingest [sound]: "sound_endpoint M entries (ai_controller D c AiIngest)"
  by (auto simp: sound_endpoint_def app_inv_def split: prod.splits)


section \<open>Every endpoint is sound\<close>

locale application = account_store M entries R accounts + loans: loan_store M entries L loans
  for M :: "'db entity_manager" and entries and R :: "'db account_repository" and accounts
    and L :: "'db loan_repository" and loans +
  fixes D :: "'db app_deps"
  assumes manager: "dp_manager D = M" and repository: "ad_repository (dp_accounts D) = R" and applications: "dp_loans D = L"
begin

lemma store: "entity_store M entries"
  by (rule entity_store_axioms)

lemma sound_run_command: "bank_command M entries cmd \<Longrightarrow> sound_endpoint M entries (run_command c cmd)"
  unfolding run_command_def by (intro sound_on_commands sound_run)

lemma accounts_sound: "sound_endpoint M entries (accounts_controller D c q)"
  by (cases q) (auto intro!: sound sound_status sound_open simp: manager repository)

lemma banking_sound: "sound_endpoint M entries (banking_controller D c q)"
  by (cases q) (auto intro!: sound sound_onboard accepted_onboard simp: manager repository)

lemma transactions_sound: "sound_endpoint M entries (transactions_controller D c q)"
  by (cases q) (auto intro!: sound sound_run_command sound_undo sound_reverse deposit_command_ok withdraw_command_ok
      transfer_command_ok store simp: manager transfers_of_def)

lemma loans_sound: "sound_endpoint M entries (loans_controller D c q)"
  by (cases q) (auto intro!: sound sound_submit [OF loans.loan_store_axioms applications])

lemma ai_sound: "sound_endpoint M entries (ai_controller D c q)"
  using sound_ingest [of M entries D c] by (cases q) (auto intro!: sound)

lemma handle_sound: "sound_endpoint M entries (handle_request D c q)"
  by (cases q) (auto intro!: sound accounts_sound banking_sound transactions_sound loans_sound ai_sound
      sound_job store simp: job_request_def manager)

lemma api_sound:
  assumes "app_inv M entries s"
  shows "app_inv M entries (snd (api D c q s))"
    and "\<not> is_ok (fst (api D c q s)) \<Longrightarrow> same_money M entries (ap_db s) (ap_db (snd (api D c q s)))"
  using handle_sound [of c q] assms by (auto simp: sound_endpoint_def api_def split: prod.splits sum.splits)

lemma api_run_keeps: "app_inv M entries s \<Longrightarrow> app_inv M entries (api_run D qs s)"
  by (induction qs arbitrary: s) (auto simp: api_sound(1))

end

section \<open>The application on its tables\<close>

definition repository_beside :: "'db account_repository \<Rightarrow> ('db \<times> 'x) account_repository" where
  "repository_beside R =
     \<lparr>ar_find = (\<lambda>db. ar_find R (fst db)), ar_findSome = (\<lambda>db. ar_findSome R (fst db)),
      ar_findNewest = (\<lambda>db. ar_findNewest R (fst db)),
      ar_insert = (\<lambda>db b n. map_option (\<lambda>(db', a). ((db', snd db), a)) (ar_insert R (fst db) b n))\<rparr>"

lemma beside_account_store:
  assumes "account_store M entries R accounts"
  shows "account_store (beside M :: ('db \<times> 'x) entity_manager) (entries \<circ> fst) (repository_beside R) (accounts \<circ> fst)"
proof (intro account_store.intro account_store_axioms.intro)
  show "entity_store (beside M :: ('db \<times> 'x) entity_manager) (entries \<circ> fst)"
    by (rule beside_store [OF account_store.axioms(1) [OF assms]])
qed (use account_store.repo_find [OF assms] account_store.repo_some [OF assms] account_store.repo_newest [OF assms] in
  \<open>auto simp: repository_beside_def dest: account_store.repo_insert [OF assms] account_store.find_in [OF assms]\<close>)

definition sample_config :: configuration where
  "sample_config = map (\<lambda>(k, kind, d). (k, if k = ''INTERNAL_TRANSFER_FEE_MINOR'' then SNum 2500
     else if k = ''FRAUD_RULES'' then SText [] else d)) envValidationSchema"

definition sample_app_deps :: "(tables \<times> loan list) app_deps" where
  "sample_app_deps =
     \<lparr>dp_accounts = \<lparr>ad_manager = beside tables_manager, ad_repository = repository_beside tables_repository,
        ad_catalog = sample_catalog, ad_locale = (\<lambda>x k. toFixed k x)\<rparr>,
      dp_loans = loan_tables_repository, dp_bureau = getReport, dp_pow = (\<lambda>x n. dbl (x powi n)), dp_transferFee = 2500,
      dp_rules = [], dp_uuid = (\<lambda>i. i \<noteq> []), dp_config = sample_config,
      dp_message = (\<lambda>_ _. ''Bad Request'')\<rparr>"

lemma tables_application:
  assumes "dp_manager D = beside tables_manager" "ad_repository (dp_accounts D) = repository_beside tables_repository"
    "dp_loans D = loan_tables_repository"
  shows "application (beside tables_manager) (entryRows \<circ> fst) (repository_beside tables_repository) (accountRows \<circ> fst)
    loan_tables_repository snd D"
  using assms
  by (intro application.intro application_axioms.intro beside_account_store tables_account_store loan_tables.loan_store_axioms)

interpretation sample_application: application "beside tables_manager" "entryRows \<circ> fst"
  "repository_beside tables_repository" "accountRows \<circ> fst" loan_tables_repository snd sample_app_deps
  by (rule tables_application) (simp_all add: sample_app_deps_def)


definition sample_app :: "(tables \<times> loan list) app" where
  "sample_app =
     \<lparr>ap_accounts = \<lparr>as_ledger = \<lparr>ls_db = (sample_db, []), ls_refs = \<lparr>sequence = 0, nodeTag = ''OCAL''\<rparr>, ls_bus = sample_bus\<rparr>,
        as_pool = [], as_heap = sample_heap\<rparr>,
      ap_transferLog = [], ap_commands = [], ap_drafts = [], ap_fx = new_proxy 0,
      ap_knowledge = \<lparr>kn_rows = [], kn_lockedElsewhere = False, kn_lockHeld = False\<rparr>, ap_notifications = []\<rparr>"

definition sample_call :: call_env where
  "sample_call =
     \<lparr>ca_env = (\<lambda>_. sample_env), ca_uuid = ''c1'', ca_random = (replicate 16 7, 42), ca_clock = sample_clock 0, ca_fuel = 0,
      ca_rag = fake_deps (\<lambda>n. 1) (\<lambda>rows q k. Inr []), ca_ingestion = sample_ingestion, ca_directory = [],
      ca_uptime = 0, ca_models = Inr []\<rparr>"

lemma sample_app_simps [simp]:
  "ap_db sample_app = (sample_db, [])" "ca_env sample_call = (\<lambda>_. sample_env)" "dp_transferFee sample_app_deps = 2500"
  "dp_manager sample_app_deps = beside tables_manager" "dp_rules sample_app_deps = []"
  "dp_uuid sample_app_deps = (\<lambda>i. i \<noteq> [])"
  by (simp_all add: sample_app_def sample_call_def sample_app_deps_def)

lemma sample_app_inv: "app_inv (beside tables_manager) (entryRows \<circ> fst) sample_app"
  using sample_inv by (simp add: app_inv_def commands_ok_def ledger_inv_def) (simp add: sample_app_def)

lemmas sample_application_is = sample_application.application_axioms

section \<open>Properties of the application\<close>

lemma run_result:
  "run cmd uuid e (h, w) = (r, h', w') \<Longrightarrow>
     w' = snd (cmd_execute cmd e w) \<and> r = ebind (fst (cmd_execute cmd e w)) (\<lambda>ref. Inr (uuid, ref))"
  by (auto simp: run_def Let_def split: sum.splits prod.splits)

lemma run_command_result:
  assumes "run_command c cmd s = (r, s')"
  obtains w' where "w' = snd (cmd_execute cmd (ca_env c 0) (bank_of s))" "ap_ledger s' = bs_ledger w'"
    "r = ebind (fst (cmd_execute cmd (ca_env c 0) (bank_of s))) (\<lambda>ref. Inr (CommandAnswer (ca_uuid c) ref))"
proof -
  obtain q h w' where r: "run cmd (ca_uuid c) (ca_env c 0) (ap_commands s, bank_of s) = (q, h, w')"
    by (cases "run cmd (ca_uuid c) (ca_env c 0) (ap_commands s, bank_of s)")
  then show thesis
    using assms run_result [OF r]
    by (intro that [of w']; cases "fst (cmd_execute cmd (ca_env c 0) (bank_of s))")
      (auto simp: run_command_def on_commands_def set_ledger_def)
qed

lemma transfer_command_run:
  assumes "svc e (transfer_request_of body) w = (x, w')"
  shows "cmd_execute (transfer_command_of svc M body) e w = (ebind x (\<lambda>p. Inr (TransferDone p)), w')"
  using assms by (simp add: transfer_command_of_def Let_def TransferCommand_def)

lemma transfers_of_app [simp]: "transfers_of D = money_transfer (dp_manager D) (dp_transferFee D) (dp_rules D)"
  by (simp add: transfers_of_def)

lemma accepted_transfer_fee:
  assumes "body_ok u TransferDto body"
  shows "tq_fee (transfer_request_of body) = 0"
proof -
  have "map_of body ''feeMinor'' = None" by (rule body_ok_undeclared [OF assms]) (simp add: TransferDto_def)
  then show ?thesis by (simp add: tq_fee_def transfer_request_of_def int_option_def)
qed

lemma post_transfer_result:
  assumes "api D c (Transactions (PostTransfer body)) s = (Inr a, s')"
  obtains r w' where "body_ok (dp_uuid D) TransferDto body"
    "money_transfer (dp_manager D) (dp_transferFee D) (dp_rules D) (ca_env c 0) (transfer_request_of body) (bank_of s) = (Inr r, w')"
    "a = CommandAnswer (ca_uuid c) (TransferDone r)" "ap_ledger s' = bs_ledger w'"
proof -
  let ?e = "ca_env c 0" and ?q = "transfer_request_of body"
  from assms have ok: "body_ok (dp_uuid D) TransferDto body"
    and run: "run_command c (transfer_command_of (transfers_of D) (dp_manager D) body) s = (Inr a, s')"
    by (auto simp: api_def with_body_def validation_pipe_def split: prod.splits sum.splits if_splits)
  obtain x w' where t: "money_transfer (dp_manager D) (dp_transferFee D) (dp_rules D) ?e ?q (bank_of s) = (x, w')"
    by (cases "money_transfer (dp_manager D) (dp_transferFee D) (dp_rules D) ?e ?q (bank_of s)")
  then have exe: "cmd_execute (transfer_command_of (transfers_of D) (dp_manager D) body) ?e (bank_of s) =
      (ebind x (\<lambda>p. Inr (TransferDone p)), w')"
    by (intro transfer_command_run) simp
  obtain v where v: "v = w'" "ap_ledger s' = bs_ledger v"
    "Inr a = ebind (ebind x (\<lambda>p. Inr (TransferDone p))) (\<lambda>ref. Inr (CommandAnswer (ca_uuid c) ref))"
    by (rule run_command_result [OF run, unfolded exe]) (rule that, simp_all)
  then obtain r where "x = Inr r" by (cases x) auto
  with t v show thesis by (intro that [OF ok]) simp_all
qed

lemma post_transfer_answer:
  assumes "api D c (Transactions (PostTransfer body)) s = (Inr a, s')"
  shows "\<exists>r. a = CommandAnswer (ca_uuid c) (TransferDone r) \<and>
    tx_feeMinor r = fee_for (dp_transferFee D) (tq_channel (transfer_request_of body)) \<and>
    tx_pipeline r = [''audit'', ''fraud-screening'', ''fee'', ''ledger'']"
proof -
  obtain r w' where ok: "body_ok (dp_uuid D) TransferDto body"
    and t: "money_transfer (dp_manager D) (dp_transferFee D) (dp_rules D) (ca_env c 0) (transfer_request_of body) (bank_of s) = (Inr r, w')"
    and a: "a = CommandAnswer (ca_uuid c) (TransferDone r)"
    by (rule post_transfer_result [OF assms])
  show ?thesis
    using a money_transfer_ok(1,2) [OF t] accepted_transfer_fee [OF ok] by simp
qed

lemma post_transfer_moves:
  assumes "application M entries R accounts L loans D" "0 \<le> dp_transferFee D"
    and "api D c (Transactions (PostTransfer body)) s = (Inr a, s')"
  defines "q \<equiv> transfer_request_of body"
  shows "moves_by M (ap_db s) (ap_db s') i
    (if i = tq_fromAccountId q then - tq_amountMinor q - fee_for (dp_transferFee D) (tq_channel q)
     else if i = tq_toAccountId q then tq_amountMinor q else 0)"
proof -
  have M: "dp_manager D = M" by (rule application.manager [OF assms(1)])
  obtain r w' where ok: "body_ok (dp_uuid D) TransferDto body"
    and t: "money_transfer M (dp_transferFee D) (dp_rules D) (ca_env c 0) q (bank_of s) = (Inr r, w')"
    and db: "ap_ledger s' = bs_ledger w'"
    by (rule post_transfer_result [OF assms(3), folded q_def, unfolded M])
  have fee: "tq_fee q = 0" unfolding q_def by (rule accepted_transfer_fee [OF ok])
  then have "0 \<le> tq_fee q + fee_for (dp_transferFee D) (tq_channel q)"
    using assms(2) by (simp add: fee_for_def)
  note moves = money_transfer_moves [OF application.store [OF assms(1)] t this, of i]
  have "tx_feeMinor r = fee_for (dp_transferFee D) (tq_channel q)"
    using money_transfer_ok(2) [OF t] fee by simp
  with moves show ?thesis by (simp only: db bank_of_simps)
qed

lemma sample_transfer_accepted: "body_ok (\<lambda>i. i \<noteq> []) TransferDto sample_transfer_body"
  by (simp add: body_ok_def TransferDto_def sample_transfer_body_def field_ok_def Let_def)

lemma sample_transfer_on:
  assumes db: "ap_db s = (sample_db, [])"
  obtains a s' where "api sample_app_deps sample_call (Transactions (PostTransfer sample_transfer_body)) s = (Inr a, s')"
proof -
  let ?M = "beside tables_manager :: (tables \<times> loan list) entity_manager" and ?q = "transfer_request_of sample_transfer_body"
  have q: "?q = \<lparr>tq_fromAccountId = ''a'', tq_toAccountId = ''b'', tq_amountMinor = 1500, tq_channel = Mobile,
      tq_description = None, tq_feeMinor = None\<rparr>"
    by (simp add: transfer_request_of_def sample_transfer_body_def text_of_def int_of_def channel_of_text_def text_option_def
        int_option_def)
  have "withdrawnToday ?M sample_env (sample_db, []) i = 0" for i
    by (simp add: entity_store.withdrawnToday_eq [OF beside_store [OF tables_store]] sample_defs counts_today_def)
  then have "is_ok (fst (transfer ?M sample_env (request_input ?q 2500) (ap_ledger s)))"
    by (intro entity_store.transfer_succeeds [OF beside_store [OF tables_store], of _ _ "sample_account ''a'' ACTIVE 50000"
          "sample_account ''b'' ACTIVE 20000"])
      (simp_all add: transfer_ok_def withdrawal_ok_def deposit_ok_def request_input_def q db)
  then obtain res l where "transfer ?M sample_env (request_input ?q 2500) (bs_ledger (bank_of s)) = (Inr res, l)"
    by (cases "transfer ?M sample_env (request_input ?q 2500) (ap_ledger s)";
        cases "fst (transfer ?M sample_env (request_input ?q 2500) (ap_ledger s))") auto
  moreover have "tq_fee ?q + fee_for 2500 (tq_channel ?q) = 2500"
    by (simp add: q tq_fee_def fee_for_def)
  ultimately obtain r w' where t: "money_transfer ?M 2500 [] sample_env ?q (bank_of s) = (Inr r, w')"
    using money_transfer_succeeds [of ?M sample_env ?q 2500 "bank_of s" res l "[]"] by (auto simp: evaluate_def)
  let ?c = "transfer_command_of (transfers_of sample_app_deps) ?M sample_transfer_body"
  have exe: "cmd_execute ?c (ca_env sample_call 0) (bank_of s) = (Inr (TransferDone r), w')"
    using transfer_command_run [of "transfers_of sample_app_deps" sample_env sample_transfer_body "bank_of s" _ w' ?M] t
    by simp
  obtain a s' where run: "run_command sample_call ?c s = (a, s')"
    by (cases "run_command sample_call ?c s")
  have "a = Inr (CommandAnswer (ca_uuid sample_call) (TransferDone r))"
    by (rule run_command_result [OF run, unfolded exe]) simp
  then show thesis
    using run that by (simp add: api_def with_body_def validation_pipe_def sample_transfer_accepted)
qed

lemma sample_transfer_answered:
  obtains a s' where "api sample_app_deps sample_call (Transactions (PostTransfer sample_transfer_body)) sample_app = (Inr a, s')"
  by (rule sample_transfer_on [of sample_app]) (simp_all only: sample_app_simps)



text \<open>
  C3: A request that is answered with an error has moved no money: whatever was asked and whatever went
  wrong on the way, in the validation of the body, in a rule of the bank, in the database, every
  account has the balance it had and the ledger the entries it had.
\<close>
theorem rejected_request_moves_no_money:
  assumes "application M entries R accounts L loans D" "app_inv M entries s"
    and "api D c q s = (Inl response, s')"
  shows "entries (ap_db s') = entries (ap_db s) \<and>
    (\<forall>i. map_option balanceMinor (em_findAccount M (ap_db s') i) = map_option balanceMinor (em_findAccount M (ap_db s) i))"
  using application.api_sound(2) [OF assms(1,2), of c q] assms(3) by (simp add: same_money_def)

definition deposit_body :: "body_value \<Rightarrow> request_body" where
  "deposit_body d = [(''accountId'', BStr ''a''), (''amountMinor'', BNum (Finite 500)), (''description'', d)]"

lemma deposit_body_ok: "body_ok (\<lambda>i. i \<noteq> []) MoneyMovementDto (deposit_body BNull)"
  by (simp add: body_ok_def MoneyMovementDto_def deposit_body_def field_ok_def Let_def)

lemma null_deposit_fails:
  assumes "entity_store M entries" "em_findAccount M (bs_db w) (text_of body ''accountId'') = Some a"
    and "deposit_ok (int_of body ''amountMinor'') a" "0 \<le> balanceMinor a"
    and "map_of body ''description'' = Some BNull"
  shows "fst (cmd_execute (deposit_command_of M body) e w) = Inl not_null_violation"
proof -
  let ?c = "DepositCommand M (text_of body ''accountId'') (int_of body ''amountMinor'') None"
  have "is_ok (fst (cmd_execute ?c e w))"
    using entity_store.deposit_succeeds [OF assms(1-4)] by (simp add: DepositCommand_def case_prod_beta)
  then obtain ref v where "cmd_execute ?c e w = (Inr ref, v)"
    by (cases "cmd_execute ?c e w"; cases "fst (cmd_execute ?c e w)") auto
  then show ?thesis
    using assms(5) by (simp add: deposit_command_of_def with_description_def refuse_null_def)
qed

text \<open>
  A deposit whose description is \<open>null\<close> passes the validation of the body and every rule of the bank,
  and is still refused, with the answer for an unexpected error, status 500; nothing is posted.
\<close>
theorem null_description_answers_500:
  assumes "application M entries R accounts L loans D" "app_inv M entries s"
    and "body_ok (dp_uuid D) MoneyMovementDto body" "map_of body ''description'' = Some BNull"
    and "em_findAccount M (ap_db s) (text_of body ''accountId'') = Some a" "deposit_ok (int_of body ''amountMinor'') a"
    and "api D c (Transactions (PostDeposit body)) s = (r, s')"
  shows "\<exists>response. r = Inl response \<and> resp_status response = 500 \<and> entries (ap_db s') = entries (ap_db s)"
proof -
  have M: "dp_manager D = M" by (rule application.manager [OF assms(1)])
  have "0 \<le> balanceMinor a" using assms(2,5) by (simp add: app_inv_def ledger_inv_def)
  with assms(5,6) have f: "fst (cmd_execute (deposit_command_of M body) (ca_env c 0) (bank_of s)) = Inl not_null_violation"
    by (intro null_deposit_fails [OF application.store [OF assms(1)] _ _ _ assms(4)]) simp_all
  obtain q t where run: "run_command c (deposit_command_of M body) s = (q, t)"
    by (cases "run_command c (deposit_command_of M body) s")
  have "q = Inl not_null_violation" by (rule run_command_result [OF run]) (simp add: f)
  then have api: "api D c (Transactions (PostDeposit body)) s = (Inl (exception_filter not_null_violation), t)"
    using run by (simp add: api_def with_body_def validation_pipe_def assms(3) M)
  then show ?thesis
    using application.api_sound(2) [OF assms(1,2), of c "Transactions (PostDeposit body)"] assms(7)
    by (simp add: same_money_def not_null_violation_def)
qed

theorem null_description_answers_500_witness:
  "\<exists>response s'. api sample_app_deps sample_call (Transactions (PostDeposit (deposit_body BNull))) sample_app = (Inl response, s') \<and>
     resp_status response = 500 \<and> entryRows (fst (ap_db s')) = entryRows sample_db"
proof -
  obtain r s' where api: "api sample_app_deps sample_call (Transactions (PostDeposit (deposit_body BNull))) sample_app = (r, s')"
    by (cases "api sample_app_deps sample_call (Transactions (PostDeposit (deposit_body BNull))) sample_app")
  have body: "map_of (deposit_body BNull) ''description'' = Some BNull" "text_of (deposit_body BNull) ''accountId'' = ''a''"
    "int_of (deposit_body BNull) ''amountMinor'' = 500"
    by (simp_all add: deposit_body_def text_of_def int_of_def)
  from null_description_answers_500 [OF sample_application_is sample_app_inv _ body(1) _ _ api, of "sample_account ''a'' ACTIVE 50000"]
  have "\<exists>response. r = Inl response \<and> resp_status response = 500 \<and> (entryRows \<circ> fst) (ap_db s') = (entryRows \<circ> fst) (ap_db sample_app)"
    using deposit_body_ok by (simp add: body deposit_ok_def)
  with api show ?thesis by auto
qed

theorem rejected_request_moves_no_money_witness:
  "\<exists>response s'. api sample_app_deps sample_call (RunJob ''nothing'') sample_app = (Inl response, s') \<and>
     resp_status response = 404 \<and> entryRows (fst (ap_db s')) = entryRows sample_db"
proof -
  obtain response s' where api: "api sample_app_deps sample_call (RunJob ''nothing'') sample_app = (Inl response, s')"
    "resp_status response = 404"
    by (simp add: api_def job_request_def on_ledger_def operations_run_def Let_def InterestPostingJob_def DormancyReviewJob_def
        inherited_names_def)
  from rejected_request_moves_no_money [OF sample_application_is sample_app_inv api(1)] api show ?thesis by simp
qed


section \<open>Safe methods\<close>

text \<open>The requests of the method \<open>GET\<close>.\<close>

fun is_get :: "api_request \<Rightarrow> bool" where
  "is_get (Accounts (OpenAccount b)) = False"
| "is_get (Accounts (PatchStatus i b)) = False"
| "is_get (Accounts q) = True"
| "is_get (Banking (GetOverview owner)) = True"
| "is_get (Transactions GetCommands) = True"
| "is_get (Transactions (GetRecent i limit)) = True"
| "is_get (Transactions (GetExport i)) = True"
| "is_get (Loans (GetDraft i)) = True"
| "is_get (Loans (GetCreditReport name)) = True"
| "is_get (Loans (GetLoan i)) = True"
| "is_get (Ai AiStatus) = True"
| "is_get (Ai (AiStream q)) = True"
| "is_get (GetStatement i type format) = True"
| "is_get (GetConversion f t amountMinor) = True"
| "is_get GetRules = True"
| "is_get GetNotifications = True"
| "is_get GetEventStats = True"
| "is_get GetLive = True"
| "is_get GetDependencies = True"
| "is_get GetPatterns = True"
| "is_get q = False"

definition same_records :: "'db app \<Rightarrow> 'db app \<Rightarrow> bool" where
  "same_records s s' \<longleftrightarrow> ap_ledger s' = ap_ledger s \<and> ap_transferLog s' = ap_transferLog s \<and> ap_commands s' = ap_commands s \<and>
     ap_drafts s' = ap_drafts s \<and> ap_knowledge s' = ap_knowledge s \<and> ap_notifications s' = ap_notifications s"

named_theorems safe "handlers that change no record"

lemma safe_reading [safe]: "same_records s (snd (reading f s))"
  by (simp add: reading_def same_records_def)

lemma safe_with_uuid [safe]: "(\<And>u. same_records s (snd (k u s))) \<Longrightarrow> same_records s (snd (with_uuid D i k s))"
  by (simp add: with_uuid_def same_records_def split: sum.splits)

definition keeps_ledger :: "('db accounts_state \<Rightarrow> 'r \<times> 'db accounts_state) \<Rightarrow> bool" where
  "keeps_ledger f \<longleftrightarrow> (\<forall>s. as_ledger (snd (f s)) = as_ledger s)"

lemma safe_accounts [safe]: "keeps_ledger f \<Longrightarrow> same_records s (snd (on_accounts f g s))"
  by (simp add: keeps_ledger_def on_accounts_def same_records_def case_prod_beta)

lemma service_reads [safe]:
  "keeps_ledger (product_views d)" "keeps_ledger (portfolio d owner)" "keeps_ledger (customerOverview d owner)"
  "keeps_ledger (interestPreview d i)" "keeps_ledger (\<lambda>s. present_all d (f s) s)" "keeps_ledger (\<lambda>s. then_present d (r s, s))"
  by (auto simp: keeps_ledger_def product_views_def products_def customerOverview_def interestPreview_def portfolio_keeps
      present_all_ledger then_present_keeps case_prod_beta Let_def split: sum.splits)

lemma safe_statement [safe]: "same_records s (snd (statement_request D c type format i s))"
  by (simp add: statement_request_def same_records_def split: option.splits prod.splits)

lemma safe_conversion [safe]: "same_records s (snd (conversion_request D c f t n s))"
  by (simp add: conversion_request_def same_records_def split: prod.splits)

lemma api_state: "snd (api D c q s) = snd (handle_request D c q s)"
  by (simp add: api_def split: prod.splits sum.splits)

lemma get_handler_safe: "is_get q \<Longrightarrow> same_records s (snd (handle_request D c q s))"
  by (cases q rule: is_get.cases) (auto intro!: safe)

text \<open>
  C37: The \<open>GET\<close> endpoints are safe: whatever is asked, and whether or not it can be answered, tables,
  events and reference numbers stay as they were, and so do the log of the transfers, the history of
  commands, the loan drafts, the knowledge base and the inbox; only caches (currencies, products, exchange rates) change.
\<close>
theorem get_requests_are_safe:
  assumes "is_get q"
  shows "ap_ledger (snd (api D c q s)) = ap_ledger s \<and> ap_transferLog (snd (api D c q s)) = ap_transferLog s \<and>
    ap_commands (snd (api D c q s)) = ap_commands s \<and> ap_drafts (snd (api D c q s)) = ap_drafts s \<and>
    ap_knowledge (snd (api D c q s)) = ap_knowledge s \<and> ap_notifications (snd (api D c q s)) = ap_notifications s"
  using get_handler_safe [OF assms, of s D c] by (simp add: same_records_def api_state)

theorem get_requests_are_safe_witness:
  "ap_ledger (snd (api sample_app_deps sample_call (Accounts (GetPortfolio ''Ayesha'')) sample_app)) = ap_ledger sample_app \<and>
   ap_commands (snd (api sample_app_deps sample_call (Accounts (GetPortfolio ''Ayesha'')) sample_app)) = []"
  using get_requests_are_safe [of "Accounts (GetPortfolio ''Ayesha'')" sample_app_deps sample_call sample_app]
  by (simp add: sample_app_def)

end
