(* ===== verification/Startup.thy ===== *)
theory Startup
  imports Endpoints
begin

text \<open>
  From the environment to the running application: what \<open>main.ts\<close> and the modules make of the
  configuration (\<open>src/src/modules/transactions/transactions.module.ts\<close>,
  \<open>src/src/modules/fraud/fraud-rule.engine.ts\<close>, \<open>src/src/modules/messaging/messaging.module.ts\<close>), and what then
  holds of the endpoints without further assumptions on fee and rules.
\<close>

section \<open>Starting\<close>

text \<open>\<open>process.env.APP_MODE === 'worker' ? 'worker' : 'api'\<close> of the environment as it is.\<close>

definition start_mode :: "env_vars \<Rightarrow> string" where
  "start_mode env = (if map_of env ''APP_MODE'' = Some ''worker'' then ''worker'' else ''api'')"

definition whole :: "jsnum \<Rightarrow> int" where
  "whole n = (case n of Finite q \<Rightarrow> \<lfloor>q\<rfloor> | _ \<Rightarrow> 0)"

text \<open>
  The rules are parsed when the engine is constructed, the fee is read when the decorators are wired; an
  exception of either keeps the application from starting.
\<close>

definition rule_engine :: "configuration \<Rightarrow> err + (string \<times> expression) list" where
  "rule_engine c = (case load_rules (config_fraudRules c) of Inl m \<Rightarrow> Inl (PlainError m) | Inr rules \<Rightarrow> Inr rules)"

definition start_app ::
  "(env_schema \<Rightarrow> env_vars \<Rightarrow> string + configuration) \<Rightarrow> env_vars \<Rightarrow> 'db app_deps \<Rightarrow> err + 'db app_deps" where
  "start_app validator env D = (case validator envValidationSchema env of
     Inl m \<Rightarrow> Inl (PlainError m)
   | Inr c \<Rightarrow>
       ebind (rule_engine c) (\<lambda>rules.
       ebind (internalTransferFeeMinor c) (\<lambda>fee.
       Inr (D\<lparr>dp_config := c, dp_rules := rules, dp_transferFee := whole fee\<rparr>))))"

text \<open>The choice of the publisher, and the bus as it is before anything is published.\<close>

definition initial_bus :: "configuration \<Rightarrow> bool \<Rightarrow> err + bus_state" where
  "initial_bus c up = ebind (config_kafka c) (\<lambda>k. Inr
     \<lparr>kafkaEnabled = kc_enabled k, connected = False, brokerUp = up, kafkaSent = [], published = [], auditLog = [],
      counts = [], busErrors = []\<rparr>)"

section \<open>What a started application does\<close>

lemma started:
  assumes "env_validator validator" "start_app validator env D = Inr D'"
  obtains c rules fee where "validator envValidationSchema env = Inr c" "load_rules (config_fraudRules c) = Inr rules"
    "internalTransferFeeMinor c = Inr (Finite (of_int fee))" "0 \<le> fee" "D' = D\<lparr>dp_config := c, dp_rules := rules, dp_transferFee := fee\<rparr>"
proof -
  from assms(2) obtain c rules q where c: "validator envValidationSchema env = Inr c" "load_rules (config_fraudRules c) = Inr rules"
    "internalTransferFeeMinor c = Inr q" "D' = D\<lparr>dp_config := c, dp_rules := rules, dp_transferFee := whole q\<rparr>"
    by (auto simp: start_app_def rule_engine_def result_simps split: sum.splits)
  from sound_number [OF validated_sound [OF assms(1) c(1)], of "''INTERNAL_TRANSFER_FEE_MINOR''" "IntMin 0" "SNum 0" 0]
  obtain fee where "q = Finite (of_int fee)" "0 \<le> fee"
    using c(3) by (auto simp: envValidationSchema_def internalTransferFeeMinor_def)
  with c show thesis by (intro that [of c rules fee]) (simp_all add: whole_def)
qed

lemma started_mode:
  assumes "env_validator validator" "validator envValidationSchema env = Inr c"
  shows "config_appMode c = Inr (start_mode env)"
proof -
  have entry: "(''APP_MODE'', OneOf [''api'', ''worker''], SText ''api'') \<in> set envValidationSchema"
    by (simp add: envValidationSchema_def)
  show ?thesis
    using env_validator.validated [OF assms entry schema_facts(1)] env_validator.chosen [OF assms entry schema_facts(1)]
    by (cases "map_of env ''APP_MODE''") (auto simp: config_appMode_def get_text_def getOrThrow_def start_mode_def)
qed

lemma application_fee:
  "application M entries R accounts L loans D \<Longrightarrow>
     application M entries R accounts L loans (D\<lparr>dp_config := cfg, dp_rules := rules, dp_transferFee := fee\<rparr>)"
  by (simp add: application_def application_axioms_def)

lemma unset_default:
  assumes "env_validator validator" "validator envValidationSchema env = Inr c" "(k, kind, d) \<in> set envValidationSchema"
    "map_of env k = None"
  shows "map_of c k = Some d"
  using env_validator.validated [OF assms(1-3) schema_facts(1)] assms(4) by simp

lemma default_engine:
  assumes "env_validator validator" "validator envValidationSchema env = Inr c" "map_of env ''FRAUD_RULES'' = None"
  shows "config_fraudRules c = [mobile_rule, night_rule]"
proof -
  have "map_of c ''FRAUD_RULES'' = Some (SText default_rules)"
    by (rule unset_default [OF assms(1,2) _ assms(3)]) (simp add: envValidationSchema_def)
  then show ?thesis by (simp add: config_fraudRules_def default_rules_split)
qed


definition sample_settings :: env_vars where
  "sample_settings = [(''INTERNAL_TRANSFER_FEE_MINOR'', ''2500''), (''FRAUD_RULES'', [])]"

lemma sample_start: "start_app simple_validate sample_settings sample_app_deps = Inr sample_app_deps"
proof -
  have "is_digit CHR ''2''" "is_digit CHR ''5''" "is_digit CHR ''0''" "digits_val ''2500'' = 2500" "fraudRules (Some []) = []"
    by code_simp+
  then have "start_app simple_validate sample_settings sample_app_deps = Inr (sample_app_deps\<lparr>dp_config := sample_config, dp_rules := [], dp_transferFee := 2500\<rparr>)"
    by (simp add: sample_config_def start_app_def rule_engine_def config_fraudRules_def internalTransferFeeMinor_def get_number_def getOrThrow_def
        envValidationSchema_def sample_settings_def whole_def)
  then show ?thesis by (simp add: sample_app_deps_def)
qed


lemma default_rules_block:
  assumes "load_rules [mobile_rule, night_rule] = Inr rules" "tq_channel q = Mobile" "5000000 < tq_amountMinor q"
  shows "fv_suspicious (evaluate rules (screening_context e q))"
    and "mobile_rule \<in> set (fv_matchedRules (evaluate rules (screening_context e q)))"
proof -
  have "5000000 < (of_int (tq_amountMinor q) :: rat)" using assms(3) by linarith
  with assms show "fv_suspicious (evaluate rules (screening_context e q))"
    and "mobile_rule \<in> set (fv_matchedRules (evaluate rules (screening_context e q)))"
    using default_rules_parse unfolding default_rules_split
    by (auto simp: evaluate_def screening_context_def context_get_def Let_def)
qed

text \<open>
  C9: A bank that is started without configured rules refuses large mobile transfers: an accepted
  request that moves more than 5,000,000 from a mobile is answered with status 403, naming the rule it broke,
  and the ledger stays as it is, whatever the accounts hold.
\<close>
theorem default_bank_blocks_large_mobile_transfers:
  assumes "env_validator validator" "start_app validator env D = Inr D'" "map_of env ''FRAUD_RULES'' = None"
    and "body_ok (dp_uuid D) TransferDto body" "text_of body ''channel'' = ''mobile''" "5000000 < int_of body ''amountMinor''"
    and "api D' c (Transactions (PostTransfer body)) s = (r, s')"
  shows "\<exists>response rules. r = Inl response \<and> resp_status response = 403 \<and>
    resp_details response = Some [(''matchedRules'', DList rules)] \<and> mobile_rule \<in> set rules \<and> ap_ledger s' = ap_ledger s"
proof -
  obtain cfg rules fee where cfg: "validator envValidationSchema env = Inr cfg" "load_rules (config_fraudRules cfg) = Inr rules"
    and D': "D' = D\<lparr>dp_config := cfg, dp_rules := rules, dp_transferFee := fee\<rparr>"
    by (rule started [OF assms(1,2)])
  let ?q = "transfer_request_of body" and ?e = "ca_env c 0"
  have q: "tq_channel ?q = Mobile" "5000000 < tq_amountMinor ?q"
    using assms(5,6) by (simp_all add: transfer_request_of_def channel_of_text_def)
  note block = default_rules_block [OF cfg(2) [unfolded default_engine [OF assms(1) cfg(1) assms(3)]] q, of ?e]
  define blocked where "blocked = DomainError FraudSuspected ''Transfer blocked by fraud rules''
      (Some [(''matchedRules'', DList (fv_matchedRules (evaluate rules (screening_context ?e ?q))))])"
  obtain x w' where t: "money_transfer (dp_manager D) fee rules ?e ?q (bank_of s) = (x, w')"
    by (cases "money_transfer (dp_manager D) fee rules ?e ?q (bank_of s)")
  then have x: "x = Inl blocked" and w': "bs_ledger w' = ap_ledger s"
    using money_transfer_blocked [OF block(1), of "dp_manager D" fee "bank_of s"] by (simp_all add: blocked_def)
  have exe: "cmd_execute (transfer_command_of (transfers_of D') (dp_manager D') body) ?e (bank_of s) = (Inl blocked, w')"
    using transfer_command_run [of "transfers_of D'" ?e body "bank_of s" x w' "dp_manager D'"] t by (simp add: D' x)
  obtain p t' where run: "run_command c (transfer_command_of (transfers_of D') (dp_manager D') body) s = (p, t')"
    by (cases "run_command c (transfer_command_of (transfers_of D') (dp_manager D') body) s")
  have "p = Inl blocked" "ap_ledger t' = ap_ledger s"
    using w' by (auto intro: run_command_result [OF run, unfolded exe])
  moreover have "body_ok (dp_uuid D') TransferDto body" using assms(4) by (simp add: D')
  ultimately have "api D' c (Transactions (PostTransfer body)) s = (Inl (exception_filter blocked), t')"
    using run by (simp add: api_def with_body_def validation_pipe_def)
  then show ?thesis
    using assms(7) block(2) \<open>ap_ledger t' = ap_ledger s\<close> by (auto simp: blocked_def)
qed

definition large_transfer_body :: request_body where
  "large_transfer_body =
     [(''fromAccountId'', BStr ''a''), (''toAccountId'', BStr ''b''), (''amountMinor'', BNum (Finite 6000000)),
      (''channel'', BStr ''mobile'')]"

theorem default_bank_blocks_large_mobile_transfers_witness:
  "\<exists>D' response s'. start_app simple_validate [] sample_app_deps = Inr D' \<and>
     api D' sample_call (Transactions (PostTransfer large_transfer_body)) sample_app = (Inl response, s') \<and>
     resp_status response = 403"
proof -
  obtain D' where D': "start_app simple_validate [] sample_app_deps = Inr D'"
    using default_rules_parse
    by (simp add: start_app_def rule_engine_def config_fraudRules_def internalTransferFeeMinor_def get_number_def getOrThrow_def
        envValidationSchema_def)
  obtain r s' where api: "api D' sample_call (Transactions (PostTransfer large_transfer_body)) sample_app = (r, s')"
    by (cases "api D' sample_call (Transactions (PostTransfer large_transfer_body)) sample_app")
  have "body_ok (dp_uuid sample_app_deps) TransferDto large_transfer_body"
    by (simp add: body_ok_def TransferDto_def large_transfer_body_def field_ok_def Let_def)
  moreover have "text_of large_transfer_body ''channel'' = ''mobile''" "5000000 < int_of large_transfer_body ''amountMinor''"
    by (simp_all add: large_transfer_body_def text_of_def int_of_def)
  ultimately have "\<exists>response. r = Inl response \<and> resp_status response = 403"
    using default_bank_blocks_large_mobile_transfers [OF simple_env.env_validator_axioms D' _ _ _ _ api] by auto
  with D' api show ?thesis by blast
qed

end
