(* ===== verification/Schema.thy ===== *)
theory Schema
  imports Prelude
begin

text \<open>
  The schema of the database (\<open>src/src/database/migrations/1726000000000-InitialSchema.ts\<close>) and what the
  entity classes say of it (\<open>src/src/database/entities/*.ts\<close>).

  A migration is the list of its statements, run in order inside one transaction; what a statement does is
  what the database documents of it, as far as the migration uses it. TypeORM never alters the schema
  (\<open>synchronize: false\<close>), so the tables of the migration and the columns of the entities have to agree by
  themselves.
\<close>

section \<open>Statements and the schema they change\<close>

datatype sql_type =
    Uuid_type
  | Varchar nat
  | Bigint_type
  | Integer_type
  | Numeric_type nat nat
  | Timestamptz
  | Jsonb
  | Text_type
  | Vector nat

record table_column =
  co_name :: string
  co_type :: sql_type
  co_notNull :: bool
  co_default :: "string option"
  co_primary :: bool
  co_unique :: bool
  co_check :: "string option"
  co_references :: "(string \<times> string) option"

definition plain :: "string \<Rightarrow> sql_type \<Rightarrow> table_column" where
  "plain n t = \<lparr>co_name = n, co_type = t, co_notNull = False, co_default = None, co_primary = False, co_unique = False,
     co_check = None, co_references = None\<rparr>"

definition not_null :: "string \<Rightarrow> sql_type \<Rightarrow> table_column" where
  "not_null n t = (plain n t)\<lparr>co_notNull := True\<rparr>"

definition with_default :: "string \<Rightarrow> string \<Rightarrow> sql_type \<Rightarrow> table_column" where
  "with_default d n t = (not_null n t)\<lparr>co_default := Some d\<rparr>"

text \<open>A primary key is not null, whether or not the statement says so.\<close>

definition generated_key :: table_column where
  "generated_key = (with_default ''gen_random_uuid()'' ''id'' Uuid_type)\<lparr>co_primary := True\<rparr>"

definition references_accounts :: "string \<Rightarrow> table_column" where
  "references_accounts n = (not_null n Uuid_type)\<lparr>co_references := Some (''accounts'', ''id'')\<rparr>"

datatype sql_statement =
    CreateExtension string
  | CreateTable string "table_column list"
  | CreateIndex string string "string list"
  | DropTable string

record schema =
  sc_extensions :: "string list"
  sc_tables :: "(string \<times> table_column list) list"
  sc_indexes :: "(string \<times> string \<times> string list) list"

definition relation_names :: "schema \<Rightarrow> string set" where
  "relation_names s = fst ` set (sc_tables s) \<union> fst ` set (sc_indexes s)"

definition references_ok :: "schema \<Rightarrow> table_column \<Rightarrow> bool" where
  "references_ok s c = (case co_references c of
     None \<Rightarrow> True
   | Some (t, k) \<Rightarrow> (case map_of (sc_tables s) t of None \<Rightarrow> False | Some cs \<Rightarrow> k \<in> co_name ` set cs))"

definition type_known :: "schema \<Rightarrow> table_column \<Rightarrow> bool" where
  "type_known s c = (case co_type c of Vector n \<Rightarrow> ''vector'' \<in> set (sc_extensions s) | _ \<Rightarrow> True)"

definition refers_to :: "string \<Rightarrow> string \<times> table_column list \<Rightarrow> bool" where
  "refers_to t x = (fst x \<noteq> t \<and> (\<exists>c \<in> set (snd x). map_option fst (co_references c) = Some t))"

fun run_statement :: "sql_statement \<Rightarrow> schema \<Rightarrow> string + schema" where
  "run_statement (CreateExtension x) s =
     Inr (if x \<in> set (sc_extensions s) then s else s\<lparr>sc_extensions := sc_extensions s @ [x]\<rparr>)"
| "run_statement (CreateTable t cs) s =
     (if t \<in> relation_names s then Inl (''relation '' @ t @ '' already exists'')
      else if \<not> list_all (references_ok s) cs then Inl ''referenced relation does not exist''
      else if \<not> list_all (type_known s) cs then Inl ''type does not exist''
      else Inr (s\<lparr>sc_tables := sc_tables s @ [(t, cs)]\<rparr>))"
| "run_statement (CreateIndex n t cols) s =
     (if n \<in> relation_names s then Inl (''relation '' @ n @ '' already exists'')
      else case map_of (sc_tables s) t of
        None \<Rightarrow> Inl (''relation '' @ t @ '' does not exist'')
      | Some cs \<Rightarrow> if set cols \<subseteq> co_name ` set cs then Inr (s\<lparr>sc_indexes := sc_indexes s @ [(n, t, cols)]\<rparr>)
          else Inl ''column does not exist'')"
| "run_statement (DropTable t) s =
     (if list_ex (refers_to t) (sc_tables s) then Inl (''cannot drop table '' @ t @ '' because other objects depend on it'')
      else Inr (s\<lparr>sc_tables := filter (\<lambda>x. fst x \<noteq> t) (sc_tables s),
                  sc_indexes := filter (\<lambda>x. fst (snd x) \<noteq> t) (sc_indexes s)\<rparr>))"

fun run_statements :: "sql_statement list \<Rightarrow> schema \<Rightarrow> string + schema" where
  "run_statements [] s = Inr s"
| "run_statements (q # qs) s = ebind (run_statement q s) (run_statements qs)"

section \<open>The migration\<close>

definition accounts_table :: "table_column list" where
  "accounts_table =
     [generated_key, (not_null ''account_number'' (Varchar 24))\<lparr>co_unique := True\<rparr>, not_null ''owner_name'' (Varchar 120),
      not_null ''type'' (Varchar 20), not_null ''currency'' (Varchar 3), plain ''product_code'' (Varchar 40),
      (with_default ''0'' ''balance_minor'' Bigint_type)\<lparr>co_check := Some ''balance_minor >= 0''\<rparr>,
      not_null ''daily_withdrawal_limit_minor'' Bigint_type, with_default ''0'' ''annual_interest_rate'' (Numeric_type 5 2),
      not_null ''status'' (Varchar 12), with_default ''1'' ''version'' Integer_type,
      with_default ''now()'' ''created_at'' Timestamptz, with_default ''now()'' ''updated_at'' Timestamptz]"

definition ledger_entries_table :: "table_column list" where
  "ledger_entries_table =
     [generated_key, references_accounts ''account_id'', not_null ''type'' (Varchar 20), not_null ''amount_minor'' Bigint_type,
      not_null ''balance_after_minor'' Bigint_type, not_null ''reference'' (Varchar 40),
      with_default [] ''description'' (Varchar 255), with_default ''now()'' ''created_at'' Timestamptz]"

definition loan_applications_table :: "table_column list" where
  "loan_applications_table =
     [generated_key, not_null ''applicant_name'' (Varchar 120), references_accounts ''account_id'',
      not_null ''amount_minor'' Bigint_type, not_null ''term_months'' Integer_type, not_null ''purpose'' (Varchar 80),
      not_null ''monthly_income_minor'' Bigint_type, not_null ''status'' (Varchar 16),
      with_default ''[]'' ''decision_log'' Jsonb, with_default ''now()'' ''created_at'' Timestamptz]"

definition notifications_table :: "table_column list" where
  "notifications_table =
     [(not_null ''event_id'' Uuid_type)\<lparr>co_primary := True\<rparr>, not_null ''event_type'' (Varchar 60),
      not_null ''message'' (Varchar 255), not_null ''payload'' Jsonb, with_default ''now()'' ''created_at'' Timestamptz]"

definition knowledge_chunks_table :: "table_column list" where
  "knowledge_chunks_table =
     [generated_key, not_null ''source'' (Varchar 200), not_null ''chunk_index'' Integer_type, not_null ''content'' Text_type,
      with_default ''{}'' ''metadata'' Jsonb, not_null ''embedding'' (Vector 768),
      with_default ''now()'' ''created_at'' Timestamptz]"

definition InitialSchema_up :: "sql_statement list" where
  "InitialSchema_up =
     [CreateExtension ''pgcrypto'', CreateExtension ''vector'',
      CreateTable ''accounts'' accounts_table,
      CreateIndex ''idx_accounts_owner'' ''accounts'' [''owner_name''],
      CreateTable ''ledger_entries'' ledger_entries_table,
      CreateIndex ''idx_ledger_account_time'' ''ledger_entries'' [''account_id'', ''created_at'', ''id''],
      CreateIndex ''idx_ledger_reference'' ''ledger_entries'' [''reference''],
      CreateTable ''loan_applications'' loan_applications_table,
      CreateTable ''notifications'' notifications_table,
      CreateTable ''knowledge_chunks'' knowledge_chunks_table,
      CreateIndex ''idx_knowledge_source'' ''knowledge_chunks'' [''source''],
      CreateIndex ''idx_knowledge_embedding'' ''knowledge_chunks'' [''embedding'']]"

definition InitialSchema_down :: "sql_statement list" where
  "InitialSchema_down =
     map DropTable [''knowledge_chunks'', ''notifications'', ''loan_applications'', ''ledger_entries'', ''accounts'']"

section \<open>Up and down\<close>

lemmas table_defs = accounts_table_def ledger_entries_table_def loan_applications_table_def notifications_table_def
  knowledge_chunks_table_def generated_key_def references_accounts_def with_default_def not_null_def plain_def

definition new_tables :: "(string \<times> table_column list) list" where
  "new_tables =
     [(''accounts'', accounts_table), (''ledger_entries'', ledger_entries_table), (''loan_applications'', loan_applications_table),
      (''notifications'', notifications_table), (''knowledge_chunks'', knowledge_chunks_table)]"

definition new_indexes :: "(string \<times> string \<times> string list) list" where
  "new_indexes =
     [(''idx_accounts_owner'', ''accounts'', [''owner_name'']),
      (''idx_ledger_account_time'', ''ledger_entries'', [''account_id'', ''created_at'', ''id'']),
      (''idx_ledger_reference'', ''ledger_entries'', [''reference'']),
      (''idx_knowledge_source'', ''knowledge_chunks'', [''source'']),
      (''idx_knowledge_embedding'', ''knowledge_chunks'', [''embedding''])]"

text \<open>A database in which the migration has not run: none of its names is taken, and nothing hangs on them.\<close>

definition before_migration :: "schema \<Rightarrow> bool" where
  "before_migration s \<longleftrightarrow>
     relation_names s \<inter> (fst ` set new_tables \<union> fst ` set new_indexes) = {} \<and>
     (\<forall>t \<in> fst ` set new_tables. \<forall>x \<in> set (sc_tables s). \<not> refers_to t x) \<and>
     (\<forall>x \<in> set (sc_indexes s). fst (snd x) \<notin> fst ` set new_tables)"

definition migrated :: "schema \<Rightarrow> schema" where
  "migrated s = \<lparr>sc_extensions = sc_extensions s @ filter (\<lambda>x. x \<notin> set (sc_extensions s)) [''pgcrypto'', ''vector''],
     sc_tables = sc_tables s @ new_tables, sc_indexes = sc_indexes s @ new_indexes\<rparr>"

lemma fresh_names:
  assumes "before_migration s" "n \<in> fst ` set new_tables \<union> fst ` set new_indexes"
  shows "map_of (sc_tables s) n = None" "n \<notin> fst ` set (sc_tables s)" "n \<notin> fst ` set (sc_indexes s)"
  using assms by (auto simp: before_migration_def relation_names_def map_of_eq_None_iff)

lemma table_references:
  "list_all (references_ok s) accounts_table" "list_all (references_ok s) notifications_table"
  "list_all (references_ok s) knowledge_chunks_table"
  "map_of (sc_tables s) ''accounts'' = Some accounts_table \<Longrightarrow>
     list_all (references_ok s) ledger_entries_table \<and> list_all (references_ok s) loan_applications_table"
  by (simp_all add: table_defs references_ok_def)

lemma table_types:
  "list_all (type_known s) accounts_table" "list_all (type_known s) ledger_entries_table"
  "list_all (type_known s) loan_applications_table" "list_all (type_known s) notifications_table"
  "''vector'' \<in> set (sc_extensions s) \<Longrightarrow> list_all (type_known s) knowledge_chunks_table"
  by (simp_all add: table_defs type_known_def)

lemma index_columns:
  "''owner_name'' \<in> co_name ` set accounts_table" "''source'' \<in> co_name ` set knowledge_chunks_table"
  "''embedding'' \<in> co_name ` set knowledge_chunks_table" "''reference'' \<in> co_name ` set ledger_entries_table"
  "{''account_id'', ''created_at'', ''id''} \<subseteq> co_name ` set ledger_entries_table"
  by (simp_all add: table_defs)

text \<open>One statement at a time, on a schema of which only the names matter.\<close>

definition add_extension :: "string \<Rightarrow> schema \<Rightarrow> schema" where
  "add_extension x s = s\<lparr>sc_extensions := sc_extensions s @ filter (\<lambda>y. y \<notin> set (sc_extensions s)) [x]\<rparr>"

definition add_table :: "string \<Rightarrow> table_column list \<Rightarrow> schema \<Rightarrow> schema" where
  "add_table t cs s = s\<lparr>sc_tables := sc_tables s @ [(t, cs)]\<rparr>"

definition add_index :: "string \<Rightarrow> string \<Rightarrow> string list \<Rightarrow> schema \<Rightarrow> schema" where
  "add_index n t cols s = s\<lparr>sc_indexes := sc_indexes s @ [(n, t, cols)]\<rparr>"

lemma run_added:
  "run_statements (CreateExtension x # qs) s = run_statements qs (add_extension x s)"
  "t \<notin> relation_names s \<Longrightarrow> list_all (references_ok s) cs \<Longrightarrow> list_all (type_known s) cs \<Longrightarrow>
     run_statements (CreateTable t cs # qs) s = run_statements qs (add_table t cs s)"
  "n \<notin> relation_names s \<Longrightarrow> map_of (sc_tables s) t = Some cs \<Longrightarrow> set cols \<subseteq> co_name ` set cs \<Longrightarrow>
     run_statements (CreateIndex n t cols # qs) s = run_statements qs (add_index n t cols s)"
  by (simp_all add: add_extension_def add_table_def add_index_def)

lemma run_taken: "t \<in> relation_names s \<Longrightarrow> run_statements (CreateTable t cs # qs) s = Inl (''relation '' @ t @ '' already exists'')"
  by simp

lemma names_added:
  "relation_names (add_extension x s) = relation_names s" "relation_names (add_table t cs s) = insert t (relation_names s)"
  "relation_names (add_index n t cols s) = insert n (relation_names s)"
  by (auto simp: relation_names_def add_extension_def add_table_def add_index_def)

lemma lookup_added:
  "map_of (sc_tables (add_extension x s)) u = map_of (sc_tables s) u"
  "map_of (sc_tables (add_index n t' cols s)) u = map_of (sc_tables s) u"
  "t \<notin> relation_names s \<Longrightarrow> map_of (sc_tables (add_table t cs s)) u = (if u = t then Some cs else map_of (sc_tables s) u)"
  using map_of_eq_None_iff [of "sc_tables s" t]
  by (auto simp: add_extension_def add_table_def add_index_def relation_names_def map_add_def split: option.splits)

lemma extensions_added:
  "set (sc_extensions (add_extension x s)) = insert x (set (sc_extensions s))"
  "sc_extensions (add_table t cs s) = sc_extensions s" "sc_extensions (add_index n t cols s) = sc_extensions s"
  by (auto simp: add_extension_def add_table_def add_index_def)

lemma up_migrates:
  assumes "before_migration s"
  shows "run_statements InitialSchema_up s = Inr (migrated s)"
proof -
  have "\<forall>n \<in> fst ` set new_tables \<union> fst ` set new_indexes. n \<notin> relation_names s"
    using assms unfolding before_migration_def by blast
  note fresh = this [unfolded new_tables_def new_indexes_def, simplified]
  have "run_statements InitialSchema_up s = run_statements []
      (add_index ''idx_knowledge_embedding'' ''knowledge_chunks'' [''embedding'']
      (add_index ''idx_knowledge_source'' ''knowledge_chunks'' [''source'']
      (add_table ''knowledge_chunks'' knowledge_chunks_table
      (add_table ''notifications'' notifications_table
      (add_table ''loan_applications'' loan_applications_table
      (add_index ''idx_ledger_reference'' ''ledger_entries'' [''reference'']
      (add_index ''idx_ledger_account_time'' ''ledger_entries'' [''account_id'', ''created_at'', ''id'']
      (add_table ''ledger_entries'' ledger_entries_table
      (add_index ''idx_accounts_owner'' ''accounts'' [''owner_name'']
      (add_table ''accounts'' accounts_table
      (add_extension ''vector'' (add_extension ''pgcrypto'' s))))))))))))"
    unfolding InitialSchema_up_def
    by (simp del: run_statements.simps
        add: fresh run_added names_added lookup_added extensions_added table_references table_types index_columns [simplified])
  also have "\<dots> = Inr (migrated s)"
    by (simp add: add_index_def add_table_def add_extension_def migrated_def new_tables_def new_indexes_def)
  finally show ?thesis .
qed

lemma table_refers:
  "\<not> refers_to t (n, accounts_table)" "\<not> refers_to t (n, notifications_table)" "\<not> refers_to t (n, knowledge_chunks_table)"
  "refers_to t (n, ledger_entries_table) \<longleftrightarrow> n \<noteq> t \<and> t = ''accounts''"
  "refers_to t (n, loan_applications_table) \<longleftrightarrow> n \<noteq> t \<and> t = ''accounts''"
  by (auto simp: refers_to_def table_defs)

lemma old_parts:
  assumes "before_migration s" "t \<in> fst ` set new_tables"
  shows "\<not> list_ex (refers_to t) (sc_tables s)" "filter (\<lambda>x. fst x \<noteq> t) (sc_tables s) = sc_tables s"
    "filter (\<lambda>x. fst (snd x) \<noteq> t) (sc_indexes s) = sc_indexes s"
proof -
  show "\<not> list_ex (refers_to t) (sc_tables s)"
    using assms by (auto simp: before_migration_def list_ex_iff)
  have "t \<notin> fst ` set (sc_tables s)" using fresh_names(2) [OF assms(1), of t] assms(2) by blast
  then show "filter (\<lambda>x. fst x \<noteq> t) (sc_tables s) = sc_tables s"
    by (simp add: filter_id_conv) force
  show "filter (\<lambda>x. fst (snd x) \<noteq> t) (sc_indexes s) = sc_indexes s"
    using assms by (simp add: filter_id_conv before_migration_def) metis
qed

lemma down_restores:
  assumes "before_migration s"
  shows "run_statements InitialSchema_down (migrated s) = Inr ((migrated s)\<lparr>sc_tables := sc_tables s, sc_indexes := sc_indexes s\<rparr>)"
proof -
  have "\<forall>t \<in> fst ` set new_tables. \<not> list_ex (refers_to t) (sc_tables s) \<and> filter (\<lambda>x. fst x \<noteq> t) (sc_tables s) = sc_tables s \<and>
      filter (\<lambda>x. fst (snd x) \<noteq> t) (sc_indexes s) = sc_indexes s"
    using old_parts [OF assms] by blast
  note old = this [unfolded new_tables_def, simplified]
  show ?thesis
    by (simp add: InitialSchema_down_def migrated_def new_tables_def new_indexes_def old table_refers)
qed

text \<open>
  The migration goes up and back down on any database in which its names are free: every statement of \<open>up\<close>
  finds what it refers to, in the order they are written, and adds exactly the five tables and five indexes;
  running it again is refused; and \<open>down\<close> drops the tables in an order the foreign keys allow and
  leaves the tables and indexes that were there before.
\<close>
theorem migration_up_down:
  assumes "before_migration s"
  shows "\<exists>s1 s2. run_statements InitialSchema_up s = Inr s1 \<and>
    sc_tables s1 = sc_tables s @ new_tables \<and> sc_indexes s1 = sc_indexes s @ new_indexes \<and>
    (\<exists>x. run_statements InitialSchema_up s1 = Inl x) \<and>
    run_statements InitialSchema_down s1 = Inr s2 \<and> sc_tables s2 = sc_tables s \<and> sc_indexes s2 = sc_indexes s"
proof -
  have "''accounts'' \<in> relation_names (migrated s)"
    by (simp add: migrated_def relation_names_def new_tables_def)
  then have "\<exists>x. run_statements InitialSchema_up (migrated s) = Inl x"
    by (simp add: InitialSchema_up_def run_added(1) run_taken names_added del: run_statements.simps)
  with up_migrates [OF assms] down_restores [OF assms] show ?thesis
    by (intro exI [of _ "migrated s"] exI [of _ "(migrated s)\<lparr>sc_tables := sc_tables s, sc_indexes := sc_indexes s\<rparr>"])
      (simp add: migrated_def)
qed

definition typeorm_schema :: schema where
  "typeorm_schema = \<lparr>sc_extensions = [''plpgsql''], sc_tables = [(''migrations'', [not_null ''timestamp'' Bigint_type])], sc_indexes = []\<rparr>"

theorem migration_up_down_witness:
  "\<exists>s1 s2. run_statements InitialSchema_up typeorm_schema = Inr s1 \<and> length (sc_tables s1) = 6 \<and>
     run_statements InitialSchema_down s1 = Inr s2 \<and> sc_tables s2 = sc_tables typeorm_schema"
proof -
  have "before_migration typeorm_schema"
    by (simp add: before_migration_def typeorm_schema_def relation_names_def new_tables_def new_indexes_def refers_to_def
        not_null_def plain_def)
  from migration_up_down [OF this] show ?thesis
    by (elim ex_forward) (simp add: new_tables_def typeorm_schema_def)
qed

section \<open>The entities\<close>

text \<open>
  What the decorators of an entity say: the table, and of every property its column, its type and whether it
  may be null. A column without a name of its own is called like its property.
\<close>

record entity_column =
  ec_property :: string
  ec_name :: string
  ec_type :: sql_type
  ec_nullable :: bool

definition mapped :: "string \<Rightarrow> string \<Rightarrow> sql_type \<Rightarrow> entity_column" where
  "mapped p n t = \<lparr>ec_property = p, ec_name = n, ec_type = t, ec_nullable = False\<rparr>"

record entity_class =
  en_table :: string
  en_columns :: "entity_column list"
  en_indexes :: "string list list"

definition AccountEntity :: entity_class where
  "AccountEntity = \<lparr>en_table = ''accounts'', en_columns =
     [mapped ''id'' ''id'' Uuid_type, mapped ''accountNumber'' ''account_number'' (Varchar 24),
      mapped ''ownerName'' ''owner_name'' (Varchar 120), mapped ''type'' ''type'' (Varchar 20),
      mapped ''currency'' ''currency'' (Varchar 3), (mapped ''productCode'' ''product_code'' (Varchar 40))\<lparr>ec_nullable := True\<rparr>,
      mapped ''balanceMinor'' ''balance_minor'' Bigint_type,
      mapped ''dailyWithdrawalLimitMinor'' ''daily_withdrawal_limit_minor'' Bigint_type,
      mapped ''annualInterestRate'' ''annual_interest_rate'' (Numeric_type 5 2), mapped ''status'' ''status'' (Varchar 12),
      mapped ''version'' ''version'' Integer_type, mapped ''createdAt'' ''created_at'' Timestamptz,
      mapped ''updatedAt'' ''updated_at'' Timestamptz],
     en_indexes = [[''account_number''], [''owner_name'']]\<rparr>"

definition LedgerEntryEntity :: entity_class where
  "LedgerEntryEntity = \<lparr>en_table = ''ledger_entries'', en_columns =
     [mapped ''id'' ''id'' Uuid_type, mapped ''accountId'' ''account_id'' Uuid_type, mapped ''type'' ''type'' (Varchar 20),
      mapped ''amountMinor'' ''amount_minor'' Bigint_type, mapped ''balanceAfterMinor'' ''balance_after_minor'' Bigint_type,
      mapped ''reference'' ''reference'' (Varchar 40), mapped ''description'' ''description'' (Varchar 255),
      mapped ''createdAt'' ''created_at'' Timestamptz],
     en_indexes = [[''account_id'', ''created_at'', ''id''], [''reference'']]\<rparr>"

definition LoanApplicationEntity :: entity_class where
  "LoanApplicationEntity = \<lparr>en_table = ''loan_applications'', en_columns =
     [mapped ''id'' ''id'' Uuid_type, mapped ''applicantName'' ''applicant_name'' (Varchar 120),
      mapped ''accountId'' ''account_id'' Uuid_type, mapped ''amountMinor'' ''amount_minor'' Bigint_type,
      mapped ''termMonths'' ''term_months'' Integer_type, mapped ''purpose'' ''purpose'' (Varchar 80),
      mapped ''monthlyIncomeMinor'' ''monthly_income_minor'' Bigint_type, mapped ''status'' ''status'' (Varchar 16),
      mapped ''decisionLog'' ''decision_log'' Jsonb, mapped ''createdAt'' ''created_at'' Timestamptz],
     en_indexes = []\<rparr>"

definition NotificationEntity :: entity_class where
  "NotificationEntity = \<lparr>en_table = ''notifications'', en_columns =
     [mapped ''eventId'' ''event_id'' Uuid_type, mapped ''eventType'' ''event_type'' (Varchar 60),
      mapped ''message'' ''message'' (Varchar 255), mapped ''payload'' ''payload'' Jsonb,
      mapped ''createdAt'' ''created_at'' Timestamptz],
     en_indexes = []\<rparr>"

definition ALL_ENTITIES :: "entity_class list" where
  "ALL_ENTITIES = [AccountEntity, LedgerEntryEntity, LoanApplicationEntity, NotificationEntity]"

text \<open>An entity fits a schema: the same columns, each with its type and null alike, and every index is backed.\<close>

definition column_fits :: "table_column \<Rightarrow> entity_column \<Rightarrow> bool" where
  "column_fits c e \<longleftrightarrow> co_name c = ec_name e \<and> co_type c = ec_type e \<and> co_notNull c = (\<not> ec_nullable e)"

definition backed :: "schema \<Rightarrow> string \<Rightarrow> string list \<Rightarrow> bool" where
  "backed s t cols \<longleftrightarrow> (t, cols) \<in> snd ` set (sc_indexes s) \<or>
     (\<exists>cs. map_of (sc_tables s) t = Some cs \<and> (\<exists>c \<in> set cs. (co_unique c \<or> co_primary c) \<and> cols = [co_name c]))"

definition entity_fits :: "schema \<Rightarrow> entity_class \<Rightarrow> bool" where
  "entity_fits s e \<longleftrightarrow> (case map_of (sc_tables s) (en_table e) of
     None \<Rightarrow> False
   | Some cs \<Rightarrow> list_all2 column_fits cs (en_columns e) \<and> list_all (backed s (en_table e)) (en_indexes e))"

lemma entities_fit_new:
  assumes "before_migration s"
  shows "list_all (entity_fits (migrated s)) ALL_ENTITIES"
proof -
  have l: "map_of (sc_tables (migrated s)) t = Some cs" if "map_of new_tables t = Some cs" for t cs
    using that fresh_names(1) [OF assms, of t] map_of_SomeD [OF that]
    by (force simp: migrated_def map_add_def split: option.splits)
  have t: "map_of (sc_tables (migrated s)) ''accounts'' = Some accounts_table"
    "map_of (sc_tables (migrated s)) ''ledger_entries'' = Some ledger_entries_table"
    "map_of (sc_tables (migrated s)) ''loan_applications'' = Some loan_applications_table"
    "map_of (sc_tables (migrated s)) ''notifications'' = Some notifications_table"
    by (rule l, simp add: new_tables_def)+
  have i: "x \<in> snd ` set new_indexes \<Longrightarrow> x \<in> snd ` set (sc_indexes (migrated s))" for x
    by (auto simp: migrated_def)
  have b: "backed (migrated s) ''accounts'' [''account_number'']" "backed (migrated s) ''accounts'' [''owner_name'']"
    "backed (migrated s) ''ledger_entries'' [''account_id'', ''created_at'', ''id'']" "backed (migrated s) ''ledger_entries'' [''reference'']"
    unfolding backed_def
    by (simp add: t table_defs, (rule disjI1, rule i, simp add: new_indexes_def)+)
  show ?thesis
    by (simp add: ALL_ENTITIES_def entity_fits_def AccountEntity_def LedgerEntryEntity_def LoanApplicationEntity_def
        NotificationEntity_def t b) (simp add: table_defs column_fits_def mapped_def)
qed

text \<open>
  Entities and migration agree: on any database the migration has been run on, every entity has its table
  with exactly its columns, each of the declared type and nullable where the class says so and nowhere
  else, and every declared index exists.
\<close>
theorem entities_match_migration:
  assumes "before_migration s" "run_statements InitialSchema_up s = Inr s1" "e \<in> set ALL_ENTITIES"
  shows "entity_fits s1 e"
  using entities_fit_new [OF assms(1)] up_migrates [OF assms(1)] assms(2,3) by (simp add: list_all_iff)

theorem entities_match_migration_witness:
  "\<exists>s1. run_statements InitialSchema_up typeorm_schema = Inr s1 \<and> entity_fits s1 AccountEntity"
proof -
  have b: "before_migration typeorm_schema"
    by (simp add: before_migration_def typeorm_schema_def relation_names_def new_tables_def new_indexes_def refers_to_def
        not_null_def plain_def)
  from entities_match_migration [OF b up_migrates [OF b], of AccountEntity] up_migrates [OF b] show ?thesis
    by (simp add: ALL_ENTITIES_def)
qed

end
