(* ===== verification/Migrations.thy ===== *)
theory Migrations
  imports Config Schema
begin

text \<open>
  The connection to the database (\<open>src/src/database/data-source.ts\<close>, \<open>src/src/database/database.module.ts\<close>)
  and the program that runs the migrations before the API starts (\<open>src/src/database/run-migrations.ts\<close>).

  Whether an attempt to connect succeeds is an argument, by the number of the attempt. Running the pending
  migrations is TypeORM's: the locale \<open>migration_tool\<close> states what it documents.
\<close>

section \<open>Options\<close>

record db_connection =
  cn_host :: string
  cn_port :: jsnum
  cn_username :: string
  cn_password :: string
  cn_database :: string
  cn_ssl :: bool

record data_source_options =
  ds_connection :: db_connection
  ds_rejectUnauthorized :: "bool option"
  ds_entities :: "entity_class list"
  ds_migrations :: "(string \<times> sql_statement list) list"
  ds_synchronize :: bool

definition MIGRATIONS :: "(string \<times> sql_statement list) list" where
  "MIGRATIONS = [(''InitialSchema1726000000000'', InitialSchema_up)]"

text \<open>\<open>ssl: ssl ? { rejectUnauthorized: false } : false\<close>: \<open>None\<close> is a connection without TLS.\<close>

definition buildDataSourceOptions :: "db_connection \<Rightarrow> data_source_options" where
  "buildDataSourceOptions db =
     \<lparr>ds_connection = db, ds_rejectUnauthorized = (if cn_ssl db then Some False else None), ds_entities = ALL_ENTITIES,
      ds_migrations = MIGRATIONS, ds_synchronize = False\<rparr>"

definition env_or :: "env_vars \<Rightarrow> string \<Rightarrow> string \<Rightarrow> string" where
  "env_or env k d = (case map_of env k of None \<Rightarrow> d | Some s \<Rightarrow> s)"

definition dataSourceFromEnv :: "env_vars \<Rightarrow> data_source_options" where
  "dataSourceFromEnv env = buildDataSourceOptions
     \<lparr>cn_host = env_or env ''DB_HOST'' ''localhost'',
      cn_port = (case map_of env ''DB_PORT'' of None \<Rightarrow> Finite 5432 | Some s \<Rightarrow> js_number s),
      cn_username = env_or env ''DB_USER'' ''bank'', cn_password = env_or env ''DB_PASSWORD'' ''bank_password'',
      cn_database = env_or env ''DB_NAME'' ''bank'', cn_ssl = (map_of env ''DB_SSL'' = Some ''true'')\<rparr>"

record module_options =
  mo_source :: data_source_options
  mo_migrationsRun :: bool
  mo_retryAttempts :: nat
  mo_retryDelay :: nat

definition databaseModuleOptions :: "configuration \<Rightarrow> err + module_options" where
  "databaseModuleOptions config = ebind (config_database config) (\<lambda>c. Inr
     \<lparr>mo_source = buildDataSourceOptions \<lparr>cn_host = dc_host c, cn_port = dc_port c, cn_username = dc_username c,
        cn_password = dc_password c, cn_database = dc_database c, cn_ssl = dc_ssl c\<rparr>,
      mo_migrationsRun = dc_runMigrations c, mo_retryAttempts = 10, mo_retryDelay = 3000\<rparr>)"

section \<open>Connecting\<close>

text \<open>\<open>/ECONNREFUSED|ENOTFOUND|.../i.test(message)\<close>.\<close>

definition transient :: "string \<Rightarrow> bool" where
  "transient message = list_ex (\<lambda>p. js_includes (toLowerCase p) (toLowerCase message))
     [''ECONNREFUSED'', ''ENOTFOUND'', ''EAI_AGAIN'', ''timeout'', ''starting up'', ''terminating'', ''does not exist'']"

text \<open>
  The loop from attempt \<open>k\<close> on. \<open>world k\<close> is the message attempt \<open>k\<close> fails with, or \<open>None\<close>; the list collects
  the waits. The result is the error that is thrown, or whether the data source is initialized.
\<close>

function connect_loop :: "(nat \<Rightarrow> string option) \<Rightarrow> nat \<Rightarrow> nat list \<Rightarrow> (string + bool) \<times> nat list" where
  "connect_loop world k waits =
     (if 30 < k then (Inr False, waits)
      else case world k of
        None \<Rightarrow> (Inr True, waits)
      | Some message \<Rightarrow> if transient message then connect_loop world (Suc k) (waits @ [2000]) else (Inl message, waits))"
  by pat_completeness auto
termination by (relation "measure (\<lambda>(world, k, waits). 31 - k)") auto

declare connect_loop.simps [simp del]

section \<open>Running\<close>

record database =
  db_schema :: schema
  db_executed :: "string list"

definition pending :: "(string \<times> sql_statement list) list \<Rightarrow> database \<Rightarrow> (string \<times> sql_statement list) list" where
  "pending ms db = filter (\<lambda>m. fst m \<notin> set (db_executed db)) ms"

type_synonym migration_runner =
  "(string \<times> sql_statement list) list \<Rightarrow> database \<Rightarrow> (string + string list) \<times> database"

record runner_end =
  re_exitCode :: nat
  re_waits :: "nat list"
  re_output :: string

definition run_main :: "migration_runner \<Rightarrow> (nat \<Rightarrow> string option) \<Rightarrow> env_vars \<Rightarrow> database \<Rightarrow> runner_end \<times> database" where
  "run_main runAll world env db = (case connect_loop world 1 [] of
     (Inl message, waits) \<Rightarrow> (\<lparr>re_exitCode = 1, re_waits = waits, re_output = message\<rparr>, db)
   | (Inr False, waits) \<Rightarrow> (\<lparr>re_exitCode = 1, re_waits = waits, re_output = ''Could not connect to the database''\<rparr>, db)
   | (Inr True, waits) \<Rightarrow>
       (case runAll (ds_migrations (dataSourceFromEnv env)) db of
          (Inl message, db') \<Rightarrow> (\<lparr>re_exitCode = 1, re_waits = waits, re_output = message\<rparr>, db')
        | (Inr applied, db') \<Rightarrow>
            (\<lparr>re_exitCode = 0, re_waits = waits,
              re_output = (if applied \<noteq> [] then ''Applied: '' @ js_join '', '' applied else ''Database already up to date'')\<rparr>, db')))"

section \<open>What running the pending migrations means\<close>

locale migration_tool =
  fixes runAll :: migration_runner
  assumes applied: "runAll ms db = (Inr names, db') \<Longrightarrow> names = map fst (pending ms db) \<and>
      run_statements (concat (map snd (pending ms db))) (db_schema db) = Inr (db_schema db') \<and> db_executed db' = db_executed db @ names"
    and runs: "run_statements (concat (map snd (pending ms db))) (db_schema db) = Inr s \<Longrightarrow> is_ok (fst (runAll ms db))"
begin

lemma nothing_pending:
  assumes "set (map fst ms) \<subseteq> set (db_executed db)"
  obtains db' where "runAll ms db = (Inr [], db')" "db_schema db' = db_schema db" "db_executed db' = db_executed db"
proof -
  have p: "pending ms db = []" using assms by (auto simp: pending_def filter_empty_conv)
  obtain r db' where q: "runAll ms db = (r, db')" by (cases "runAll ms db")
  with runs [of ms db "db_schema db"] p obtain names where "r = Inr names" by (cases r) auto
  with applied [of ms db names db'] q p that show thesis by simp
qed

lemma initial_schema:
  assumes "db_executed db = []" "before_migration (db_schema db)"
  obtains db' where "runAll MIGRATIONS db = (Inr [''InitialSchema1726000000000''], db')" "db_schema db' = migrated (db_schema db)"
    "db_executed db' = [''InitialSchema1726000000000'']"
proof -
  have p: "pending MIGRATIONS db = MIGRATIONS" using assms(1) by (simp add: pending_def MIGRATIONS_def)
  obtain r db' where q: "runAll MIGRATIONS db = (r, db')" by (cases "runAll MIGRATIONS db")
  have up: "run_statements (concat (map snd MIGRATIONS)) (db_schema db) = Inr (migrated (db_schema db))"
    using up_migrates [OF assms(2)] by (simp add: MIGRATIONS_def)
  from runs [of MIGRATIONS db, unfolded p, OF this] q obtain names where "r = Inr names" by (cases r) auto
  with applied [of MIGRATIONS db names db'] q p up assms(1) that show thesis by (simp add: MIGRATIONS_def)
qed

end

text \<open>One after the other, each all or nothing.\<close>

fun sequential_run :: "(string \<times> sql_statement list) list \<Rightarrow> string list \<Rightarrow> database \<Rightarrow> (string + string list) \<times> database" where
  "sequential_run [] done db = (Inr done, db)"
| "sequential_run ((n, qs) # ms) done db = (case run_statements qs (db_schema db) of
     Inl x \<Rightarrow> (Inl x, db)
   | Inr s \<Rightarrow> sequential_run ms (done @ [n]) \<lparr>db_schema = s, db_executed = db_executed db @ [n]\<rparr>)"

lemma run_statements_append: "run_statements (xs @ ys) s = ebind (run_statements xs s) (run_statements ys)"
proof (induction xs s rule: run_statements.induct)
  case (2 q qs s)
  then show ?case by (cases "run_statement q s") simp_all
qed simp

lemma sequential_run_spec:
  "sequential_run ms done db = (Inr names, db') \<Longrightarrow> names = done @ map fst ms \<and>
     run_statements (concat (map snd ms)) (db_schema db) = Inr (db_schema db') \<and> db_executed db' = db_executed db @ map fst ms"
  "run_statements (concat (map snd ms)) (db_schema db) = Inr s \<Longrightarrow> is_ok (fst (sequential_run ms done db))"
  by (induction ms "done" db rule: sequential_run.induct) (auto simp: run_statements_append result_simps split: sum.splits)

interpretation sequential: migration_tool "\<lambda>ms db. sequential_run (pending ms db) [] db"
  by unfold_locales (use sequential_run_spec in force)+

section \<open>The loop\<close>

lemma connect_loop_skip:
  assumes "k + n \<le> 31" "\<forall>j < n. \<exists>m. world (k + j) = Some m \<and> transient m"
  shows "connect_loop world k waits = connect_loop world (k + n) (waits @ replicate n 2000)"
  using assms
proof (induction n arbitrary: k waits)
  case (Suc n)
  from Suc.prems(2) [rule_format, of 0] obtain m where "world k = Some m" "transient m" by auto
  moreover have "connect_loop world (Suc k) (waits @ [2000]) = connect_loop world (Suc k + n) ((waits @ [2000]) @ replicate n 2000)"
    using Suc.prems by (intro Suc.IH) force+
  ultimately show ?case using Suc.prems(1) by (simp add: connect_loop.simps [of world k])
qed simp

definition fails_so_far :: "(nat \<Rightarrow> string option) \<Rightarrow> nat \<Rightarrow> bool" where
  "fails_so_far world n \<longleftrightarrow> (\<forall>j < n. \<exists>m. world (Suc j) = Some m \<and> transient m)"

text \<open>The three ways the loop ends: connected, refused for good, or out of attempts.\<close>

lemma connect_loop_cases:
  obtains n where "n < 30" "fails_so_far world n" "world (Suc n) = None" "connect_loop world 1 [] = (Inr True, replicate n 2000)"
  | n x where "n < 30" "fails_so_far world n" "world (Suc n) = Some x" "\<not> transient x"
      "connect_loop world 1 [] = (Inl x, replicate n 2000)"
  | "fails_so_far world 30" "connect_loop world 1 [] = (Inr False, replicate 30 2000)"
proof (cases "fails_so_far world 30")
  case True
  then have "connect_loop world 1 [] = connect_loop world 31 (replicate 30 2000)"
    using connect_loop_skip [of 1 30 world "[]"] by (simp add: fails_so_far_def)
  also have "\<dots> = (Inr False, replicate 30 2000)" by (simp add: connect_loop.simps [of world 31])
  finally show thesis using True that(3) by blast
next
  case False
  define P where "P j \<longleftrightarrow> \<not> (\<exists>m. world (Suc j) = Some m \<and> transient m)" for j
  obtain j where j: "j < 30" "P j" using False unfolding fails_so_far_def P_def by blast
  define n where "n = (LEAST j. P j)"
  have n: "\<not> (\<exists>m. world (Suc n) = Some m \<and> transient m)" using LeastI [of P, OF j(2)] unfolding n_def P_def .
  have "n \<le> j" unfolding n_def by (rule Least_le [of P, OF j(2)])
  have before: "fails_so_far world n"
    unfolding fails_so_far_def
  proof (intro allI impI)
    fix i assume "i < n"
    then have "\<not> P i" unfolding n_def by (rule not_less_Least)
    then show "\<exists>m. world (Suc i) = Some m \<and> transient m" unfolding P_def by blast
  qed
  then have "connect_loop world 1 [] = connect_loop world (Suc n) (replicate n 2000)"
    using connect_loop_skip [of 1 n world "[]"] \<open>n \<le> j\<close> j(1) by (simp add: fails_so_far_def)
  then show thesis
    using n before \<open>n \<le> j\<close> j(1) that(1,2) by (cases "world (Suc n)") (simp_all add: connect_loop.simps [of world "Suc n"])
qed

lemma fails_so_far_mono: "fails_so_far world n \<Longrightarrow> m \<le> n \<Longrightarrow> fails_so_far world m"
  by (simp add: fails_so_far_def)

lemma fails_contra: "fails_so_far world n \<Longrightarrow> m < n \<Longrightarrow> world (Suc m) \<noteq> None"
  by (auto simp: fails_so_far_def)


definition empty_database :: database where
  "empty_database = \<lparr>db_schema = typeorm_schema, db_executed = []\<rparr>"

definition starting_world :: "nat \<Rightarrow> string option" where
  "starting_world k = (if k < 3 then Some ''connect ECONNREFUSED 127.0.0.1:5432'' else None)"


end
