(* ===== verification/Delivery.thy ===== *)
theory Delivery
  imports Endpoints
begin

text \<open>
  From a request to the customer: the process that serves the API, the topics of the broker, the worker
  (\<open>src/src/modules/messaging/consumers/notification.consumer.ts\<close>) and the table both processes share,
  put together. The worker reads what the forwarding observer of the bus sent; its rows are what
  \<open>GET /api/notifications\<close> answers.
\<close>

section \<open>How long a sentence gets\<close>

lemma length_toFixed:
  assumes "\<bar>x\<bar> < 10 ^ k" "d \<le> k + d"
  shows "length (toFixed d x) \<le> k + d + 3"
proof -
  define n where "n = nat \<lfloor>\<bar>x\<bar> * 10 ^ d + 1 / 2\<rfloor>"
  have "\<bar>x\<bar> * 10 ^ d < 10 ^ (k + d)" using assms(1) by (simp add: power_add)
  then have "\<lfloor>\<bar>x\<bar> * 10 ^ d + 1 / 2\<rfloor> \<le> \<lfloor>(10 ^ (k + d) :: rat)\<rfloor>"
  proof -
    have "\<lfloor>\<bar>x\<bar> * 10 ^ d + 1 / 2\<rfloor> < (10 ^ (k + d) :: int) + 1"
      unfolding floor_less_iff using \<open>\<bar>x\<bar> * 10 ^ d < 10 ^ (k + d)\<close> by simp
    then show ?thesis by simp
  qed
  then have "n \<le> 10 ^ (k + d)" by (simp add: n_def nat_le_iff)
  also have "\<dots> < (10 :: nat) ^ Suc (k + d)" by simp
  finally have "length (show_nat n) \<le> Suc (k + d)" by (rule length_show_nat) simp
  then show ?thesis
    by (simp add: toFixed_def Let_def length_padStart flip: n_def)
qed

lemma length_pkr:
  assumes "\<bar>i\<bar> \<le> 2 ^ 53"
  shows "length (pkr (Some (JNum i))) \<le> 19"
proof -
  have "\<bar>of_int i / 100 :: rat\<bar> \<le> 2 ^ 53 / 100"
    using assms by (simp add: divide_right_mono)
  moreover have "\<bar>dbl (of_int i / 100)\<bar> \<le> \<bar>of_int i / 100\<bar> + \<bar>of_int i / 100\<bar> / 2 ^ 53"
    using dbl_error [of "of_int i / 100"] by linarith
  ultimately have b: "\<bar>dbl (of_int i / 100)\<bar> < 10 ^ 14" by simp
  from length_toFixed [OF this, of 2] b show ?thesis by (simp add: pkr_def)
qed

lemma length_reference:
  assumes "length pfx = 3" "length (nodeTag g) \<le> 4" "rnd1296 e < 1296"
  shows "length (fst (next_reference pfx e g)) \<le> 28"
proof -
  have "length (filter (\<lambda>c. c \<noteq> CHR ''-'') (take 10 (isoNow e))) \<le> 10"
    by (rule le_trans [OF length_filter_le]) simp
  moreover have "length (show_nat ((sequence g + 1) mod 1000000)) \<le> 6"
    using length_show_nat [of "(sequence g + 1) mod 1000000" 6] by simp
  ultimately show ?thesis
    using assms length_show_base36 [OF assms(3)]
    by (simp add: next_reference_def Let_def length_padStart toUpperCase_def)
qed

section \<open>The worker and the shared table\<close>

definition deliver_to_inbox :: "worker_platform \<Rightarrow> delivery \<Rightarrow> 'db app \<Rightarrow> 'db app" where
  "deliver_to_inbox w m s = s\<lparr>ap_notifications := ws_notifications (deliver_to_worker w
     \<lparr>ws_notifications = ap_notifications s, ws_deadLetters = [], ws_dbUp = dy_dbUp m, ws_brokerUp = True\<rparr> m)\<rparr>"

text \<open>No request writes the table of notifications.\<close>

lemma on_parts_notifications [simp]:
  "ap_notifications (snd (on_accounts f g s)) = ap_notifications s"
  "ap_notifications (snd (on_ledger f' g s)) = ap_notifications s"
  "ap_notifications (snd (on_commands f'' g s)) = ap_notifications s"
  "ap_notifications (snd (on_drafts h s)) = ap_notifications s"
  "ap_notifications (snd (reading k s)) = ap_notifications s"
  by (simp_all add: on_accounts_def on_ledger_def on_commands_def on_drafts_def reading_def set_ledger_def case_prod_beta)

lemma with_body_notifications:
  "(\<And>b. ap_notifications (snd (k b s)) = ap_notifications s) \<Longrightarrow> ap_notifications (snd (with_body D cls body k s)) = ap_notifications s"
  by (simp add: with_body_def split: sum.splits)

lemma with_uuid_notifications:
  "(\<And>u. ap_notifications (snd (k u s)) = ap_notifications s) \<Longrightarrow> ap_notifications (snd (with_uuid D i k s)) = ap_notifications s"
  by (simp add: with_uuid_def split: sum.splits)

lemma command_notifications: "ap_notifications (snd (run_command c cmd s)) = ap_notifications s"
  by (simp add: run_command_def)

lemma transactions_notifications: "ap_notifications (snd (transactions_controller D c q s)) = ap_notifications s"
  by (cases q) (auto intro!: with_body_notifications with_uuid_notifications command_notifications)

lemma latest_newest:
  assumes "\<forall>m \<in> set rows. nt_createdAt m < nt_createdAt n"
  shows "\<exists>ns. latest (rows @ [n]) = n # ns"
proof -
  let ?f = "\<lambda>n. - nt_createdAt n" and ?l = "sort_key (\<lambda>n. - nt_createdAt n) (rows @ [n])"
  obtain h ns where l: "?l = h # ns" by (cases ?l) (metis append_is_Nil_conv list.distinct(1) length_0_conv length_sort)
  have "n \<in> set ?l" "set ?l = insert n (set rows)" by simp_all
  moreover have "sorted (map ?f ?l)" by simp
  ultimately have "?f h \<le> ?f n" "h \<in> insert n (set rows)" unfolding l by auto
  with assms have "h = n" by force
  with l show ?thesis by (simp add: latest_def numeral_eq_Suc)
qed

section \<open>A transfer is notified\<close>

lemma transfer_publishes:
  assumes "entity_store M entries" "money_transfer M fee rules e q s = (Inr r, s')"
  shows "ls_bus (bs_ledger s') = app_publish (createEvent e 0 MONEY_TRANSFERRED
      (transfer_payload (request_input q (tx_feeMinor r)) (tx_reference r))) (ls_bus (bs_ledger s))"
    and "tx_reference r = fst (next_reference ''TRF'' e (ls_refs (bs_ledger s)))"
proof -
  let ?q = "request_input q (tq_fee q + fee_for fee (tq_channel q))"
  from assms(2) obtain res l where t: "transfer M e ?q (bs_ledger s) = (Inr res, l)"
    and r: "tx_reference r = tr_reference res" and l: "bs_ledger s' = l"
    by (auto simp: money_transfer_def audit_decorator_def fraud_decorator_def fee_decorator_def ledger_transfer_service_def
        Let_def tq_fee_def split: prod.splits sum.splits if_splits)
  show "tx_reference r = fst (next_reference ''TRF'' e (ls_refs (bs_ledger s)))"
    by (rule entity_store.transfer_ok_spec [OF assms(1) t]) (simp add: r)
  note ref = this
  show "ls_bus (bs_ledger s') = app_publish (createEvent e 0 MONEY_TRANSFERRED
      (transfer_payload (request_input q (tx_feeMinor r)) (tx_reference r))) (ls_bus (bs_ledger s))"
    by (rule entity_store.transfer_ok_spec [OF assms(1) t]) (simp add: l ref money_transfer_ok(2) [OF assms(2)])
qed

lemma sent_transfer_valid:
  assumes "joi_uuid j (ti_fromAccountId input)" "joi_uuid j (ti_toAccountId input)" "0 < ti_amountMinor input"
    "ti_amountMinor input \<le> 9007199254740991" "0 \<le> ti_feeMinor input" "ti_feeMinor input \<le> 9007199254740991" "ref \<noteq> []"
  shows "schema_ok j (payloadSchema MONEY_TRANSFERRED) (transfer_payload input ref)"
  using assms by (simp add: schema_ok_def transfer_payload_def)

lemma transfer_sentence:
  "formatNotification (event_name MONEY_TRANSFERRED) (transfer_payload input ref) =
     ''Transfer of '' @ pkr (Some (JNum (ti_amountMinor input))) @ '' completed (fee '' @
     pkr (Some (JNum (ti_feeMinor input))) @ ''). Ref '' @ ref @ ''.''"
  using event_of_name_event_name [of MONEY_TRANSFERRED]
  by (simp add: formatNotification_def Let_def transfer_payload_def shown_def)

lemma delivered_row:
  assumes "wp_parse w (dy_value m) = Inr (event_json e)" "validateEvent (wp_joi w) (event_json e)" "dy_dbUp m"
    "length (formatNotification (event_name (eventType e)) (payload e)) \<le> 255"
    "eventId e \<notin> nt_eventId ` set (ap_notifications s)"
  shows "ap_notifications (deliver_to_inbox w m s) = ap_notifications s @ [notification_of (dy_now m) (event_json e)]"
proof -
  let ?s = "\<lparr>ws_notifications = ap_notifications s, ws_deadLetters = [], ws_dbUp = dy_dbUp m, ws_brokerUp = True\<rparr>"
  have "accepted w m = Some (notification_of (dy_now m) (event_json e))"
    using assms(1-4) by (simp add: accepted_def notification_of_event)
  with deliver_accepted [of ?s w m] assms(5) show ?thesis
    by (simp add: deliver_to_inbox_def put_row_def notification_of_event)
qed

text \<open>The parties agree on what a UUID is, and the event of the request has an id and a time they accept.\<close>

definition accepts_event :: "'db app_deps \<Rightarrow> worker_platform \<Rightarrow> env \<Rightarrow> bool" where
  "accepts_event D w e \<longleftrightarrow> (\<forall>i. dp_uuid D i \<longrightarrow> joi_uuid (wp_joi w) i) \<and> joi_uuid (wp_joi w) (eventIds e 0) \<and>
     joi_isoDate (wp_joi w) (isoNow e)"

definition kafka_ready :: "bus_state \<Rightarrow> bool" where
  "kafka_ready b \<longleftrightarrow> kafkaEnabled b \<and> connected b \<and> brokerUp b"

lemma posted_transfer_event:
  assumes "application M entries R accounts L loans D" "0 \<le> dp_transferFee D"
    and "api D c (Transactions (PostTransfer body)) s = (Inr a, s')"
    and "accepts_event D w (ca_env c 0)" "rnd1296 (ca_env c 0) < 1296" "length (nodeTag (ls_refs (ap_ledger s))) \<le> 4"
    and "int_of body ''amountMinor'' \<le> 9007199254740991" "dp_transferFee D + 10000 \<le> 9007199254740991"
  obtains r ev where "a = CommandAnswer (ca_uuid c) (TransferDone r)" "ls_bus (ap_ledger s') = app_publish ev (ls_bus (ap_ledger s))"
    "eventId ev = eventIds (ca_env c 0) 0" "validateEvent (wp_joi w) (event_json ev)"
    "formatNotification (event_name (eventType ev)) (payload ev) =
       ''Transfer of '' @ pkr (Some (JNum (int_of body ''amountMinor''))) @ '' completed (fee '' @
       pkr (Some (JNum (tx_feeMinor r))) @ ''). Ref '' @ tx_reference r @ ''.''"
    "length (formatNotification (event_name (eventType ev)) (payload ev)) \<le> 255"
proof -
  let ?e = "ca_env c 0" and ?q = "transfer_request_of body"
  have M: "dp_manager D = M" by (rule application.manager [OF assms(1)])
  obtain r w' where ok: "body_ok (dp_uuid D) TransferDto body"
    and t: "money_transfer M (dp_transferFee D) (dp_rules D) ?e ?q (bank_of s) = (Inr r, w')"
    and a: "a = CommandAnswer (ca_uuid c) (TransferDone r)" and s': "ap_ledger s' = bs_ledger w'"
    by (rule post_transfer_result [OF assms(3), unfolded M])
  note sent = transfer_publishes [OF application.store [OF assms(1)] t]
  define input where "input = request_input ?q (tx_feeMinor r)"
  define ev where "ev = createEvent ?e 0 MONEY_TRANSFERRED (transfer_payload input (tx_reference r))"
  have input: "ti_amountMinor input = int_of body ''amountMinor''" "ti_feeMinor input = tx_feeMinor r"
    "ti_fromAccountId input = tq_fromAccountId ?q" "ti_toAccountId input = tq_toAccountId ?q" "0 < int_of body ''amountMinor''"
    using accepted_transfer_parts(3) [OF ok] by (simp_all add: input_def request_input_def transfer_request_of_def)
  have fee: "0 \<le> tx_feeMinor r" "tx_feeMinor r \<le> 9007199254740991"
    using assms(2,8) money_transfer_ok(2) [OF t] accepted_transfer_fee [OF ok] by (simp_all add: fee_for_def)
  have ref: "length (tx_reference r) \<le> 28" "tx_reference r \<noteq> []"
    using sent(2) length_reference [OF _ assms(6,5), of "''TRF''"] by (simp_all add: next_reference_def Let_def)
  have sentence: "formatNotification (event_name (eventType ev)) (payload ev) =
      ''Transfer of '' @ pkr (Some (JNum (int_of body ''amountMinor''))) @ '' completed (fee '' @
      pkr (Some (JNum (tx_feeMinor r))) @ ''). Ref '' @ tx_reference r @ ''.''"
    unfolding ev_def createEvent_simps transfer_sentence input ..
  have "length (pkr (Some (JNum (int_of body ''amountMinor'')))) \<le> 19" "length (pkr (Some (JNum (tx_feeMinor r)))) \<le> 19"
    using input(5) assms(7) fee by (auto intro!: length_pkr)
  then have short: "length (formatNotification (event_name (eventType ev)) (payload ev)) \<le> 255"
    using ref(1) unfolding sentence by simp
  have "validateEvent (wp_joi w) (event_json ev)"
    unfolding validateEvent_event_json ev_def createEvent_simps
    using assms(4,7) accepted_transfer_parts(1,2) [OF ok] input fee ref(2)
    by (intro conjI sent_transfer_valid) (simp_all add: accepts_event_def)
  moreover have "ls_bus (ap_ledger s') = app_publish ev (ls_bus (ap_ledger s))"
    using sent(1) by (simp add: s' ev_def input_def)
  ultimately show thesis
    using that [OF a _ _ _ sentence short] by (simp add: ev_def)
qed


definition connected_app :: "(tables \<times> loan list) app" where
  "connected_app = set_ledger ((ap_ledger sample_app)\<lparr>ls_bus := sample_bus\<lparr>kafkaEnabled := True, connected := True, brokerUp := True\<rparr>\<rparr>)
     sample_app"

lemma connected_app_simps [simp]:
  "ap_db connected_app = (sample_db, [])" "kafka_ready (ls_bus (ap_ledger connected_app))"
  "nodeTag (ls_refs (ap_ledger connected_app)) = ''OCAL''" "ap_notifications connected_app = []"
  "kafkaSent (ls_bus (ap_ledger connected_app)) = []"
  by (simp_all add: connected_app_def kafka_ready_def set_ledger_def) (simp_all add: sample_app_def sample_bus_def)


end
