(* ===== verification/Columns.thy ===== *)
theory Columns
  imports Delivery Schema
begin

text \<open>
  What the application writes into the ledger fits the columns of the migration. The entity manager of the
  model accepts every text; the lemmas here show that the limits of \<open>ledger_entries\<close> are never met, whatever
  is asked of the endpoints: descriptions are measured by the request classes, references have a fixed form, a
  reversal repeats a reference that is in the table, and an account number has its 24 characters.
\<close>

section \<open>Texts and columns\<close>

definition text_fits :: "table_column list \<Rightarrow> string \<Rightarrow> string \<Rightarrow> bool" where
  "text_fits cs c s = (case find (\<lambda>x. co_name x = c) cs of
     None \<Rightarrow> False
   | Some x \<Rightarrow> (case co_type x of Varchar n \<Rightarrow> length s \<le> n | _ \<Rightarrow> True))"

definition entry_fits :: "ledger_entry \<Rightarrow> bool" where
  "entry_fits r \<longleftrightarrow> text_fits ledger_entries_table ''type'' (entry_type_name (entry_type r)) \<and>
     text_fits ledger_entries_table ''reference'' (entry_reference r) \<and>
     text_fits ledger_entries_table ''description'' (entry_description r)"

lemma entry_fits_lengths: "entry_fits r \<longleftrightarrow> length (entry_reference r) \<le> 40 \<and> length (entry_description r) \<le> 255"
  by (cases "entry_type r") (simp_all add: entry_fits_def text_fits_def table_defs)

lemma number_fits_length: "text_fits accounts_table ''account_number'' s \<longleftrightarrow> length s \<le> 24"
  by (simp add: text_fits_def table_defs)

definition posting_fits :: "posting \<Rightarrow> bool" where
  "posting_fits p \<longleftrightarrow> length (pg_reference p) \<le> 40 \<and> length (pg_description p) \<le> 255"

lemma posting_of_fits: "posting_fits (posting_of r) = entry_fits r"
  by (simp add: posting_fits_def posting_of_def entry_fits_lengths)

definition rows_fit :: "'db entity_manager \<Rightarrow> ('db \<Rightarrow> ledger_entry list) \<Rightarrow> 'db \<Rightarrow> bool" where
  "rows_fit M entries db \<longleftrightarrow> (\<forall>r \<in> set (entries db). entry_fits r) \<and>
     (\<forall>i a. em_findAccount M db i = Some a \<longrightarrow> text_fits accounts_table ''account_number'' (accountNumber a))"

definition ledger_fits :: "'db entity_manager \<Rightarrow> ('db \<Rightarrow> ledger_entry list) \<Rightarrow> 'db ledger_state \<Rightarrow> bool" where
  "ledger_fits M entries l \<longleftrightarrow> rows_fit M entries (ls_db l) \<and> length (nodeTag (ls_refs l)) \<le> 4"

definition good_env :: "env \<Rightarrow> bool" where
  "good_env e \<longleftrightarrow> rnd1296 e < 1296"

lemma reference_fits:
  "ledger_fits M entries l \<Longrightarrow> good_env e \<Longrightarrow> length pfx = 3 \<Longrightarrow> length (fst (next_reference pfx e (ls_refs l))) \<le> 28"
  using length_reference by (simp add: ledger_fits_def good_env_def)

lemma applies_fit:
  assumes "applies M entries ps db db'" "\<forall>p \<in> set ps. posting_fits p" "rows_fit M entries db"
  shows "rows_fit M entries db'"
proof -
  obtain es where es: "entries db' = entries db @ es" "map posting_of es = ps" using applies_entries [OF assms(1)] by blast
  have "entry_fits r" if "r \<in> set es" for r
    using assms(2) that by (auto simp flip: es(2) posting_of_fits)
  moreover have "text_fits accounts_table ''account_number'' (accountNumber a')" if f: "em_findAccount M db' i = Some a'" for i a'
  proof -
    from f assms(1) obtain a where a: "em_findAccount M db i = Some a" unfolding applies_def by fastforce
    with applies_account [OF assms(1)] f have "same_terms a a'" by fastforce
    with a assms(3) same_termsD(6) show ?thesis by (fastforce simp: rows_fit_def)
  qed
  ultimately show ?thesis using assms(3) by (auto simp: rows_fit_def es(1))
qed

section \<open>The operations of the ledger\<close>

lemma refs_kept [simp]:
  "nodeTag (ls_refs (snd (deposit M e i n opts st))) = nodeTag (ls_refs st)"
  "nodeTag (ls_refs (snd (withdraw M e i n opts st))) = nodeTag (ls_refs st)"
  "nodeTag (ls_refs (snd (transfer M e input st))) = nodeTag (ls_refs st)"
  by (auto simp: deposit_def withdraw_def transfer_def emit_def nodeTag_next Let_def case_prod_beta split: sum.splits)

lemma emit_reversed_refs: "ls_refs (emit_reversed e k ref rr es st) = ls_refs st"
  by (induction es arbitrary: k st) (simp_all add: emit_def)

lemma reverse_refs [simp]: "nodeTag (ls_refs (snd (reverse M e ref st))) = nodeTag (ls_refs st)"
  by (auto simp: reverse_def emit_reversed_refs nodeTag_next Let_def case_prod_beta split: sum.splits)

definition description_fits :: "string option \<Rightarrow> bool" where
  "description_fits d \<longleftrightarrow> (\<forall>t. d = Some t \<longrightarrow> length t \<le> 255)"

lemma deposit_fits:
  assumes "entity_store M entries" "ledger_fits M entries st" "good_env e" "description_fits (po_description opts)"
  shows "ledger_fits M entries (snd (deposit M e i n opts st))"
proof (cases "deposit M e i n opts st")
  case (Pair r st')
  have "rows_fit M entries (ls_db st')"
  proof (cases r)
    case (Inl x)
    with Pair deposit_failed [of M e i n opts st x st'] assms(2) show ?thesis by (simp add: ledger_fits_def)
  next
    case (Inr p)
    show ?thesis
      by (rule entity_store.deposit_ok_spec [OF assms(1) Pair [unfolded Inr]], erule applies_fit)
        (use assms reference_fits [OF assms(2,3), of "''DEP''"] in
          \<open>auto simp: posting_fits_def description_fits_def ledger_fits_def split: option.splits\<close>)
  qed
  then show ?thesis using assms(2) refs_kept(1) [of M e i n opts st] by (simp add: ledger_fits_def Pair)
qed

lemma withdraw_fits:
  assumes "entity_store M entries" "ledger_fits M entries st" "good_env e" "description_fits (po_description opts)"
  shows "ledger_fits M entries (snd (withdraw M e i n opts st))"
proof (cases "withdraw M e i n opts st")
  case (Pair r st')
  have "rows_fit M entries (ls_db st')"
  proof (cases r)
    case (Inl x)
    with Pair withdraw_failed [of M e i n opts st x st'] assms(2) show ?thesis by (simp add: ledger_fits_def)
  next
    case (Inr p)
    show ?thesis
      by (rule entity_store.withdraw_ok_spec [OF assms(1) Pair [unfolded Inr]], erule applies_fit)
        (use assms reference_fits [OF assms(2,3), of "''WDL''"] in
          \<open>auto simp: posting_fits_def description_fits_def ledger_fits_def split: option.splits\<close>)
  qed
  then show ?thesis using assms(2) refs_kept(2) [of M e i n opts st] by (simp add: ledger_fits_def Pair)
qed

lemma transfer_fits:
  assumes "entity_store M entries" "ledger_fits M entries st" "good_env e" "description_fits (ti_description input)"
  shows "ledger_fits M entries (snd (transfer M e input st))"
proof (cases "transfer M e input st")
  case (Pair r st')
  have "rows_fit M entries (ls_db st')"
  proof (cases r)
    case (Inl x)
    with Pair transfer_failed [of M e input st x st'] assms(2) show ?thesis by (simp add: ledger_fits_def)
  next
    case (Inr res)
    show ?thesis
    proof (rule entity_store.transfer_ok_spec [OF assms(1) Pair [unfolded Inr]])
      fix src dst
      assume a: "em_findAccount M (ls_db st) (ti_fromAccountId input) = Some src"
        "em_findAccount M (ls_db st) (ti_toAccountId input) = Some dst"
        and ps: "applies M entries (transfer_postings input (fst (next_reference ''TRF'' e (ls_refs st)))
           (transfer_description input src dst)) (ls_db st) (ls_db st')"
      have "length (accountNumber src) \<le> 24" "length (accountNumber dst) \<le> 24"
        using a assms(2) by (auto simp: ledger_fits_def rows_fit_def number_fits_length)
      then have "length (transfer_description input src dst) \<le> 255"
        using assms(4) by (simp add: transfer_description_def description_fits_def split: option.splits)
      with ps show ?thesis
        using assms(2) reference_fits [OF assms(2,3), of "''TRF''"]
        by (elim applies_fit) (auto simp: transfer_postings_def posting_fits_def ledger_fits_def)
    qed
  qed
  then show ?thesis using assms(2) refs_kept(3) [of M e input st] by (simp add: ledger_fits_def Pair)
qed

lemma reverse_fits:
  assumes "entity_store M entries" "ledger_fits M entries st" "good_env e"
  shows "ledger_fits M entries (snd (reverse M e ref st))"
proof (cases "reverse M e ref st")
  case (Pair r st')
  have "rows_fit M entries (ls_db st')"
  proof (cases r)
    case (Inl x)
    with Pair reverse_failed [of M e ref st x st'] assms(2) show ?thesis by (simp add: ledger_fits_def)
  next
    case (Inr q)
    obtain rr n where q: "q = (rr, n)" by (cases q)
    obtain es where es: "es \<noteq> []" "mset es = mset (filter (\<lambda>r. entry_reference r = ref) (entries (ls_db st)))"
      and ps: "applies M entries (map (reversal_posting ref rr) es) (ls_db st) (ls_db st')"
      and rr: "rr = fst (next_reference ''REV'' e (ls_refs st))"
      using entity_store.reverse_ok_spec [OF assms(1) Pair [unfolded Inr q]] by metis
    obtain x where "x \<in> set (entries (ls_db st))" "entry_reference x = ref"
      using hd_in_set [OF es(1)] mset_eq_setD [OF es(2)] by auto
    then have "length ref \<le> 40" using assms(2) by (auto simp: ledger_fits_def rows_fit_def entry_fits_lengths)
    with ps show ?thesis
      using assms(2) reference_fits [OF assms(2,3), of "''REV''"]
      by (elim applies_fit) (auto simp: reversal_posting_def posting_fits_def ledger_fits_def REVERSAL_PREFIX_def rr)
  qed
  then show ?thesis using assms(2) reverse_refs [of M e ref st] by (simp add: ledger_fits_def Pair)
qed

section \<open>Accounts, onboarding and jobs\<close>

lemma changeStatus_refs [simp]: "ls_refs (snd (changeStatus M e i action st)) = ls_refs st"
  by (auto simp: changeStatus_def status_write_def emit_def split: sum.splits option.splits prod.splits)

lemma initial_deposit_fits:
  assumes "entity_store M entries" "ledger_fits M entries st" "good_env e"
  shows "ledger_fits M entries (snd (initial_deposit M e i n st))"
  using deposit_fits [OF assms, of "\<lparr>po_description = Some ''Initial deposit'', po_type = None\<rparr>" i n] assms(2)
  by (auto simp: initial_deposit_def description_fits_def split: prod.splits)

text \<open>Sixteen digits and a number of two digits.\<close>

definition digits_ok :: "nat list \<times> nat \<Rightarrow> bool" where
  "digits_ok rnd \<longleftrightarrow> length (fst rnd) = 16 \<and> (\<forall>d \<in> set (fst rnd). d < 10) \<and> snd rnd < 100"

lemma length_number:
  assumes "digits_ok rnd"
  shows "length (newAccountNumber rnd) \<le> 24"
proof -
  have "length (concat (map show_nat ds)) = length ds" if "\<forall>d \<in> set ds. d < 10" for ds
    using that by (induction ds) (simp_all add: show_nat.simps)
  moreover have "length (show_nat (snd rnd)) \<le> 2"
    using assms length_show_nat [of "snd rnd" 2] by (simp add: digits_ok_def)
  ultimately show ?thesis using assms by (simp add: newAccountNumber_def digits_ok_def)
qed

context account_store
begin

lemma changeStatus_fits:
  assumes "ledger_fits M entries st"
  shows "ledger_fits M entries (snd (changeStatus M e i action st))"
proof (cases "changeStatus M e i action st")
  case (Pair r st')
  show ?thesis
  proof (cases r)
    case (Inl x)
    with Pair changeStatus_pool_free [of M e i action st] assms show ?thesis by simp
  next
    case (Inr saved)
    show ?thesis
      by (rule changeStatus_ok [OF Pair [unfolded Inr]])
        (use assms changeStatus_refs [of M e i action st] in \<open>auto simp: ledger_fits_def rows_fit_def Pair\<close>)
  qed
qed

lemma open_fits:
  assumes "ad_repository d = R" "ledger_fits M entries (as_ledger s)" "digits_ok rnd"
  shows "ledger_fits M entries (as_ledger (snd (open_account d e rnd dto s)))"
proof (cases "open_account d e rnd dto s")
  case (Pair r s')
  show ?thesis
  proof (cases r)
    case (Inl x)
    with Pair open_account_error [of d e rnd dto s x s'] assms show ?thesis by simp
  next
    case (Inr a)
    obtain p h b db' where i: "ar_insert R (as_db s) b (newAccountNumber rnd) = Some (db', a)"
      and s': "s' = s\<lparr>as_heap := h, as_ledger := emit e 0 ACCOUNT_OPENED (opened_payload a) ((as_ledger s)\<lparr>ls_db := db'\<rparr>)\<rparr>"
      using open_account_ok [OF Pair [unfolded Inr]] assms(1) by metis
    have "accountNumber a = newAccountNumber rnd" using repo_insert [OF i] by (auto simp: new_row_def)
    then show ?thesis
      using repo_insert [OF i] assms(2) length_number [OF assms(3)]
      by (auto simp: Pair s' emit_def ledger_fits_def rows_fit_def number_fits_length)
  qed
qed

lemma compensate_fits:
  assumes "ledger_fits M entries st" "good_env e1"
  shows "ledger_fits M entries (snd (compensate M e1 e2 i ref x st))"
proof -
  have "ledger_fits M entries (snd (reverse M e1 y st))" for y
    by (rule reverse_fits [OF entity_store_axioms assms])
  from changeStatus_fits [OF this] this changeStatus_fits [OF assms(1)] show ?thesis
    by (auto simp: compensate_def case_prod_beta split: sum.splits)
qed

lemma onboard_fits:
  assumes d: "ad_manager d = M" "ad_repository d = R" and fits: "ledger_fits M entries (as_ledger s)"
    and env: "\<And>k. good_env (es k)" "digits_ok rnd"
  shows "ledger_fits M entries (as_ledger (snd (onboardCustomer d es rnd inp s)))"
proof (cases "open_account d (es 0) rnd (onboard_dto inp) s")
  case (Pair r s1)
  have fits1: "ledger_fits M entries (as_ledger s1)"
    using open_fits [OF d(2) fits env(2), of "es 0" "onboard_dto inp"] by (simp add: Pair)
  show ?thesis
  proof (cases r)
    case (Inl x)
    with Pair fits1 show ?thesis by (simp add: onboardCustomer_def Let_def)
  next
    case (Inr account)
    obtain q l where dep: "initial_deposit M (es 1) (acc_id account) (oc_initialDepositMinor inp) (as_ledger s1) = (q, l)"
      by fastforce
    have fits2: "ledger_fits M entries l"
      using initial_deposit_fits [OF entity_store_axioms fits1 env(1), of 1 "acc_id account" "oc_initialDepositMinor inp"]
      by (simp only: dep snd_conv)
    obtain c l1 where cs: "changeStatus M (es 2) (acc_id account) Activate l = (c, l1)" by fastforce
    have fits3: "ledger_fits M entries l1"
      using changeStatus_fits [OF fits2, of "es 2" "acc_id account" Activate] by (simp add: cs)
    have emitted: "ledger_fits M entries (emit (es 5) 0 CUSTOMER_ONBOARDED p l1)" for p
      using fits3 by (simp add: ledger_fits_def emit_def)
    show ?thesis
      using compensate_fits [OF fits2 env(1)] compensate_fits [OF fits3 env(1)] emitted Pair Inr
      by (cases q; cases c) (auto simp: onboardCustomer_def d dep cs case_prod_beta Let_def present_ledger
          simp del: One_nat_def split: sum.splits)
  qed
qed

end

lemma profit_text: "length (fst (calculate_interest t b r)) \<le> 40"
  by (cases t) (auto simp: calculate_interest_def Let_def)

lemma interest_fits:
  assumes "entity_store M entries"
  shows "eod_step (InterestPostingJob M R) good_env (ledger_fits M entries)"
proof
  fix e st and a :: account
  assume e: "good_env e" and fits: "ledger_fits M entries st"
  obtain strategy n where c: "calculate_interest (acc_type a) (balanceMinor a) (annualInterestRate a) = (strategy, n)"
    by (cases "calculate_interest (acc_type a) (balanceMinor a) (annualInterestRate a)")
  let ?o = "\<lparr>po_description = Some (''Monthly profit ('' @ strategy @ '')''), po_type = Some INTEREST\<rparr>"
  have "description_fits (po_description ?o)"
    using profit_text [of "acc_type a" "balanceMinor a" "annualInterestRate a"] by (simp add: description_fits_def c)
  note dep = deposit_fits [OF assms fits e this, of "acc_id a" n]
  have "snd (interest_process M e a st) = (if n \<le> 0 then st else snd (deposit M e (acc_id a) n ?o st))"
    by (simp add: interest_process_def c split: prod.splits sum.splits)
  then show "ledger_fits M entries (snd (ej_process (InterestPostingJob M R) e a st))"
    using dep fits by (simp add: InterestPostingJob_def)
qed

lemma job_fits:
  assumes "entity_store M entries" "\<And>k. good_env (es k)" "ledger_fits M entries st"
  shows "ledger_fits M entries (snd (operations_run M R es name st))"
proof -
  have "ledger_fits M entries (snd (run_job (InterestPostingJob M R) es st))"
    by (rule eod_step.run_keeps [OF interest_fits [OF assms(1)] assms(2,3)])
  moreover have "snd (run_job (DormancyReviewJob M R 180) es st) = st"
    by (rule dormancy_job.run_keeps [OF TrueI refl])
  ultimately show ?thesis using operations_run_state(1) [of M R es name st] assms(3) by auto
qed

section \<open>The endpoints\<close>

definition fits_endpoint :: "'db entity_manager \<Rightarrow> ('db \<Rightarrow> ledger_entry list) \<Rightarrow> ('db app \<Rightarrow> (err + 'a) \<times> 'db app) \<Rightarrow> bool" where
  "fits_endpoint M entries f \<longleftrightarrow> (\<forall>s. app_inv M entries s \<longrightarrow> ledger_fits M entries (ap_ledger s) \<longrightarrow>
     ledger_fits M entries (ap_ledger (snd (f s))))"

named_theorems fitting "endpoints that keep the ledger within its columns"

lemma fits_safe: "(\<And>s. ap_ledger (snd (f s)) = ap_ledger s) \<Longrightarrow> fits_endpoint M entries f"
  by (simp add: fits_endpoint_def)

lemma fits_reading [fitting]: "fits_endpoint M entries (reading f)"
  by (rule fits_safe) (simp add: reading_def)

lemma fits_drafts [fitting]: "fits_endpoint M entries (on_drafts f)"
  by (rule fits_safe) (simp add: on_drafts_def case_prod_beta)

lemma fits_ingest [fitting]: "fits_endpoint M entries (ai_controller D c AiIngest)"
  by (rule fits_safe) (simp add: case_prod_beta)

lemma fits_with_body [fitting]:
  "(\<And>b. body_ok (dp_uuid D) cls b \<Longrightarrow> fits_endpoint M entries (k b)) \<Longrightarrow> fits_endpoint M entries (with_body D cls body k)"
  by (auto simp: fits_endpoint_def with_body_def validation_pipe_def)

lemma fits_with_uuid [fitting]: "(\<And>u. fits_endpoint M entries (k u)) \<Longrightarrow> fits_endpoint M entries (with_uuid D i k)"
  by (auto simp: fits_endpoint_def with_uuid_def split: sum.splits)

lemma fits_on_accounts [fitting]:
  "(\<And>s. ledger_fits M entries (as_ledger s) \<Longrightarrow> ledger_fits M entries (as_ledger (snd (f s)))) \<Longrightarrow>
     fits_endpoint M entries (on_accounts f g)"
  by (simp add: fits_endpoint_def on_accounts_def case_prod_beta)

lemma fits_on_ledger [fitting]:
  "(\<And>l. ledger_fits M entries l \<Longrightarrow> ledger_fits M entries (snd (f l))) \<Longrightarrow> fits_endpoint M entries (on_ledger f g)"
  by (simp add: fits_endpoint_def on_ledger_def set_ledger_def case_prod_beta)

definition command_fits :: "'db entity_manager \<Rightarrow> ('db \<Rightarrow> ledger_entry list) \<Rightarrow> env \<Rightarrow> 'db bank_state bank_command \<Rightarrow> bool" where
  "command_fits M entries e c \<longleftrightarrow> (\<forall>w. ledger_fits M entries (bs_ledger w) \<longrightarrow>
     ledger_fits M entries (bs_ledger (snd (cmd_execute c e w))))"

lemma fits_run [fitting]:
  assumes "command_fits M entries (ca_env c 0) cmd"
  shows "fits_endpoint M entries (run_command c cmd)"
  unfolding fits_endpoint_def
proof (intro allI impI)
  fix s assume fits: "ledger_fits M entries (ap_ledger s)"
  obtain r s' where r: "run_command c cmd s = (r, s')" by (cases "run_command c cmd s")
  have "ledger_fits M entries (ap_ledger s')"
    by (rule run_command_result [OF r]) (use assms fits in \<open>simp add: command_fits_def\<close>)
  then show "ledger_fits M entries (ap_ledger (snd (run_command c cmd s)))" by (simp add: r)
qed

lemma fits_undo [fitting]:
  assumes "entity_store M entries" "good_env e"
  shows "fits_endpoint M entries (on_commands (undo i e) g)"
  unfolding fits_endpoint_def
proof (intro allI impI)
  fix s assume inv: "app_inv M entries s" and fits: "ledger_fits M entries (ap_ledger s)"
  have rev: "ledger_fits M entries (snd (reverse M e ref (ap_ledger s)))" for ref
    by (rule reverse_fits [OF assms(1) fits assms(2)])
  have "cmd_undo c = undo_by_reverse M" if "map_of (ap_commands s) i = Some (c, x)" for c x
    using inv map_of_SomeD [OF that] by (auto simp: app_inv_def commands_ok_def)
  then have "bs_ledger (snd (snd (undo i e (ap_commands s, bank_of s)))) = ap_ledger s \<or>
      (\<exists>ref. bs_ledger (snd (snd (undo i e (ap_commands s, bank_of s)))) = snd (reverse M e ref (ap_ledger s)))"
    by (auto simp: undo_def undo_by_reverse_def case_prod_beta split: option.splits sum.splits)
  with rev fits show "ledger_fits M entries (ap_ledger (snd (on_commands (undo i e) g s)))"
    by (auto simp: on_commands_def set_ledger_def case_prod_beta)
qed

lemma described_fits:
  assumes "body_ok u cls body" "optional ''description'' [IsString, MaxLength 200] \<in> set cls"
  shows "description_fits (text_option body ''description'')"
  using optional_text [OF body_ok_field [OF assms]] by (fastforce simp: description_fits_def)

lemma deposit_command_fits:
  assumes "entity_store M entries" "good_env e" "description_fits d"
  shows "command_fits M entries e (DepositCommand M i n d)"
  using deposit_fits [OF assms(1) _ assms(2), of _ "\<lparr>po_description = d, po_type = None\<rparr>" i n] assms(3)
  by (simp add: command_fits_def DepositCommand_def case_prod_beta)

lemma withdraw_command_fits:
  assumes "entity_store M entries" "good_env e" "description_fits d"
  shows "command_fits M entries e (WithdrawCommand M i n d)"
  using withdraw_fits [OF assms(1) _ assms(2), of _ "\<lparr>po_description = d, po_type = None\<rparr>" i n] assms(3)
  by (simp add: command_fits_def WithdrawCommand_def case_prod_beta)

lemma with_description_fits:
  assumes "body_ok u MoneyMovementDto body" "\<And>d. description_fits d \<Longrightarrow> command_fits M entries e (c d)"
  shows "command_fits M entries e (with_description body c)"
proof -
  have "description_fits (text_option body ''description'')"
    by (rule described_fits [OF assms(1)]) (simp add: MoneyMovementDto_def)
  moreover have "command_fits M entries e (refuse_null (c None))"
    using assms(2) [of None] by (auto simp: command_fits_def refuse_null_def description_fits_def ledger_fits_def
        case_prod_beta split: sum.splits)
  ultimately show ?thesis using assms(2) by (simp add: with_description_def)
qed

lemma pipeline_ledger:
  "bs_ledger (snd (money_transfer M fee rules e q s)) \<in>
     {bs_ledger s, snd (transfer M e (request_input q (tq_fee q + fee_for fee (tq_channel q))) (bs_ledger s))}"
  by (auto simp: money_transfer_def audit_decorator_def fraud_decorator_def fee_decorator_def ledger_transfer_service_def
      Let_def case_prod_beta split: sum.splits)

lemma transfer_command_fits:
  assumes "entity_store M entries" "good_env e" "body_ok u TransferDto body"
  shows "command_fits M entries e (transfer_command_of (money_transfer M fee rules) M body)"
  unfolding command_fits_def
proof (intro allI impI)
  fix w :: "'a bank_state"
  assume fits: "ledger_fits M entries (bs_ledger w)"
  let ?q = "transfer_request_of body"
  obtain x w' where t: "money_transfer M fee rules e ?q w = (x, w')" by (cases "money_transfer M fee rules e ?q w")
  have "description_fits (text_option body ''description'')"
    by (rule described_fits [OF assms(3)]) (simp add: TransferDto_def)
  then have "ledger_fits M entries (snd (transfer M e (request_input ?q n) (bs_ledger w)))" for n
    by (intro transfer_fits [OF assms(1) fits assms(2)]) (simp add: request_input_def transfer_request_of_def)
  then show "ledger_fits M entries (bs_ledger (snd (cmd_execute (transfer_command_of (money_transfer M fee rules) M body) e w)))"
    using pipeline_ledger [of M fee rules e ?q w] fits transfer_command_run [of "money_transfer M fee rules" e body w x w', OF t] t
    by auto
qed

lemma fits_submit [fitting]:
  assumes "loan_store M entries L loans" "dp_loans D = L"
  shows "fits_endpoint M entries (submit_draft D e i)"
  unfolding fits_endpoint_def
proof (intro allI impI)
  fix s assume fits: "ledger_fits M entries (ap_ledger s)"
  obtain r t where t: "submit (loans_deps_of D) e i \<lparr>lo_ledger = ap_ledger s, lo_drafts = ap_drafts s\<rparr> = (r, t)" by fastforce
  have "lp_repository (loans_deps_of D) = L" by (simp add: loans_deps_of_def assms(2))
  note effect = submit_effect [OF assms(1) this t]
  have "ls_refs (lo_ledger t) = ls_refs (ap_ledger s)"
    using t by (auto simp: submit_def Let_def emit_def split: sum.splits option.splits)
  with effect fits have "ledger_fits M entries (lo_ledger t)" by (auto simp: ledger_fits_def rows_fit_def)
  then show "ledger_fits M entries (ap_ledger (snd (submit_draft D e i s)))"
    by (simp add: submit_draft_def t set_ledger_def)
qed

lemma fits_quote [fitting]: "fits_endpoint M entries (quote_request c b)"
  unfolding quote_request_def
  by (rule fits_on_ledger) (simp add: ledger_fits_def quote_def nodeTag_next case_prod_beta)

lemma fits_get: "is_get q \<Longrightarrow> fits_endpoint M entries (handle_request D c q)"
  using get_handler_safe by (intro fits_safe) (auto simp: same_records_def)

definition good_call :: "call_env \<Rightarrow> bool" where
  "good_call c \<longleftrightarrow> (\<forall>k. good_env (ca_env c k)) \<and> digits_ok (ca_random c)"

context application
begin

lemma accounts_fit:
  assumes "good_call c"
  shows "fits_endpoint M entries (accounts_controller D c q)"
proof -
  have opened: "ledger_fits M entries (as_ledger (snd (then_present (dp_accounts D) (open_account (dp_accounts D) (ca_env c 0) (ca_random c) dto s))))"
    if "ledger_fits M entries (as_ledger s)" for dto and s :: "'db accounts_state"
    using open_fits [OF repository that, of "ca_random c" "ca_env c 0" dto] assms then_present_keeps(1)
    by (metis good_call_def surjective_pairing)
  have status: "ledger_fits M entries (as_ledger (snd (change_and_present (dp_accounts D) (ca_env c 0) i action s)))"
    if "ledger_fits M entries (as_ledger s)" for i action and s :: "'db accounts_state"
    using changeStatus_fits [OF that, of "ca_env c 0" i action]
    by (simp add: change_and_present_def manager case_prod_beta then_present_keeps(1))
  show ?thesis
  proof (cases "is_get (Accounts q)")
    case True
    from fits_get [OF this] show ?thesis by (simp add: fits_endpoint_def)
  next
    case False
    then show ?thesis by (cases q) (auto intro!: fitting opened status)
  qed
qed

lemma banking_fits:
  assumes "good_call c"
  shows "fits_endpoint M entries (banking_controller D c q)"
proof (cases q)
  case (PostOnboard body)
  have "fits_endpoint M entries (on_accounts (onboardCustomer (dp_accounts D) (ca_env c) (ca_random c) inp) OnboardAnswer)" for inp
    using assms by (intro fits_on_accounts onboard_fits) (simp_all add: manager repository good_call_def)
  then show ?thesis by (auto simp: PostOnboard intro!: fits_with_body)
next
  case (GetOverview owner)
  with fits_get [of "Banking q"] show ?thesis by (simp add: fits_endpoint_def)
qed

lemma transactions_fit:
  assumes "good_call c"
  shows "fits_endpoint M entries (transactions_controller D c q)"
proof -
  have env: "good_env (ca_env c 0)" using assms by (simp add: good_call_def)
  have deposit: "command_fits M entries (ca_env c 0) (deposit_command_of M b)"
    and withdraw: "command_fits M entries (ca_env c 0) (withdraw_command_of M b)" if "body_ok u MoneyMovementDto b" for u b
    unfolding deposit_command_of_def withdraw_command_of_def
    using deposit_command_fits [OF store env] withdraw_command_fits [OF store env]
    by (auto intro!: with_description_fits [OF that])
  show ?thesis
    by (cases q) (auto intro!: fitting deposit withdraw transfer_command_fits [OF store env] fits_undo [OF store env]
        reverse_fits [OF store _ env] simp: manager transfers_of_def)
qed

lemma handle_fits:
  assumes "good_call c"
  shows "fits_endpoint M entries (handle_request D c q)"
proof (cases "is_get q")
  case True
  then show ?thesis by (rule fits_get)
next
  case False
  have job: "fits_endpoint M entries (job_request D c name)" for name
    unfolding job_request_def using assms
    by (intro fits_on_ledger) (simp add: manager job_fits [OF store] good_call_def)
  have loans: "fits_endpoint M entries (loans_controller D c r)" for r
    by (cases r) (auto intro!: fitting fits_submit [OF loans.loan_store_axioms applications])
  have ai: "fits_endpoint M entries (ai_controller D c r)" for r
    using fits_ingest [of M entries D c] by (cases r) (auto intro!: fitting)
  show ?thesis
    using False assms by (cases q) (auto intro!: fitting accounts_fit banking_fits transactions_fit job loans ai)
qed

lemma api_run_fits:
  assumes "app_inv M entries s" "ledger_fits M entries (ap_ledger s)" "\<forall>(c, q) \<in> set qs. good_call c"
  shows "ledger_fits M entries (ap_ledger (api_run D qs s))"
  using assms
proof (induction qs arbitrary: s)
  case (Cons x qs)
  obtain c q where x: "x = (c, q)" by (cases x)
  have "ledger_fits M entries (ap_ledger (snd (api D c q s)))"
    using handle_fits [of c q] Cons.prems by (simp add: fits_endpoint_def api_state x)
  with Cons.IH [OF api_sound(1) [OF Cons.prems(1)]] Cons.prems(3) show ?case by (simp add: x)
qed simp

end

text \<open>
  C15: No request makes the database refuse an entry for its length: whatever is asked, in whatever order, every type,
  reference and description in the ledger fits its column of the migration, and every account number its own.
\<close>
theorem ledger_fits_columns:
  assumes "application M entries R accounts L loans D" "app_inv M entries s" "ledger_fits M entries (ap_ledger s)"
    and "\<forall>(c, q) \<in> set qs. good_call c"
  shows "(\<forall>r \<in> set (entries (ap_db (api_run D qs s))).
      text_fits ledger_entries_table ''type'' (entry_type_name (entry_type r)) \<and>
      text_fits ledger_entries_table ''reference'' (entry_reference r) \<and>
      text_fits ledger_entries_table ''description'' (entry_description r)) \<and>
    (\<forall>i a. em_findAccount M (ap_db (api_run D qs s)) i = Some a \<longrightarrow> text_fits accounts_table ''account_number'' (accountNumber a))"
  using application.api_run_fits [OF assms] by (simp add: ledger_fits_def rows_fit_def entry_fits_def)

lemma sample_fits: "ledger_fits (beside tables_manager) (entryRows \<circ> fst) (ap_ledger sample_app)"
proof -
  have "length (accountNumber a) \<le> 24" if "find_row acc_id i (accountRows sample_db) = Some a" for i a
    using that by (auto simp: sample_db_def sample_account_def find_row_def split: if_splits)
  then show ?thesis
    by (simp add: ledger_fits_def rows_fit_def number_fits_length entry_fits_lengths) (simp add: sample_app_def sample_db_def opening_entry_def)
qed

theorem ledger_fits_columns_witness:
  "list_all (\<lambda>r. text_fits ledger_entries_table ''description'' (entry_description r))
    (entryRows (fst (ap_db (api_run sample_app_deps
      [(sample_call, Transactions (PostTransfer sample_transfer_body)), (sample_call, RunJob ''interest-posting'')] sample_app))))"
proof -
  have "good_call sample_call"
    by (simp add: good_call_def good_env_def) (simp add: sample_call_def sample_env_def digits_ok_def)
  then show ?thesis
    using ledger_fits_columns [OF sample_application_is sample_app_inv sample_fits, of
        "[(sample_call, Transactions (PostTransfer sample_transfer_body)), (sample_call, RunJob ''interest-posting'')]"]
    by (auto simp: list_all_iff)
qed

section \<open>A limit that is met\<close>

text \<open>What the database does with a purpose that does not fit its column.\<close>

definition refuses_long_purpose :: "'db loan_repository \<Rightarrow> bool" where
  "refuses_long_purpose L \<longleftrightarrow>
     (\<forall>db la decision. \<not> text_fits loan_applications_table ''purpose'' (la_purpose la) \<longrightarrow> lr_insert L db la decision = None)"

lemma purpose_fits_length: "text_fits loan_applications_table ''purpose'' s \<longleftrightarrow> length s \<le> 80"
  by (simp add: text_fits_def table_defs)


definition long_draft :: loan_draft where
  "long_draft = \<lparr>ld_id = ''d1'', ld_fields =
     [(''applicantName'', DvText ''Ali''), (''accountId'', DvText ''a''), (''amountMinor'', DvNum 50000000),
      (''purpose'', DvText (replicate 81 CHR ''x'')), (''monthlyIncomeMinor'', DvNum 40000000)]\<rparr>"


end
