(* ===== verification/Wiring.thy ===== *)
theory Wiring
  imports Prelude
begin

text \<open>
  The two applications as the dependency injection sees them: the modules of \<open>src/src/app.module.ts\<close>,
  \<open>src/src/worker.module.ts\<close> and \<open>src/src/modules/*/*.module.ts\<close> with what they import, provide, export and
  what each constructor asks for.

  The container is NestJS: it creates, in an order of its own, one instance of every provider and controller
  of every module that is loaded, each after what its constructor needs. A need is met by a provider of the same
  module, or by one that an imported or a global module exports. What modules of libraries offer is an argument;
  the locale \<open>library_exports\<close> has what the code relies on.
\<close>

section \<open>Modules\<close>

datatype token = Service string | Repository string | External string

datatype module_import = Imported string | Feature "string list" | Library string

record injectable =
  in_name :: string
  in_needs :: "token list"

record nest_module =
  md_imports :: "module_import list"
  md_controllers :: "injectable list"
  md_providers :: "injectable list"
  md_exports :: "string list"
  md_global :: bool
  md_needs :: "token list"

definition needing :: "string \<Rightarrow> token list \<Rightarrow> injectable" where
  "needing n ts = \<lparr>in_name = n, in_needs = ts\<rparr>"

text \<open>
  \<open>md_needs\<close> is the constructor of the module class itself. A symbol such as \<open>EVENT_PUBLISHER\<close> is a service
  like the classes; \<open>Feature\<close> is \<open>TypeOrmModule.forFeature\<close>.
\<close>

definition AppConfigModule :: nest_module where
  "AppConfigModule =
     \<lparr>md_imports = [Library ''ConfigModule.forRoot''],
      md_controllers = [],
      md_providers =
        [needing ''AppConfigService'' [External ''ConfigService'']],
      md_exports = [''AppConfigService''], md_global = True, md_needs = []\<rparr>"

definition DatabaseModule :: nest_module where
  "DatabaseModule =
     \<lparr>md_imports = [Library ''TypeOrmModule.forRootAsync''],
      md_controllers = [],
      md_providers = [],
      md_exports = [], md_global = False, md_needs = []\<rparr>"

definition CoreModule :: nest_module where
  "CoreModule =
     \<lparr>md_imports = [],
      md_controllers = [],
      md_providers =
        [needing ''ReferenceNumberGenerator'' [], needing ''CurrencyRegistry'' []],
      md_exports = [''ReferenceNumberGenerator'', ''CurrencyRegistry''], md_global = True, md_needs = []\<rparr>"

definition MessagingModule :: nest_module where
  "MessagingModule =
     \<lparr>md_imports = [],
      md_controllers = [],
      md_providers =
        [needing ''DomainEventBus'' [], needing ''AuditLogObserver'' [],
         needing ''EventForwardingObserver'' [Service ''EVENT_PUBLISHER''], needing ''EventMetricsObserver'' [],
         needing ''InMemoryEventPublisher'' [],
         needing ''EVENT_PUBLISHER'' [Service ''AppConfigService'', Service ''InMemoryEventPublisher'']],
      md_exports = [''DomainEventBus'', ''EVENT_PUBLISHER'', ''EventMetricsObserver'', ''InMemoryEventPublisher''],
      md_global = True, md_needs = [Service ''DomainEventBus'', Service ''AuditLogObserver'',
        Service ''EventForwardingObserver'',
         Service ''EventMetricsObserver'']\<rparr>"

definition HealthModule :: nest_module where
  "HealthModule =
     \<lparr>md_imports = [Library ''TerminusModule''],
      md_controllers = [needing ''HealthController'' [External ''HealthCheckService'',
        External ''TypeOrmHealthIndicator'', Service ''AppConfigService'', Service ''EVENT_PUBLISHER'']],
      md_providers = [],
      md_exports = [], md_global = False, md_needs = []\<rparr>"

definition PatternsModule :: nest_module where
  "PatternsModule =
     \<lparr>md_imports = [],
      md_controllers = [needing ''PatternsController'' []],
      md_providers = [],
      md_exports = [], md_global = False, md_needs = []\<rparr>"

definition AccountsModule :: nest_module where
  "AccountsModule =
     \<lparr>md_imports = [Feature [''AccountEntity'']],
      md_controllers = [needing ''AccountsController'' [Service ''AccountsService'']],
      md_providers =
        [needing ''AccountsService'' [Repository ''AccountEntity'', Service ''CurrencyRegistry'',
          Service ''AccountProductCatalog'', Service ''DomainEventBus''],
         needing ''AccountProductCatalog'' []],
      md_exports = [''AccountsService''], md_global = False, md_needs = []\<rparr>"

definition TransactionsModule :: nest_module where
  "TransactionsModule =
     \<lparr>md_imports = [Feature [''AccountEntity'', ''LedgerEntryEntity''], Imported ''FraudModule''],
      md_controllers = [needing ''TransactionsController'' [Service ''LedgerService'', Service ''CommandInvoker'',
        Service ''TransactionHistoryService'', Service ''MONEY_TRANSFER_SERVICE'']],
      md_providers =
        [needing ''LedgerService'' [External ''DataSource'', Service ''ReferenceNumberGenerator'',
          Service ''DomainEventBus''],
         needing ''TransactionHistoryService'' [Repository ''LedgerEntryEntity''], needing ''CommandInvoker'' [],
         needing ''MONEY_TRANSFER_SERVICE'' [Service ''LedgerService'', Service ''FraudRuleEngine'',
           Service ''AppConfigService'']],
      md_exports = [''LedgerService'', ''TransactionHistoryService'', ''MONEY_TRANSFER_SERVICE''],
      md_global = False, md_needs = []\<rparr>"

definition FraudModule :: nest_module where
  "FraudModule =
     \<lparr>md_imports = [],
      md_controllers = [needing ''FraudController'' [Service ''FraudRuleEngine'']],
      md_providers =
        [needing ''FraudRuleEngine'' [Service ''AppConfigService'']],
      md_exports = [''FraudRuleEngine''], md_global = False, md_needs = []\<rparr>"

definition PaymentsModule :: nest_module where
  "PaymentsModule =
     \<lparr>md_imports = [],
      md_controllers = [needing ''PaymentsController'' [Service ''ReferenceNumberGenerator'']],
      md_providers = [],
      md_exports = [], md_global = False, md_needs = []\<rparr>"

definition FxModule :: nest_module where
  "FxModule =
     \<lparr>md_imports = [],
      md_controllers = [needing ''FxController'' [Service ''CachingExchangeRateProxy'',
        Service ''CurrencyRegistry'']],
      md_providers =
        [needing ''CachingExchangeRateProxy'' []],
      md_exports = [''CachingExchangeRateProxy''], md_global = False, md_needs = []\<rparr>"

definition LoansModule :: nest_module where
  "LoansModule =
     \<lparr>md_imports = [Feature [''LoanApplicationEntity''], Imported ''AccountsModule''],
      md_controllers = [needing ''LoansController'' [Service ''LoansService'']],
      md_providers =
        [needing ''LoansService'' [Repository ''LoanApplicationEntity'', Service ''AccountsService'',
          Service ''DomainEventBus'']],
      md_exports = [], md_global = False, md_needs = []\<rparr>"

definition StatementsModule :: nest_module where
  "StatementsModule =
     \<lparr>md_imports = [Imported ''AccountsModule'', Imported ''TransactionsModule''],
      md_controllers = [needing ''StatementsController'' [Service ''AccountsService'',
        Service ''TransactionHistoryService'', Service ''CurrencyRegistry'']],
      md_providers = [],
      md_exports = [], md_global = False, md_needs = []\<rparr>"

definition OperationsModule :: nest_module where
  "OperationsModule =
     \<lparr>md_imports = [Feature [''AccountEntity'', ''LedgerEntryEntity''], Imported ''TransactionsModule''],
      md_controllers = [needing ''OperationsController'' [Repository ''AccountEntity'',
        Repository ''LedgerEntryEntity'', Service ''LedgerService'']],
      md_providers = [],
      md_exports = [], md_global = False, md_needs = []\<rparr>"

definition BankingModule :: nest_module where
  "BankingModule =
     \<lparr>md_imports = [Imported ''AccountsModule'', Imported ''TransactionsModule''],
      md_controllers = [needing ''BankingController'' [Service ''BankingFacade'']],
      md_providers =
        [needing ''BankingFacade'' [Service ''AccountsService'', Service ''LedgerService'',
          Service ''TransactionHistoryService'', Service ''DomainEventBus'']],
      md_exports = [], md_global = False, md_needs = []\<rparr>"

definition NotificationsModule :: nest_module where
  "NotificationsModule =
     \<lparr>md_imports = [Feature [''NotificationEntity'']],
      md_controllers = [needing ''NotificationsController'' [Repository ''NotificationEntity'',
        Service ''EventMetricsObserver'', Service ''DomainEventBus'', Service ''EVENT_PUBLISHER'']],
      md_providers = [],
      md_exports = [], md_global = False, md_needs = []\<rparr>"

definition AiModule :: nest_module where
  "AiModule =
     \<lparr>md_imports = [],
      md_controllers = [needing ''AiController'' [Service ''RagService'', Service ''KnowledgeIngestionService'',
        Service ''PgVectorStore'', Service ''AppConfigService'']],
      md_providers =
        [needing ''CHAT_MODEL'' [Service ''AppConfigService''],
         needing ''EMBEDDINGS'' [Service ''AppConfigService''], needing ''PgVectorStore'' [External ''DataSource''],
         needing ''KnowledgeIngestionService'' [Service ''EMBEDDINGS'', Service ''PgVectorStore'',
           Service ''AppConfigService''],
         needing ''RagService'' [Service ''EMBEDDINGS'', Service ''CHAT_MODEL'', Service ''PgVectorStore'']],
      md_exports = [''RagService''], md_global = False, md_needs = []\<rparr>"

definition AppModule :: nest_module where
  "AppModule =
     \<lparr>md_imports = map Imported
        [''AppConfigModule'', ''DatabaseModule'', ''CoreModule'', ''MessagingModule'', ''HealthModule'',
         ''PatternsModule'', ''AccountsModule'', ''TransactionsModule'', ''FraudModule'', ''PaymentsModule'',
         ''FxModule'', ''LoansModule'', ''StatementsModule'', ''OperationsModule'', ''BankingModule'',
         ''NotificationsModule'', ''AiModule''],
      md_controllers = [], md_providers = [], md_exports = [], md_global = False, md_needs = []\<rparr>"

definition WorkerModule :: nest_module where
  "WorkerModule =
     \<lparr>md_imports = map Imported [''AppConfigModule'', ''DatabaseModule'', ''MessagingModule'', ''HealthModule''] @
        [Feature [''NotificationEntity'']],
      md_controllers = [],
      md_providers = [needing ''NotificationConsumer'' [Service ''AppConfigService'',
        Repository ''NotificationEntity'']],
      md_exports = [], md_global = False, md_needs = []\<rparr>"

definition MODULES :: "(string \<times> nest_module) list" where
  "MODULES =
     [(''AppConfigModule'', AppConfigModule), (''DatabaseModule'', DatabaseModule), (''CoreModule'', CoreModule),
      (''MessagingModule'', MessagingModule), (''HealthModule'', HealthModule), (''PatternsModule'', PatternsModule),
      (''AccountsModule'', AccountsModule), (''TransactionsModule'', TransactionsModule),
      (''FraudModule'', FraudModule), (''PaymentsModule'', PaymentsModule), (''FxModule'', FxModule),
      (''LoansModule'', LoansModule), (''StatementsModule'', StatementsModule),
      (''OperationsModule'', OperationsModule), (''BankingModule'', BankingModule),
      (''NotificationsModule'', NotificationsModule), (''AiModule'', AiModule), (''AppModule'', AppModule),
      (''WorkerModule'', WorkerModule)]"

lemmas module_defs = AppConfigModule_def DatabaseModule_def CoreModule_def MessagingModule_def HealthModule_def PatternsModule_def
  AccountsModule_def TransactionsModule_def FraudModule_def PaymentsModule_def FxModule_def LoansModule_def
  StatementsModule_def OperationsModule_def BankingModule_def NotificationsModule_def AiModule_def AppModule_def
  WorkerModule_def

text \<open>A name that is none of a module stands for a module with nothing in it.\<close>

definition module_named :: "string \<Rightarrow> nest_module" where
  "module_named n = (case map_of MODULES n of
     None \<Rightarrow> \<lparr>md_imports = [], md_controllers = [], md_providers = [], md_exports = [], md_global = False, md_needs = []\<rparr>
   | Some m \<Rightarrow> m)"

definition injectables :: "string \<Rightarrow> injectable list" where
  "injectables n = md_providers (module_named n) @ md_controllers (module_named n) @ [needing n (md_needs (module_named n))]"

definition imports_module :: "string \<Rightarrow> string \<Rightarrow> bool" where
  "imports_module n m \<longleftrightarrow> Imported m \<in> set (md_imports (module_named n))"

definition offers_service :: "string \<Rightarrow> string \<Rightarrow> string \<Rightarrow> bool" where
  "offers_service n m s \<longleftrightarrow> s \<in> in_name ` set (md_providers (module_named m)) \<and>
     (m = n \<or> s \<in> set (md_exports (module_named m)) \<and> (imports_module n m \<or> md_global (module_named m)))"

section \<open>The container\<close>

record library_modules =
  lm_offers :: "module_import \<Rightarrow> token \<Rightarrow> bool"
  lm_global :: "module_import \<Rightarrow> bool"

inductive loaded :: "string \<Rightarrow> string \<Rightarrow> bool" for app where
  itself: "loaded app app"
| imported: "loaded app n \<Longrightarrow> imports_module n m \<Longrightarrow> loaded app m"

fun available :: "library_modules \<Rightarrow> string \<Rightarrow> (string \<times> string) list \<Rightarrow> string \<Rightarrow> token \<Rightarrow> bool" where
  "available L app made n (Service s) \<longleftrightarrow> (\<exists>m. loaded app m \<and> offers_service n m s \<and> (m, s) \<in> set made)"
| "available L app made n t \<longleftrightarrow>
     (\<exists>m i. loaded app m \<and> i \<in> set (md_imports (module_named m)) \<and> lm_offers L i t \<and> (m = n \<or> lm_global L i))"

definition instances :: "string \<Rightarrow> (string \<times> string) set" where
  "instances app = {(n, in_name c) | n c. loaded app n \<and> c \<in> set (injectables n)}"

text \<open>One instance more, of anything whose needs are there; \<open>made\<close> has module and name of what was created, in order.\<close>

inductive creates :: "library_modules \<Rightarrow> string \<Rightarrow> (string \<times> string) list \<Rightarrow> (string \<times> string) list \<Rightarrow> bool" for L app where
  instance_made: "loaded app n \<Longrightarrow> c \<in> set (injectables n) \<Longrightarrow> (n, in_name c) \<notin> set made \<Longrightarrow>
     \<forall>t \<in> set (in_needs c). available L app made n t \<Longrightarrow> creates L app made (made @ [(n, in_name c)])"

section \<open>What the libraries export\<close>

locale library_exports =
  fixes L :: library_modules
  assumes repositories: "e \<in> set es \<Longrightarrow> lm_offers L (Feature es) (Repository e)"
    and configuration: "lm_offers L (Library ''ConfigModule.forRoot'') (External ''ConfigService'') \<and>
      lm_global L (Library ''ConfigModule.forRoot'')"
    and connection: "lm_offers L (Library ''TypeOrmModule.forRootAsync'') (External ''DataSource'') \<and>
      lm_global L (Library ''TypeOrmModule.forRootAsync'')"
    and health_services: "lm_offers L (Library ''TerminusModule'') (External ''HealthCheckService'') \<and>
      lm_offers L (Library ''TerminusModule'') (External ''TypeOrmHealthIndicator'')"
begin

text \<open>The library module that has a need, and whether it is the importing module's own.\<close>

lemma external_available:
  assumes "loaded app m" "i \<in> set (md_imports (module_named m))"
    and "\<exists>e es. i = Feature es \<and> e \<in> set es \<and> t = Repository e \<and> m = n \<or>
      i = Library ''ConfigModule.forRoot'' \<and> t = External ''ConfigService'' \<or>
      i = Library ''TypeOrmModule.forRootAsync'' \<and> t = External ''DataSource'' \<or>
      i = Library ''TerminusModule'' \<and> t \<in> {External ''HealthCheckService'', External ''TypeOrmHealthIndicator''} \<and> m = n"
  shows "available L app made n t"
  using assms repositories configuration connection health_services by (cases t) auto

end

fun documented_offers :: "module_import \<Rightarrow> token \<Rightarrow> bool" where
  "documented_offers (Feature es) (Repository e) = (e \<in> set es)"
| "documented_offers (Library l) (External x) = ((l, x) \<in> set
     [(''ConfigModule.forRoot'', ''ConfigService''), (''TypeOrmModule.forRootAsync'', ''DataSource''),
      (''TypeOrmModule.forRootAsync'', ''EntityManager''), (''TerminusModule'', ''HealthCheckService''),
      (''TerminusModule'', ''TypeOrmHealthIndicator'')])"
| "documented_offers _ _ = False"

definition documented_libraries :: library_modules where
  "documented_libraries = \<lparr>lm_offers = documented_offers,
     lm_global = (\<lambda>i. i \<in> {Library ''ConfigModule.forRoot'', Library ''TypeOrmModule.forRootAsync''})\<rparr>"

interpretation documented: library_exports documented_libraries
  by unfold_locales (simp_all add: documented_libraries_def)

section \<open>Every need is met\<close>

text \<open>
  The list of the modules of an application, the module each service is at home in, and a rank above that of
  everything a constructor asks for. They only serve the proof.
\<close>

definition loaded_names :: "string \<Rightarrow> string list" where
  "loaded_names app = app # concat (map (\<lambda>i. case i of Imported m \<Rightarrow> [m] | _ \<Rightarrow> []) (md_imports (module_named app)))"

definition home_table :: "(string \<times> string) list" where
  "home_table =
     [(''AppConfigService'', ''AppConfigModule''), (''ReferenceNumberGenerator'', ''CoreModule''),
      (''CurrencyRegistry'', ''CoreModule''), (''DomainEventBus'', ''MessagingModule''),
      (''AuditLogObserver'', ''MessagingModule''), (''EventForwardingObserver'', ''MessagingModule''),
      (''EventMetricsObserver'', ''MessagingModule''), (''InMemoryEventPublisher'', ''MessagingModule''),
      (''EVENT_PUBLISHER'', ''MessagingModule''), (''AccountsService'', ''AccountsModule''),
      (''AccountProductCatalog'', ''AccountsModule''), (''LedgerService'', ''TransactionsModule''),
      (''TransactionHistoryService'', ''TransactionsModule''), (''CommandInvoker'', ''TransactionsModule''),
      (''MONEY_TRANSFER_SERVICE'', ''TransactionsModule''), (''FraudRuleEngine'', ''FraudModule''),
      (''CachingExchangeRateProxy'', ''FxModule''), (''LoansService'', ''LoansModule''),
      (''BankingFacade'', ''BankingModule''), (''CHAT_MODEL'', ''AiModule''), (''EMBEDDINGS'', ''AiModule''),
      (''PgVectorStore'', ''AiModule''), (''KnowledgeIngestionService'', ''AiModule''),
      (''RagService'', ''AiModule''), (''NotificationConsumer'', ''WorkerModule'')]"

definition rank_table :: "(string \<times> nat) list" where
  "rank_table =
     [(''EventForwardingObserver'', 2), (''EVENT_PUBLISHER'', 1), (''MessagingModule'', 3),
      (''HealthController'', 2), (''AccountsService'', 1), (''AccountsController'', 2), (''LedgerService'', 1),
      (''MONEY_TRANSFER_SERVICE'', 2), (''TransactionsController'', 3), (''FraudRuleEngine'', 1),
      (''FraudController'', 2), (''PaymentsController'', 1), (''FxController'', 1), (''LoansService'', 2),
      (''LoansController'', 3), (''StatementsController'', 2), (''OperationsController'', 2), (''BankingFacade'', 2),
      (''BankingController'', 3), (''NotificationsController'', 2), (''CHAT_MODEL'', 1), (''EMBEDDINGS'', 1),
      (''KnowledgeIngestionService'', 2), (''RagService'', 2), (''AiController'', 3), (''NotificationConsumer'', 1)]"

definition rank_of :: "string \<Rightarrow> nat" where
  "rank_of c = (case map_of rank_table c of None \<Rightarrow> 0 | Some r \<Rightarrow> r)"

definition library_met :: "string list \<Rightarrow> string \<Rightarrow> token \<Rightarrow> bool" where
  "library_met ns n t \<longleftrightarrow> list_ex (\<lambda>m. list_ex (\<lambda>i. case i of
       Feature es \<Rightarrow> m = n \<and> list_ex (\<lambda>e. t = Repository e) es
     | Library l \<Rightarrow> (l, t) \<in> {(''ConfigModule.forRoot'', External ''ConfigService''), (''TypeOrmModule.forRootAsync'', External ''DataSource'')} \<or>
         m = n \<and> (l, t) \<in> {(''TerminusModule'', External ''HealthCheckService''), (''TerminusModule'', External ''TypeOrmHealthIndicator'')}
     | _ \<Rightarrow> False) (md_imports (module_named m))) ns"

definition met :: "string list \<Rightarrow> string \<Rightarrow> injectable \<Rightarrow> token \<Rightarrow> bool" where
  "met ns n c t = (case t of
     Service s \<Rightarrow> (case map_of home_table s of
         None \<Rightarrow> False | Some m \<Rightarrow> m \<in> set ns \<and> offers_service n m s \<and> rank_of s < rank_of (in_name c))
   | _ \<Rightarrow> library_met ns n t)"

definition all_met :: "string list \<Rightarrow> bool" where
  "all_met ns = list_all (\<lambda>n. list_all (\<lambda>c. list_all (met ns n c) (in_needs c)) (injectables n)) ns"

lemma app_met: "all_met (loaded_names ''AppModule'')" by code_simp
lemma worker_met: "all_met (loaded_names ''WorkerModule'')" by code_simp

definition import_closed :: "string list \<Rightarrow> bool" where
  "import_closed ns = list_all (\<lambda>n. list_all (\<lambda>i. case i of Imported m \<Rightarrow> m \<in> set ns | _ \<Rightarrow> True) (md_imports (module_named n))) ns"

lemma app_closed: "import_closed (loaded_names ''AppModule'')" by code_simp
lemma worker_closed: "import_closed (loaded_names ''WorkerModule'')" by code_simp

definition names_once :: "string list \<Rightarrow> bool" where
  "names_once ns = distinct (concat (map (\<lambda>n. map in_name (injectables n)) ns))"

lemma app_names: "names_once (loaded_names ''AppModule'')" by code_simp
lemma worker_names: "names_once (loaded_names ''WorkerModule'')" by code_simp

section \<open>Starting never gets stuck\<close>

definition applications :: "string list" where
  "applications = [''AppModule'', ''WorkerModule'']"

lemmas checked = app_met worker_met app_closed worker_closed app_names worker_names

lemma loaded_only:
  assumes "app \<in> set applications" "loaded app n" shows "n \<in> set (loaded_names app)"
  using assms(2)
proof (induction rule: loaded.induct)
  case itself
  then show ?case by (simp add: loaded_names_def)
next
  case (imported n m)
  have "import_closed (loaded_names app)" using assms(1) checked by (auto simp: applications_def)
  with imported show ?case by (fastforce simp: import_closed_def list_all_iff imports_module_def)
qed

lemma loaded_all: "n \<in> set (loaded_names app) \<Longrightarrow> loaded app n"
  by (auto simp: loaded_names_def imports_module_def intro: loaded.intros split: module_import.splits)

lemma loaded_iff: "app \<in> set applications \<Longrightarrow> loaded app n \<longleftrightarrow> n \<in> set (loaded_names app)"
  using loaded_only loaded_all by blast

lemma service_met:
  assumes "app \<in> set applications" "loaded app n" "c \<in> set (injectables n)" "Service s \<in> set (in_needs c)"
  obtains m c' where "loaded app m" "offers_service n m s" "c' \<in> set (injectables m)" "in_name c' = s" "rank_of s < rank_of (in_name c)"
proof -
  have "all_met (loaded_names app)" using assms(1) checked by (auto simp: applications_def)
  then have "met (loaded_names app) n c (Service s)"
    using assms loaded_iff [OF assms(1)] by (simp add: all_met_def list_all_iff)
  then obtain m where m: "m \<in> set (loaded_names app)" "offers_service n m s" "rank_of s < rank_of (in_name c)"
    by (auto simp: met_def split: option.splits)
  from m(2) obtain c' where "c' \<in> set (md_providers (module_named m))" "in_name c' = s"
    by (auto simp: offers_service_def)
  with m that loaded_all show thesis by (force simp: injectables_def)
qed

lemma library_served:
  assumes "library_exports L" "app \<in> set applications" "loaded app n" "c \<in> set (injectables n)" "t \<in> set (in_needs c)"
    and "\<forall>s. t \<noteq> Service s"
  shows "available L app made n t"
proof -
  have "all_met (loaded_names app)" using assms(2) checked by (auto simp: applications_def)
  then have "met (loaded_names app) n c t"
    using assms(3-5) loaded_iff [OF assms(2)] by (simp add: all_met_def list_all_iff)
  with assms(6) have "library_met (loaded_names app) n t" by (cases t) (auto simp: met_def)
  then obtain m i where m: "m \<in> set (loaded_names app)" "i \<in> set (md_imports (module_named m))"
    and i: "case i of Feature es \<Rightarrow> m = n \<and> list_ex (\<lambda>e. t = Repository e) es
     | Library l \<Rightarrow> (l, t) \<in> {(''ConfigModule.forRoot'', External ''ConfigService''), (''TypeOrmModule.forRootAsync'', External ''DataSource'')} \<or>
         m = n \<and> (l, t) \<in> {(''TerminusModule'', External ''HealthCheckService''), (''TerminusModule'', External ''TypeOrmHealthIndicator'')}
     | _ \<Rightarrow> False"
    unfolding library_met_def list_ex_iff by blast
  show ?thesis
    by (rule library_exports.external_available [OF assms(1) loaded_all [OF m(1)] m(2)])
      (use i in \<open>auto simp: list_ex_iff split: module_import.splits\<close>)
qed

lemma instances_finite: "app \<in> set applications \<Longrightarrow> finite (instances app)"
proof -
  assume "app \<in> set applications"
  then have "instances app \<subseteq> (\<Union>n \<in> set (loaded_names app). (\<lambda>c. (n, in_name c)) ` set (injectables n))"
    by (auto simp: instances_def loaded_iff)
  then show ?thesis by (rule finite_subset) simp
qed

lemma concat_names_inj:
  "distinct (concat (map f ns)) \<Longrightarrow> n \<in> set ns \<Longrightarrow> m \<in> set ns \<Longrightarrow> x \<in> set (f n) \<Longrightarrow> x \<in> set (f m) \<Longrightarrow> n = m"
  by (induction ns) auto

lemma instance_iff: "(n, x) \<in> instances app \<longleftrightarrow> loaded app n \<and> x \<in> in_name ` set (injectables n)"
  by (auto simp: instances_def)

lemma one_instance_each:
  assumes "app \<in> set applications" "(n, x) \<in> instances app" "(m, x) \<in> instances app" shows "n = m"
proof -
  have "distinct (concat (map (\<lambda>n. map in_name (injectables n)) (loaded_names app)))"
    using assms(1) checked by (auto simp: applications_def names_once_def)
  then show ?thesis
    using assms(2,3) concat_names_inj [of "\<lambda>n. map in_name (injectables n)" "loaded_names app" n m x]
    by (simp add: instance_iff loaded_iff [OF assms(1)])
qed

lemma creates_next:
  assumes "library_exports L" "app \<in> set applications" "set made \<subset> instances app"
  shows "\<exists>made'. creates L app made made'"
proof -
  from assms(3) obtain x where "x \<in> instances app - set made" by blast
  then obtain y where y: "y \<in> instances app - set made"
    and least: "\<And>z. z \<in> instances app - set made \<Longrightarrow> rank_of (snd y) \<le> rank_of (snd z)"
    using ex_has_least_nat [of "\<lambda>z. z \<in> instances app - set made" x "\<lambda>z. rank_of (snd z)"] by blast
  then obtain n c where c: "y = (n, in_name c)" "loaded app n" "c \<in> set (injectables n)" by (auto simp: instances_def)
  have "available L app made n t" if t: "t \<in> set (in_needs c)" for t
  proof (cases "\<exists>s. t = Service s")
    case True
    then obtain s m c' where s: "t = Service s" "loaded app m" "offers_service n m s" "c' \<in> set (injectables m)" "in_name c' = s"
      "rank_of s < rank_of (in_name c)"
      using service_met [OF assms(2) c(2,3)] t by metis
    then have "(m, s) \<in> instances app" by (auto simp: instances_def)
    with least [of "(m, s)"] s(6) c(1) have "(m, s) \<in> set made" by (auto simp: not_le)
    with s show ?thesis by auto
  qed (use library_served [OF assms(1,2) c(2,3) t] in blast)
  then show ?thesis using instance_made [OF c(2,3)] y c(1) by blast
qed

definition consumes :: "string \<Rightarrow> bool" where
  "consumes app \<longleftrightarrow> list_ex (\<lambda>n. ''NotificationConsumer'' \<in> in_name ` set (injectables n)) (loaded_names app)"

lemma consumer_only_in_worker: "consumes ''WorkerModule''" "\<not> consumes ''AppModule''"
  by code_simp+

lemma consumes_iff: "app \<in> set applications \<Longrightarrow> (\<exists>n. (n, ''NotificationConsumer'') \<in> instances app) \<longleftrightarrow> consumes app"
  unfolding consumes_def list_ex_iff instance_iff by (simp only: loaded_iff) blast

lemma creates_one: "creates L app made made' \<Longrightarrow> \<exists>y \<in> instances app - set made. made' = made @ [y]"
  by (erule creates.cases) (auto simp: instance_iff)

lemma created_so_far:
  assumes "(creates L app)\<^sup>*\<^sup>* [] made" shows "distinct made \<and> set made \<subseteq> instances app"
  using assms by (induction rule: rtranclp_induct) (auto dest!: creates_one)

text \<open>
  C39: Both applications start: in whatever order the container creates what the modules declare, it is never stuck
  before everything is there, so it ends with one instance of every provider and controller after as many steps
  as there are. No class or symbol is provided twice, so all who ask for a service share one: there is one
  command history, one bus, one reference generator. Only the worker consumes messages.
\<close>
theorem applications_start:
  assumes "library_exports L" "app \<in> {''AppModule'', ''WorkerModule''}" "(creates L app)\<^sup>*\<^sup>* [] made"
  shows "distinct made \<and> set made \<subseteq> instances app \<and> length made \<le> card (instances app) \<and>
    ((\<exists>made'. creates L app made made') \<longleftrightarrow> set made \<noteq> instances app) \<and>
    (\<forall>n m x. (n, x) \<in> instances app \<longrightarrow> (m, x) \<in> instances app \<longrightarrow> n = m) \<and>
    ((\<exists>n. (n, ''NotificationConsumer'') \<in> instances app) \<longleftrightarrow> app = ''WorkerModule'')"
proof -
  have app: "app \<in> set applications" using assms(2) by (simp add: applications_def)
  have so_far: "distinct made" "set made \<subseteq> instances app" using created_so_far [OF assms(3)] by blast+
  then have "length made \<le> card (instances app)"
    using card_mono [OF instances_finite [OF app] so_far(2)] by (simp add: distinct_card)
  moreover have "(\<exists>made'. creates L app made made') \<longleftrightarrow> set made \<noteq> instances app"
    using creates_next [OF assms(1) app] so_far(2) creates_one by blast
  moreover have "(\<exists>n. (n, ''NotificationConsumer'') \<in> instances app) \<longleftrightarrow> app = ''WorkerModule''"
    using assms(2) consumer_only_in_worker unfolding consumes_iff [OF app] by auto
  ultimately show ?thesis using so_far one_instance_each [OF app] by blast
qed

theorem applications_start_witness:
  "\<exists>made'. creates documented_libraries ''WorkerModule'' [] made'"
proof -
  have "(''WorkerModule'', ''WorkerModule'') \<in> instances ''WorkerModule''"
    by (simp add: instance_iff loaded.itself injectables_def needing_def)
  then have "set [] \<noteq> instances ''WorkerModule''" by auto
  then show ?thesis
    using applications_start [OF documented.library_exports_axioms, of "''WorkerModule''" "[]"] by blast
qed

end
