(* ===== verification/Smoke.thy ===== *)
theory Smoke
  imports Requests "HOL-Library.Sublist"
begin

text \<open>
  The smoke test (\<open>src/scripts/smoke-test.mjs\<close>): a client that walks through the endpoints of a running
  system and exits with 0 if no step failed.

  The server is an argument: a function from a request to a status and a text, or to the message \<open>fetch\<close> fails
  with, and its next state; nothing is assumed of it. So are \<open>JSON.stringify\<close>, \<open>JSON.parse\<close> and the text
  that makes the names of a run unique. A value is \<open>None\<close> where JavaScript has \<open>undefined\<close>. A step is
  written with continuations: an exception, a value \<open>Inl\<close>, ends it. The lines printed for the steps are left
  out but for the names of the steps and whether they passed; the message of a \<open>TypeError\<close> is the engine's.
\<close>

section \<open>Values as the script reads them\<close>

type_synonym jval = "body_value option"

definition type_error :: "string + 'a" where
  "type_error = Inl ''TypeError''"

fun field_of :: "string \<Rightarrow> jval \<Rightarrow> string + jval" where
  "field_of k None = type_error"
| "field_of k (Some BNull) = type_error"
| "field_of k (Some (BObj f)) = Inr (map_of f k)"
| "field_of k (Some (BArr xs)) = Inr (if k = ''length'' then Some (BNum (Finite (of_nat (length xs)))) else None)"
| "field_of k (Some (BStr s)) = Inr (if k = ''length'' then Some (BNum (Finite (of_nat (length s)))) else None)"
| "field_of k (Some v) = Inr None"

fun path_of :: "string list \<Rightarrow> jval \<Rightarrow> string + jval" where
  "path_of [] v = Inr v"
| "path_of (k # ks) v = ebind (field_of k v) (path_of ks)"

text \<open>\<open>v === 'text'\<close>, \<open>v === 5\<close>, \<open>typeof v === 'number'\<close>, \<open>v >= 3\<close> and the test of a condition.\<close>

definition is_text :: "string \<Rightarrow> jval \<Rightarrow> bool" where
  "is_text s v \<longleftrightarrow> v = Some (BStr s)"

definition is_amount :: "int \<Rightarrow> jval \<Rightarrow> bool" where
  "is_amount n v \<longleftrightarrow> v = Some (BNum (Finite (of_int n)))"

definition is_numeric :: "jval \<Rightarrow> bool" where
  "is_numeric v \<longleftrightarrow> (case v of Some (BNum n) \<Rightarrow> True | _ \<Rightarrow> False)"

definition at_least :: "int \<Rightarrow> jval \<Rightarrow> bool" where
  "at_least n v = (case v of None \<Rightarrow> False | Some x \<Rightarrow> num_le (Finite (of_int n)) (to_number (rule_value x)))"

fun truthy :: "jval \<Rightarrow> bool" where
  "truthy None = False"
| "truthy (Some BNull) = False"
| "truthy (Some (BBool b)) = b"
| "truthy (Some (BNum n)) = (n \<noteq> Finite 0 \<and> n \<noteq> NaN)"
| "truthy (Some (BStr s)) = (s \<noteq> [])"
| "truthy (Some v) = True"

text \<open>\<open>String(v)\<close>, also inside a template.\<close>

definition shown_value :: "jval \<Rightarrow> string" where
  "shown_value v = (case v of None \<Rightarrow> ''undefined'' | Some BNull \<Rightarrow> ''null'' | Some x \<Rightarrow> array_item x)"

text \<open>The methods of arrays and texts that are called: \<open>join\<close>, \<open>find\<close> by a property of the items, \<open>[0]\<close>, \<open>slice\<close>.\<close>

definition joined :: "string \<Rightarrow> jval \<Rightarrow> string + string" where
  "joined sep v = (case v of Some (BArr xs) \<Rightarrow> Inr (js_join sep (map array_item xs)) | _ \<Rightarrow> type_error)"

fun find_by :: "string \<Rightarrow> string \<Rightarrow> body_value list \<Rightarrow> string + jval" where
  "find_by k s [] = Inr None"
| "find_by k s (x # xs) = ebind (field_of k (Some x)) (\<lambda>v. if is_text s v then Inr (Some x) else find_by k s xs)"

definition find_item :: "string \<Rightarrow> string \<Rightarrow> jval \<Rightarrow> string + jval" where
  "find_item k s v = (case v of Some (BArr xs) \<Rightarrow> find_by k s xs | _ \<Rightarrow> type_error)"

definition first_item :: "jval \<Rightarrow> string + jval" where
  "first_item v = (case v of
     Some (BArr (x # xs)) \<Rightarrow> Inr (Some x) | Some (BStr (c # s)) \<Rightarrow> Inr (Some (BStr [c]))
   | Some (BObj f) \<Rightarrow> Inr (map_of f ''0'') | None \<Rightarrow> type_error | Some BNull \<Rightarrow> type_error | _ \<Rightarrow> Inr None)"

definition sliced :: "nat \<Rightarrow> jval \<Rightarrow> string + string" where
  "sliced n v = (case v of
     Some (BStr s) \<Rightarrow> Inr (take n s) | Some (BArr xs) \<Rightarrow> Inr (array_item (BArr (take n xs))) | _ \<Rightarrow> type_error)"

definition optional_field :: "string \<Rightarrow> jval \<Rightarrow> string + jval" where
  "optional_field k v = (if v = None \<or> v = Some BNull then Inr None else field_of k v)"

definition starts_with :: "string \<Rightarrow> string \<Rightarrow> bool" where
  "starts_with p s \<longleftrightarrow> take (length p) s = p"

text \<open>\<open>/^DEP-\\d{8}-/.test(v)\<close>.\<close>

definition deposit_reference :: "jval \<Rightarrow> bool" where
  "deposit_reference v = (let s = shown_value v in
     starts_with ''DEP-'' s \<and> length (take 8 (drop 4 s)) = 8 \<and> list_all is_digit (take 8 (drop 4 s)) \<and>
     take 1 (drop 12 s) = ''-'')"

section \<open>The harness\<close>

record 'w smoke =
  sm_world :: 'w
  sm_trace :: "(string \<times> string \<times> nat \<times> jval) list"
  sm_steps :: "(string \<times> bool) list"
  sm_savings :: jval
  sm_current :: jval
  sm_commandId :: jval
  sm_draftId :: jval
  sm_passed :: nat
  sm_failed :: nat

record 'w smoke_platform =
  sp_fetch :: "string \<Rightarrow> string \<Rightarrow> string option \<Rightarrow> 'w \<Rightarrow> (string + nat \<times> string) \<times> 'w"
  sp_parse :: "string \<Rightarrow> body_value option"
  sp_stringify :: "jval \<Rightarrow> string"
  sp_unique :: string
  sp_BASE_URL :: "string option"

type_synonym ('w, 'a) action = "'w smoke \<Rightarrow> (string + 'a) \<times> 'w smoke"

definition BASE :: "'w smoke_platform \<Rightarrow> string" where
  "BASE P = (let u = (case sp_BASE_URL P of None \<Rightarrow> ''http://localhost:3000'' | Some u \<Rightarrow> u) in
     (if u \<noteq> [] \<and> last u = CHR ''/'' then butlast u else u) @ ''/api'')"

text \<open>No body is empty: the empty one stands for none. The trace, which only the statements use, has the answered requests.\<close>

definition call ::
  "'w smoke_platform \<Rightarrow> string \<Rightarrow> string \<Rightarrow> request_body \<Rightarrow> (nat \<Rightarrow> jval \<Rightarrow> ('w, 'a) action) \<Rightarrow> ('w, 'a) action" where
  "call P verb path body k s =
     (case sp_fetch P verb (BASE P @ path) (if body = [] then None else Some (sp_stringify P (Some (BObj body)))) (sm_world s) of
        (Inl m, w) \<Rightarrow> (Inl m, s\<lparr>sm_world := w\<rparr>)
      | (Inr (status, content), w) \<Rightarrow>
          let data = Some (case sp_parse P content of None \<Rightarrow> BStr content | Some v \<Rightarrow> v) in
            k status data (s\<lparr>sm_world := w, sm_trace := sm_trace s @ [(verb, path, status, data)]\<rparr>))"

definition reading_value :: "string + 'b \<Rightarrow> ('b \<Rightarrow> ('w, 'a) action) \<Rightarrow> ('w, 'a) action" where
  "reading_value r k s = (case r of Inl m \<Rightarrow> (Inl m, s) | Inr x \<Rightarrow> k x s)"

definition storing :: "('w smoke \<Rightarrow> 'w smoke) \<Rightarrow> ('w, 'a) action \<Rightarrow> ('w, 'a) action" where
  "storing f k s = k (f s)"

definition expecting :: "bool \<Rightarrow> string \<Rightarrow> ('w, 'a) action \<Rightarrow> ('w, 'a) action" where
  "expecting condition message k s = (if condition then k s else (Inl message, s))"

definition shows_line :: "string \<Rightarrow> ('w, string) action" where
  "shows_line x s = (Inr x, s)"

text \<open>\<open>step\<close>.\<close>

definition run_step :: "string \<Rightarrow> ('w, string) action \<Rightarrow> 'w smoke \<Rightarrow> 'w smoke" where
  "run_step pattern f s = (case f s of
     (Inr _, s') \<Rightarrow> s'\<lparr>sm_passed := Suc (sm_passed s'), sm_steps := sm_steps s' @ [(pattern, True)]\<rparr>
   | (Inl _, s') \<Rightarrow> s'\<lparr>sm_failed := Suc (sm_failed s'), sm_steps := sm_steps s' @ [(pattern, False)]\<rparr>)"

definition owner_name :: "'w smoke_platform \<Rightarrow> string" where
  "owner_name P = ''Ayesha Khan '' @ sp_unique P"

text \<open>\<open>encodeURIComponent\<close> of the owner: \<open>unique\<close> is a number in base 36.\<close>

definition encoded_owner :: "'w smoke_platform \<Rightarrow> string" where
  "encoded_owner P = concat (map (\<lambda>c. if c = CHR '' '' then ''%20'' else [c]) (owner_name P))"

abbreviation whole_value :: "int \<Rightarrow> body_value" where
  "whole_value n \<equiv> BNum (Finite (of_int n))"

text \<open>A property that is \<open>undefined\<close> is left out of the JSON.\<close>

definition with_value :: "string \<Rightarrow> jval \<Rightarrow> request_body \<Rightarrow> request_body" where
  "with_value k v b = (case v of None \<Rightarrow> b | Some x \<Rightarrow> (k, x) # b)"

section \<open>The steps\<close>

definition onboarding_step :: "'w smoke_platform \<Rightarrow> ('w, string) action" where
  "onboarding_step P =
     call P ''POST'' ''/banking/onboard''
       [(''ownerName'', BStr (owner_name P)), (''type'', BStr ''SAVINGS''), (''currency'', BStr ''PKR''),
        (''productCode'', BStr ''FREELANCER_SAVER''), (''initialDepositMinor'', whole_value 12000000)] (\<lambda>st r.
     expecting (st = 201) (sp_stringify P r) (
     reading_value (field_of ''account'' r) (\<lambda>savings.
     storing (\<lambda>s. s\<lparr>sm_savings := savings\<rparr>) (
     call P ''POST'' ''/banking/onboard''
       [(''ownerName'', BStr (owner_name P)), (''type'', BStr ''CURRENT''), (''currency'', BStr ''PKR''),
        (''initialDepositMinor'', whole_value 500000)] (\<lambda>_ c.
     reading_value (field_of ''account'' c) (\<lambda>current.
     storing (\<lambda>s. s\<lparr>sm_current := current\<rparr>) (
     reading_value (field_of ''accountNumber'' savings) (\<lambda>number.
     reading_value (field_of ''status'' savings) (\<lambda>status.
     reading_value (field_of ''balanceFormatted'' savings) (\<lambda>formatted.
     shows_line (shown_value number @ '' '' @ shown_value status @ '' '' @ shown_value formatted)))))))))))"

definition factory_step :: "'w smoke_platform \<Rightarrow> ('w, string) action" where
  "factory_step P =
     call P ''POST'' ''/accounts''
       [(''ownerName'', BStr (owner_name P)), (''type'', BStr ''FIXED_DEPOSIT''), (''currency'', BStr ''PKR''),
        (''initialDepositMinor'', whole_value 100)] (\<lambda>st r.
     expecting (st = 422) (''expected 422, got '' @ show_nat st) (
     reading_value (field_of ''message'' r) (\<lambda>m. shows_line (shown_value m))))"

definition prototype_step :: "'w smoke_platform \<Rightarrow> ('w, string) action" where
  "prototype_step P =
     call P ''GET'' ''/accounts/products'' [] (\<lambda>_ r.
     reading_value (find_item ''code'' ''BASIC_SAVER'' r) (\<lambda>basic.
     reading_value (find_item ''code'' ''STUDENT_SAVER'' r) (\<lambda>student.
     reading_value (path_of [''features'', ''perks'', ''length''] basic) (\<lambda>n.
     expecting (is_amount 1 n) ''prototype was mutated by a clone'' (
     reading_value (path_of [''features'', ''perks'', ''length''] student) (\<lambda>m.
     expecting (is_amount 2 m) ''prototype was mutated by a clone'' (
     reading_value (ebind (path_of [''features'', ''perks''] student) (joined '', '')) (\<lambda>perks.
     shows_line (''STUDENT_SAVER perks: '' @ perks)))))))))"

definition singleton_step :: "'w smoke_platform \<Rightarrow> ('w, string) action" where
  "singleton_step P s = reading_value (field_of ''id'' (sm_current s)) (\<lambda>i.
     call P ''POST'' ''/transactions/deposit'' (with_value ''accountId'' i [(''amountMinor'', whole_value 100000)]) (\<lambda>_ r.
     reading_value (field_of ''reference'' r) (\<lambda>ref.
     expecting (deposit_reference ref) (sp_stringify P r) (
     reading_value (field_of ''commandId'' r) (\<lambda>c.
     storing (\<lambda>s. s\<lparr>sm_commandId := c\<rparr>) (
     shows_line (shown_value ref))))))) s"

definition undo_path :: "'w smoke \<Rightarrow> string" where
  "undo_path s = ''/transactions/commands/'' @ shown_value (sm_commandId s) @ ''/undo''"

definition command_step :: "'w smoke_platform \<Rightarrow> ('w, string) action" where
  "command_step P s =
     call P ''POST'' (undo_path s) [] (\<lambda>st1 r.
     call P ''POST'' (undo_path s) [] (\<lambda>st2 _.
     expecting (st1 = 201 \<and> st2 = 422) (show_nat st1 @ ''/'' @ show_nat st2) (
     reading_value (field_of ''reference'' r) (\<lambda>ref.
     shows_line (''reversal '' @ shown_value ref))))) s"

definition transfer_body_of :: "jval \<Rightarrow> jval \<Rightarrow> int \<Rightarrow> string \<Rightarrow> request_body" where
  "transfer_body_of a b amount channel =
     with_value ''fromAccountId'' a (with_value ''toAccountId'' b [(''amountMinor'', whole_value amount), (''channel'', BStr channel)])"

definition decorator_step :: "'w smoke_platform \<Rightarrow> ('w, string) action" where
  "decorator_step P s = reading_value (field_of ''id'' (sm_savings s)) (\<lambda>a.
     reading_value (field_of ''id'' (sm_current s)) (\<lambda>b.
     call P ''POST'' ''/transactions/transfer'' (transfer_body_of a b 250000 ''branch'') (\<lambda>st r.
     expecting (st = 201) (sp_stringify P r) (
     reading_value (ebind (field_of ''pipeline'' r) (joined ''>'')) (\<lambda>layers.
     expecting (layers = ''audit>fraud-screening>fee>ledger'') layers (
     reading_value (ebind (field_of ''pipeline'' r) (joined '' > '')) (\<lambda>pipeline.
     reading_value (field_of ''feeMinor'' r) (\<lambda>fee.
     shows_line (''pipeline '' @ pipeline @ '', fee '' @ shown_value fee))))))))) s"

definition interpreter_step :: "'w smoke_platform \<Rightarrow> ('w, string) action" where
  "interpreter_step P s = reading_value (field_of ''id'' (sm_savings s)) (\<lambda>a.
     reading_value (field_of ''id'' (sm_current s)) (\<lambda>b.
     call P ''POST'' ''/transactions/transfer'' (transfer_body_of a b 6000000 ''mobile'') (\<lambda>st r.
     expecting (st = 403) (''expected 403, got '' @ show_nat st) (
     call P ''POST'' ''/fraud/evaluate''
       [(''rule'', BStr ''amount > 100 AND NOT (channel == 'web' OR hour < 5)''),
        (''context'', BObj [(''amount'', whole_value 500), (''channel'', BStr ''mobile''), (''hour'', whole_value 12)])] (\<lambda>_ parsed.
     reading_value (ebind (path_of [''details'', ''matchedRules''] r) first_item) (\<lambda>rule.
     reading_value (field_of ''parsedAs'' parsed) (\<lambda>text.
     reading_value (field_of ''matched'' parsed) (\<lambda>matched.
     shows_line (''blocked by \"'' @ shown_value rule @ ''\"; parsedAs '' @ shown_value text @ '' = '' @ shown_value matched))))))))) s"

definition chain_step :: "'w smoke_platform \<Rightarrow> ('w, string) action" where
  "chain_step P s = reading_value (field_of ''id'' (sm_current s)) (\<lambda>i.
     call P ''POST'' ''/transactions/withdraw'' (with_value ''accountId'' i [(''amountMinor'', whole_value 999999999)]) (\<lambda>st r.
     expecting (st = 422) (''expected 422, got '' @ show_nat st) (
     reading_value (field_of ''message'' r) (\<lambda>m. shows_line (shown_value m))))) s"

definition status_path :: "jval \<Rightarrow> string" where
  "status_path i = ''/accounts/'' @ shown_value i @ ''/status''"

definition state_step :: "'w smoke_platform \<Rightarrow> ('w, string) action" where
  "state_step P s = reading_value (field_of ''id'' (sm_current s)) (\<lambda>i.
     call P ''PATCH'' (status_path i) [(''action'', BStr ''freeze'')] (\<lambda>_ _.
     call P ''POST'' ''/transactions/deposit'' (with_value ''accountId'' i [(''amountMinor'', whole_value 1000)]) (\<lambda>st1 _.
     call P ''POST'' ''/transactions/withdraw'' (with_value ''accountId'' i [(''amountMinor'', whole_value 1000)]) (\<lambda>st2 wdl.
     call P ''PATCH'' (status_path i) [(''action'', BStr ''unfreeze'')] (\<lambda>_ _.
     expecting (st1 = 201 \<and> st2 = 409) (show_nat st1 @ ''/'' @ show_nat st2) (
     reading_value (field_of ''message'' wdl) (\<lambda>m. shows_line (shown_value m)))))))) s"

definition strategy_step :: "'w smoke_platform \<Rightarrow> ('w, string) action" where
  "strategy_step P s = reading_value (field_of ''id'' (sm_savings s)) (\<lambda>i.
     call P ''GET'' (''/accounts/'' @ shown_value i @ ''/interest-preview'') [] (\<lambda>_ r.
     reading_value (field_of ''strategy'' r) (\<lambda>strategy.
     expecting (is_text ''tiered'' strategy) (shown_value strategy) (
     reading_value (field_of ''formatted'' r) (\<lambda>f.
     shows_line (shown_value strategy @ '': '' @ shown_value f @ '' per month'')))))) s"

definition composite_step :: "'w smoke_platform \<Rightarrow> ('w, string) action" where
  "composite_step P =
     call P ''GET'' (''/accounts/portfolio/'' @ encoded_owner P) [] (\<lambda>_ r.
     reading_value (field_of ''accounts'' r) (\<lambda>n.
     expecting (is_amount 2 n) (sp_stringify P r) (
     reading_value (ebind (field_of ''formattedTotals'' r) (joined '', '')) (\<lambda>totals.
     shows_line (shown_value n @ '' accounts, total '' @ totals)))))"

definition visitor_step :: "'w smoke_platform \<Rightarrow> ('w, string) action" where
  "visitor_step P =
     call P ''GET'' ''/accounts/reports/month-end'' [] (\<lambda>_ r.
     reading_value (field_of ''totalFeesMinor'' r) (\<lambda>fees.
     expecting (is_numeric fees) (sp_stringify P r) (
     reading_value (field_of ''accounts'' r) (\<lambda>n.
     reading_value (field_of ''totalTaxMinor'' r) (\<lambda>tax.
     shows_line (shown_value n @ '' accounts, fees '' @ shown_value fees @ '', tax '' @ shown_value tax))))))"

definition flyweight_step :: "'w smoke_platform \<Rightarrow> ('w, string) action" where
  "flyweight_step P =
     call P ''GET'' ''/accounts/currencies'' [] (\<lambda>_ r.
     reading_value (field_of ''sharedCurrencyObjectsInMemory'' r) (\<lambda>n.
     shows_line (''shared Currency objects in memory: '' @ shown_value n)))"

definition bridge_step :: "'w smoke_platform \<Rightarrow> ('w, string) action" where
  "bridge_step P s = reading_value (field_of ''id'' (sm_savings s)) (\<lambda>i.
     call P ''GET'' (''/statements/'' @ shown_value i @ ''?type=detailed&format=text'') [] (\<lambda>_ text.
     reading_value (field_of ''id'' (sm_savings s)) (\<lambda>i.
     call P ''GET'' (''/statements/'' @ shown_value i @ ''?type=mini&format=csv'') [] (\<lambda>_ csv.
     expecting (js_includes ''DETAILED STATEMENT'' (shown_value text) \<and> starts_with ''date,reference,amount'' (shown_value csv))
       ''unexpected output'' (
     shows_line (case find (starts_with ''Closing balance'') (js_split (CHR 0x0A) (shown_value text)) of
       None \<Rightarrow> [] | Some l \<Rightarrow> l)))))) s"

definition iterator_step :: "'w smoke_platform \<Rightarrow> ('w, string) action" where
  "iterator_step P s = reading_value (field_of ''id'' (sm_savings s)) (\<lambda>i.
     call P ''GET'' (''/transactions/accounts/'' @ shown_value i @ ''/export.csv'') [] (\<lambda>_ r.
     shows_line (show_int (int (length (js_split (CHR 0x0A) (js_trim (shown_value r)))) - 1) @ '' rows exported''))) s"

definition proxy_step :: "'w smoke_platform \<Rightarrow> ('w, string) action" where
  "proxy_step P =
     call P ''GET'' ''/fx/convert?from=GBP&to=AED&amountMinor=10000'' [] (\<lambda>_ _.
     call P ''GET'' ''/fx/convert?from=GBP&to=AED&amountMinor=10000'' [] (\<lambda>_ r.
     reading_value (field_of ''source'' r) (\<lambda>source.
     expecting (is_text ''cache'' source) (shown_value source) (
     reading_value (field_of ''amount'' r) (\<lambda>amount.
     reading_value (field_of ''converted'' r) (\<lambda>converted.
     reading_value (field_of ''tookMs'' r) (\<lambda>took.
     shows_line (shown_value amount @ '' = '' @ shown_value converted @ '' (source '' @ shown_value source @ '', '' @
       shown_value took @ ''ms)''))))))))"

definition abstract_factory_step :: "'w smoke_platform \<Rightarrow> ('w, string) action" where
  "abstract_factory_step P =
     call P ''POST'' ''/payments/quote''
       [(''rail'', BStr ''SWIFT''), (''amountMinor'', whole_value 5000000), (''currency'', BStr ''USD''),
        (''beneficiaryName'', BStr ''Bilal''), (''beneficiaryIban'', BStr ''DE89370400440532013000''),
        (''beneficiaryBic'', BStr ''DEUTDEFF''), (''purpose'', BStr ''Tuition'')] (\<lambda>_ swift.
     call P ''POST'' ''/payments/quote''
       [(''rail'', BStr ''RAAST''), (''amountMinor'', whole_value 5000000), (''currency'', BStr ''USD''),
        (''beneficiaryName'', BStr ''Bilal''), (''beneficiaryIban'', BStr ''bad'')] (\<lambda>_ raast.
     reading_value (field_of ''valid'' swift) (\<lambda>v.
     expecting (truthy v) ''unexpected validation'' (
     reading_value (field_of ''valid'' raast) (\<lambda>w.
     expecting (\<not> truthy w) ''unexpected validation'' (
     reading_value (field_of ''feeMinor'' swift) (\<lambda>fee.
     reading_value (path_of [''errors'', ''length''] raast) (\<lambda>n.
     shows_line (''SWIFT fee '' @ shown_value fee @ ''; RAAST errors: '' @ shown_value n)))))))))"

definition draft_path :: "jval \<Rightarrow> string" where
  "draft_path d = ''/loans/drafts/'' @ shown_value d"

definition memento_step :: "'w smoke_platform \<Rightarrow> ('w, string) action" where
  "memento_step P s = reading_value (field_of ''id'' (sm_savings s)) (\<lambda>i.
     call P ''POST'' ''/loans/drafts''
       ((''applicantName'', BStr ''Ali Raza'') # with_value ''accountId'' i
         [(''amountMinor'', whole_value 50000000), (''termMonths'', whole_value 24), (''purpose'', BStr ''car''),
          (''monthlyIncomeMinor'', whole_value 40000000)]) (\<lambda>_ r.
     reading_value (field_of ''draftId'' r) (\<lambda>d.
     storing (\<lambda>s. s\<lparr>sm_draftId := d\<rparr>) (
     call P ''PATCH'' (draft_path d) [(''amountMinor'', whole_value 90000000)] (\<lambda>_ _.
     call P ''POST'' (draft_path d @ ''/undo'') [] (\<lambda>_ undone.
     reading_value (path_of [''fields'', ''amountMinor''] undone) (\<lambda>amount.
     expecting (is_amount 50000000 amount) (sp_stringify P undone) (
     shows_line (''amount restored to '' @ shown_value amount))))))))) s"

definition mediator_step :: "'w smoke_platform \<Rightarrow> ('w, string) action" where
  "mediator_step P s =
     call P ''POST'' (draft_path (sm_draftId s) @ ''/submit'') [] (\<lambda>st r.
     expecting (st = 201) (sp_stringify P r) (
     reading_value (field_of ''status'' r) (\<lambda>status.
     reading_value (ebind (field_of ''decisionLog'' r) (joined '' | '')) (\<lambda>log.
     shows_line (shown_value status @ '': '' @ log))))) s"

definition template_step :: "'w smoke_platform \<Rightarrow> ('w, string) action" where
  "template_step P =
     call P ''POST'' ''/operations/jobs/interest-posting/run'' [] (\<lambda>_ r.
     reading_value (field_of ''job'' r) (\<lambda>job.
     expecting (is_text ''interest-posting'' job) (sp_stringify P r) (
     reading_value (field_of ''scanned'' r) (\<lambda>scanned.
     reading_value (field_of ''affected'' r) (\<lambda>affected.
     reading_value (field_of ''failed'' r) (\<lambda>failures.
     shows_line (''scanned '' @ shown_value scanned @ '', affected '' @ shown_value affected @ '', failed '' @
       shown_value failures)))))))"

definition observer_step :: "'w smoke_platform \<Rightarrow> ('w, string) action" where
  "observer_step P =
     call P ''GET'' ''/events/stats'' [] (\<lambda>_ r.
     reading_value (path_of [''observers'', ''length''] r) (\<lambda>n.
     expecting (at_least 3 n) (sp_stringify P r) (
     reading_value (ebind (field_of ''observers'' r) (joined '', '')) (\<lambda>observers.
     reading_value (field_of ''transport'' r) (\<lambda>transport.
     shows_line (''observers: '' @ observers @ '' | transport: '' @ shown_value transport))))))"

definition rag_step :: "'w smoke_platform \<Rightarrow> ('w, string) action" where
  "rag_step P =
     call P ''POST'' ''/ai/ingest'' [] (\<lambda>st1 r1.
     if st1 = 503 then reading_value (field_of ''message'' r1) (\<lambda>m.
       shows_line (''SKIPPED (model not ready yet): '' @ shown_value m))
     else call P ''POST'' ''/ai/ask'' [(''question'', BStr ''What is the fee for a SWIFT international transfer?'')] (\<lambda>st r.
     if st = 503 then reading_value (field_of ''message'' r) (\<lambda>m.
       shows_line (''SKIPPED (chat model not ready yet): '' @ shown_value m))
     else expecting (st = 201) (sp_stringify P r) (
     reading_value (ebind (field_of ''answer'' r) (sliced 160)) (\<lambda>answer.
     reading_value (ebind (ebind (field_of ''sources'' r) first_item) (optional_field ''source'')) (\<lambda>source.
     shows_line (answer @ '' [top source: '' @ shown_value source @ '']''))))))"

definition STEPS :: "'w smoke_platform \<Rightarrow> (string \<times> ('w, string) action) list" where
  "STEPS P =
     [(''Facade'', onboarding_step P), (''Factory Method'', factory_step P), (''Prototype'', prototype_step P),
      (''Singleton'', singleton_step P), (''Command'', command_step P), (''Decorator'', decorator_step P),
      (''Interpreter'', interpreter_step P), (''Chain of Responsibility'', chain_step P), (''State'', state_step P),
      (''Strategy'', strategy_step P), (''Composite'', composite_step P), (''Visitor'', visitor_step P),
      (''Flyweight'', flyweight_step P), (''Bridge'', bridge_step P), (''Iterator'', iterator_step P), (''Proxy'', proxy_step P),
      (''Abstract Factory'', abstract_factory_step P), (''Memento'', memento_step P),
      (''Builder + Mediator + Adapter'', mediator_step P), (''Template Method'', template_step P),
      (''Observer'', observer_step P), (''RAG'', rag_step P)]"

definition smoke_start :: "'w \<Rightarrow> 'w smoke" where
  "smoke_start w = \<lparr>sm_world = w, sm_trace = [], sm_steps = [], sm_savings = None, sm_current = None, sm_commandId = None,
     sm_draftId = None, sm_passed = 0, sm_failed = 0\<rparr>"

text \<open>The exit code and the state at the end. A failed \<open>fetch\<close> counts as status 0.\<close>

definition run_steps :: "(string \<times> ('w, string) action) list \<Rightarrow> 'w smoke \<Rightarrow> 'w smoke" where
  "run_steps fs s = fold (\<lambda>(pattern, f). run_step pattern f) fs s"

definition smoke_exit :: "'w smoke \<Rightarrow> nat" where
  "smoke_exit s = (if sm_failed s \<noteq> 0 then 1 else 0)"

definition smoke_main :: "'w smoke_platform \<Rightarrow> 'w \<Rightarrow> nat \<times> 'w smoke" where
  "smoke_main P w = (case call P ''GET'' ''/health/ready'' [] (\<lambda>st _ s. (Inr st, s)) (smoke_start w) of
     (r, s) \<Rightarrow> let health = (case r of Inl _ \<Rightarrow> 0 | Inr st \<Rightarrow> st) in
       if health \<noteq> 200 then (1, s)
       else let s' = run_steps (STEPS P) s in (smoke_exit s', s'))"

section \<open>What a passed step has seen\<close>

text \<open>A request that was answered: its method, how its path begins and ends, and its status where the step asks for it.\<close>

type_synonym expectation = "string \<times> string \<times> string \<times> (nat \<Rightarrow> jval \<Rightarrow> bool)"

definition anything :: "nat \<Rightarrow> jval \<Rightarrow> bool" where
  "anything st r = True"

definition status_is :: "nat \<Rightarrow> nat \<Rightarrow> jval \<Rightarrow> bool" where
  "status_is n st r \<longleftrightarrow> st = n"

definition has_value :: "string list \<Rightarrow> (jval \<Rightarrow> bool) \<Rightarrow> nat \<Rightarrow> jval \<Rightarrow> bool" where
  "has_value ks ok st r \<longleftrightarrow> (\<exists>v. path_of ks r = Inr v \<and> ok v)"

definition created_through :: "string \<Rightarrow> nat \<Rightarrow> jval \<Rightarrow> bool" where
  "created_through layers st r \<longleftrightarrow> st = 201 \<and> ebind (field_of ''pipeline'' r) (joined ''>'') = Inr layers"

definition perks_apart :: "nat \<Rightarrow> jval \<Rightarrow> bool" where
  "perks_apart st r \<longleftrightarrow> (\<exists>basic student n m. find_item ''code'' ''BASIC_SAVER'' r = Inr basic \<and>
     find_item ''code'' ''STUDENT_SAVER'' r = Inr student \<and> path_of [''features'', ''perks'', ''length''] basic = Inr n \<and>
     path_of [''features'', ''perks'', ''length''] student = Inr m \<and> is_amount 1 n \<and> is_amount 2 m)"

definition text_with :: "(string \<Rightarrow> bool) \<Rightarrow> nat \<Rightarrow> jval \<Rightarrow> bool" where
  "text_with ok st r \<longleftrightarrow> ok (shown_value r)"

fun fulfils :: "expectation \<Rightarrow> string \<times> string \<times> nat \<times> jval \<Rightarrow> bool" where
  "fulfils (verb, first, rest, ok) (v, path, status, data) \<longleftrightarrow>
     v = verb \<and> starts_with first path \<and> suffix rest path \<and> ok status data"

lemmas expectations = anything_def status_is_def has_value_def created_through_def perks_apart_def text_with_def

text \<open>The requests a step has added begin with what it certifies.\<close>

fun begins :: "expectation list \<Rightarrow> (string \<times> string \<times> nat \<times> jval) list \<Rightarrow> bool" where
  "begins [] t = True"
| "begins (e # es) [] = False"
| "begins (e # es) (x # t) = (fulfils e x \<and> begins es t)"

definition certifies :: "('w, string) action \<Rightarrow> expectation list \<Rightarrow> bool" where
  "certifies f es \<longleftrightarrow> (\<forall>s x s'. f s = (Inr x, s') \<longrightarrow> (\<exists>t. sm_trace s' = sm_trace s @ t \<and> begins es t))"

lemma call_passes:
  "call P v p b k s = (Inr x, s') \<Longrightarrow>
     (\<And>st r w. k st r (s\<lparr>sm_world := w, sm_trace := sm_trace s @ [(v, p, st, r)]\<rparr>) = (Inr x, s') \<Longrightarrow> thesis) \<Longrightarrow> thesis"
  by (auto simp: call_def Let_def split: prod.splits sum.splits)

lemma reading_passes: "reading_value r k s = (Inr x, s') \<Longrightarrow> (\<And>y. r = Inr y \<Longrightarrow> k y s = (Inr x, s') \<Longrightarrow> thesis) \<Longrightarrow> thesis"
  by (auto simp: reading_value_def split: sum.splits)

lemma expecting_passes: "expecting c m k s = (Inr x, s') \<Longrightarrow> (c \<Longrightarrow> k s = (Inr x, s') \<Longrightarrow> thesis) \<Longrightarrow> thesis"
  by (auto simp: expecting_def split: if_splits)

lemma storing_passes: "storing f k s = (Inr x, s') \<Longrightarrow> (k (f s) = (Inr x, s') \<Longrightarrow> thesis) \<Longrightarrow> thesis"
  by (simp add: storing_def)

lemma line_passes: "shows_line y s = (Inr x, s') \<Longrightarrow> (s' = s \<Longrightarrow> thesis) \<Longrightarrow> thesis"
  by (simp add: shows_line_def)

lemmas passes = call_passes reading_passes expecting_passes storing_passes line_passes

lemma begins_as_told: "starts_with p (p @ x)" "suffix q (x @ q)"
  by (simp_all add: starts_with_def suffix_def)

lemmas step_paths = undo_path_def status_path_def draft_path_def starts_with_def suffix_def

definition certified :: "(string \<times> expectation list) list" where
  "certified =
     [(''Facade'', [(''POST'', ''/banking/onboard'', [], status_is 201), (''POST'', ''/banking/onboard'', [], anything)]),
      (''Factory Method'', [(''POST'', ''/accounts'', [], status_is 422)]),
      (''Prototype'', [(''GET'', ''/accounts/products'', [], perks_apart)]),
      (''Singleton'', [(''POST'', ''/transactions/deposit'', [], has_value [''reference''] deposit_reference)]),
      (''Command'', [(''POST'', ''/transactions/commands/'', ''/undo'', status_is 201), (''POST'', ''/transactions/commands/'', ''/undo'', status_is 422)]),
      (''Decorator'', [(''POST'', ''/transactions/transfer'', [], created_through ''audit>fraud-screening>fee>ledger'')]),
      (''Interpreter'', [(''POST'', ''/transactions/transfer'', [], status_is 403), (''POST'', ''/fraud/evaluate'', [], anything)]),
      (''Chain of Responsibility'', [(''POST'', ''/transactions/withdraw'', [], status_is 422)]),
      (''State'', [(''PATCH'', ''/accounts/'', ''/status'', anything), (''POST'', ''/transactions/deposit'', [], status_is 201),
         (''POST'', ''/transactions/withdraw'', [], status_is 409), (''PATCH'', ''/accounts/'', ''/status'', anything)]),
      (''Strategy'', [(''GET'', ''/accounts/'', ''/interest-preview'', has_value [''strategy''] (is_text ''tiered''))]),
      (''Composite'', [(''GET'', ''/accounts/portfolio/'', [], has_value [''accounts''] (is_amount 2))]),
      (''Visitor'', [(''GET'', ''/accounts/reports/month-end'', [], has_value [''totalFeesMinor''] is_numeric)]),
      (''Flyweight'', [(''GET'', ''/accounts/currencies'', [], anything)]),
      (''Bridge'', [(''GET'', ''/statements/'', ''?type=detailed&format=text'', text_with (js_includes ''DETAILED STATEMENT'')), (''GET'', ''/statements/'', ''?type=mini&format=csv'', text_with (starts_with ''date,reference,amount''))]),
      (''Iterator'', [(''GET'', ''/transactions/accounts/'', ''/export.csv'', anything)]),
      (''Proxy'', [(''GET'', ''/fx/convert?from=GBP&to=AED&amountMinor=10000'', [], anything),
         (''GET'', ''/fx/convert?from=GBP&to=AED&amountMinor=10000'', [], has_value [''source''] (is_text ''cache''))]),
      (''Abstract Factory'', [(''POST'', ''/payments/quote'', [], has_value [''valid''] truthy), (''POST'', ''/payments/quote'', [], has_value [''valid''] (\<lambda>v. \<not> truthy v))]),
      (''Memento'', [(''POST'', ''/loans/drafts'', [], anything), (''PATCH'', ''/loans/drafts/'', [], anything), (''POST'', ''/loans/drafts/'', ''/undo'', has_value [''fields'', ''amountMinor''] (is_amount 50000000))]),
      (''Builder + Mediator + Adapter'', [(''POST'', ''/loans/drafts/'', ''/submit'', status_is 201)]),
      (''Template Method'', [(''POST'', ''/operations/jobs/interest-posting/run'', [], has_value [''job''] (is_text ''interest-posting''))]),
      (''Observer'', [(''GET'', ''/events/stats'', [], has_value [''observers'', ''length''] (at_least 3))]),
      (''RAG'', [(''POST'', ''/ai/ingest'', [], anything)])]"

lemma onboarding_step_certifies: "certifies (onboarding_step P) [(''POST'', ''/banking/onboard'', [], status_is 201), (''POST'', ''/banking/onboard'', [], anything)]"
  unfolding certifies_def onboarding_step_def by (auto elim!: passes simp: step_paths expectations)

lemma factory_step_certifies: "certifies (factory_step P) [(''POST'', ''/accounts'', [], status_is 422)]"
  unfolding certifies_def factory_step_def by (auto elim!: passes simp: step_paths expectations)

lemma prototype_step_certifies: "certifies (prototype_step P) [(''GET'', ''/accounts/products'', [], perks_apart)]"
  unfolding certifies_def prototype_step_def by (auto elim!: passes simp: step_paths expectations)

lemma singleton_step_certifies: "certifies (singleton_step P) [(''POST'', ''/transactions/deposit'', [], has_value [''reference''] deposit_reference)]"
  unfolding certifies_def singleton_step_def by (auto elim!: passes simp: step_paths expectations)

lemma command_step_certifies: "certifies (command_step P) [(''POST'', ''/transactions/commands/'', ''/undo'', status_is 201), (''POST'', ''/transactions/commands/'', ''/undo'', status_is 422)]"
  unfolding certifies_def command_step_def by (auto elim!: passes simp: step_paths expectations)

lemma decorator_step_certifies: "certifies (decorator_step P) [(''POST'', ''/transactions/transfer'', [], created_through ''audit>fraud-screening>fee>ledger'')]"
  unfolding certifies_def decorator_step_def by (auto elim!: passes simp: step_paths expectations)

lemma interpreter_step_certifies: "certifies (interpreter_step P) [(''POST'', ''/transactions/transfer'', [], status_is 403), (''POST'', ''/fraud/evaluate'', [], anything)]"
  unfolding certifies_def interpreter_step_def by (auto elim!: passes simp: step_paths expectations)

lemma chain_step_certifies: "certifies (chain_step P) [(''POST'', ''/transactions/withdraw'', [], status_is 422)]"
  unfolding certifies_def chain_step_def by (auto elim!: passes simp: step_paths expectations)

lemma state_step_certifies: "certifies (state_step P) [(''PATCH'', ''/accounts/'', ''/status'', anything), (''POST'', ''/transactions/deposit'', [], status_is 201), (''POST'', ''/transactions/withdraw'', [], status_is 409), (''PATCH'', ''/accounts/'', ''/status'', anything)]"
  unfolding certifies_def state_step_def by (auto elim!: passes simp: step_paths expectations)

lemma strategy_step_certifies: "certifies (strategy_step P) [(''GET'', ''/accounts/'', ''/interest-preview'', has_value [''strategy''] (is_text ''tiered''))]"
  unfolding certifies_def strategy_step_def by (auto elim!: passes simp: step_paths expectations)

lemma composite_step_certifies: "certifies (composite_step P) [(''GET'', ''/accounts/portfolio/'', [], has_value [''accounts''] (is_amount 2))]"
  unfolding certifies_def composite_step_def by (auto elim!: passes simp: step_paths expectations)

lemma visitor_step_certifies: "certifies (visitor_step P) [(''GET'', ''/accounts/reports/month-end'', [], has_value [''totalFeesMinor''] is_numeric)]"
  unfolding certifies_def visitor_step_def by (auto elim!: passes simp: step_paths expectations)

lemma flyweight_step_certifies: "certifies (flyweight_step P) [(''GET'', ''/accounts/currencies'', [], anything)]"
  unfolding certifies_def flyweight_step_def by (auto elim!: passes simp: step_paths expectations)

lemma bridge_step_certifies: "certifies (bridge_step P) [(''GET'', ''/statements/'', ''?type=detailed&format=text'', text_with (js_includes ''DETAILED STATEMENT'')), (''GET'', ''/statements/'', ''?type=mini&format=csv'', text_with (starts_with ''date,reference,amount''))]"
  unfolding certifies_def bridge_step_def by (auto elim!: passes simp: step_paths expectations)

lemma iterator_step_certifies: "certifies (iterator_step P) [(''GET'', ''/transactions/accounts/'', ''/export.csv'', anything)]"
  unfolding certifies_def iterator_step_def by (auto elim!: passes simp: step_paths expectations)

lemma proxy_step_certifies: "certifies (proxy_step P) [(''GET'', ''/fx/convert?from=GBP&to=AED&amountMinor=10000'', [], anything), (''GET'', ''/fx/convert?from=GBP&to=AED&amountMinor=10000'', [], has_value [''source''] (is_text ''cache''))]"
  unfolding certifies_def proxy_step_def by (auto elim!: passes simp: step_paths expectations)

lemma abstract_factory_step_certifies: "certifies (abstract_factory_step P) [(''POST'', ''/payments/quote'', [], has_value [''valid''] truthy), (''POST'', ''/payments/quote'', [], has_value [''valid''] (\<lambda>v. \<not> truthy v))]"
  unfolding certifies_def abstract_factory_step_def by (auto elim!: passes simp: step_paths expectations)

lemma memento_step_certifies: "certifies (memento_step P) [(''POST'', ''/loans/drafts'', [], anything), (''PATCH'', ''/loans/drafts/'', [], anything), (''POST'', ''/loans/drafts/'', ''/undo'', has_value [''fields'', ''amountMinor''] (is_amount 50000000))]"
  unfolding certifies_def memento_step_def by (auto elim!: passes simp: step_paths expectations)

lemma mediator_step_certifies: "certifies (mediator_step P) [(''POST'', ''/loans/drafts/'', ''/submit'', status_is 201)]"
  unfolding certifies_def mediator_step_def by (auto elim!: passes simp: step_paths expectations)

lemma template_step_certifies: "certifies (template_step P) [(''POST'', ''/operations/jobs/interest-posting/run'', [], has_value [''job''] (is_text ''interest-posting''))]"
  unfolding certifies_def template_step_def by (auto elim!: passes simp: step_paths expectations)

lemma observer_step_certifies: "certifies (observer_step P) [(''GET'', ''/events/stats'', [], has_value [''observers'', ''length''] (at_least 3))]"
  unfolding certifies_def observer_step_def by (auto elim!: passes simp: step_paths expectations)

lemma rag_step_certifies: "certifies (rag_step P) [(''POST'', ''/ai/ingest'', [], anything)]"
  unfolding certifies_def rag_step_def by (auto elim!: passes simp: step_paths expectations split: if_splits)

lemmas steps_certify = onboarding_step_certifies factory_step_certifies prototype_step_certifies singleton_step_certifies 
  command_step_certifies decorator_step_certifies interpreter_step_certifies chain_step_certifies 
  state_step_certifies strategy_step_certifies composite_step_certifies visitor_step_certifies 
  flyweight_step_certifies bridge_step_certifies iterator_step_certifies proxy_step_certifies 
  abstract_factory_step_certifies memento_step_certifies mediator_step_certifies template_step_certifies 
  observer_step_certifies rag_step_certifies

section \<open>The whole run\<close>

text \<open>What the harness counts is left alone by the steps themselves.\<close>

definition tally :: "'w smoke \<Rightarrow> nat \<times> nat \<times> (string \<times> bool) list" where
  "tally s = (sm_passed s, sm_failed s, sm_steps s)"

definition keeps_tally :: "('w, string) action \<Rightarrow> bool" where
  "keeps_tally f \<longleftrightarrow> (\<forall>s. tally (snd (f s)) = tally s)"

lemma tally_updates [simp]:
  "tally (s\<lparr>sm_world := w\<rparr>) = tally s" "tally (s\<lparr>sm_trace := t\<rparr>) = tally s" "tally (s\<lparr>sm_savings := v\<rparr>) = tally s"
  "tally (s\<lparr>sm_current := v\<rparr>) = tally s" "tally (s\<lparr>sm_commandId := v\<rparr>) = tally s" "tally (s\<lparr>sm_draftId := v\<rparr>) = tally s"
  by (simp_all add: tally_def)

lemma call_keeps: "(\<And>st r s1. tally s1 = tally s \<Longrightarrow> tally (snd (k st r s1)) = tally s) \<Longrightarrow> tally (snd (call P v p b k s)) = tally s"
  by (simp add: call_def Let_def split: prod.splits sum.splits)

lemma reading_keeps: "(\<And>x. tally (snd (k x s)) = c) \<Longrightarrow> tally s = c \<Longrightarrow> tally (snd (reading_value r k s)) = c"
  by (simp add: reading_value_def split: sum.splits)

lemma expecting_keeps: "tally (snd (k s)) = c \<Longrightarrow> tally s = c \<Longrightarrow> tally (snd (expecting b m k s)) = c"
  by (simp add: expecting_def)

lemma storing_keeps: "tally (snd (k (f s))) = c \<Longrightarrow> tally (snd (storing f k s)) = c"
  by (simp add: storing_def)

lemma line_keeps: "tally s = c \<Longrightarrow> tally (snd (shows_line x s)) = c"
  by (simp add: shows_line_def)

lemma call_keeps': "(\<And>st r s1. tally s1 = c \<Longrightarrow> tally (snd (k st r s1)) = c) \<Longrightarrow> tally s = c \<Longrightarrow> tally (snd (call P v p b k s)) = c"
  using call_keeps by metis

lemma if_keeps: "(b \<Longrightarrow> tally (snd (f s)) = c) \<Longrightarrow> (\<not> b \<Longrightarrow> tally (snd (g s)) = c) \<Longrightarrow> tally (snd ((if b then f else g) s)) = c"
  by simp

lemmas keeps = if_keeps call_keeps' reading_keeps expecting_keeps storing_keeps line_keeps

lemma steps_keep: "list_all (\<lambda>(pattern, f). keeps_tally f) (STEPS P)"
  unfolding STEPS_def keeps_tally_def list.pred_inject prod.case
    onboarding_step_def factory_step_def prototype_step_def singleton_step_def command_step_def decorator_step_def
    interpreter_step_def chain_step_def state_step_def strategy_step_def composite_step_def visitor_step_def flyweight_step_def
    bridge_step_def iterator_step_def proxy_step_def abstract_factory_step_def memento_step_def mediator_step_def
    template_step_def observer_step_def rag_step_def
  by (intro conjI allI TrueI; (intro keeps | assumption | simp add: tally_def)+)

lemma steps_certified: "list_all2 (\<lambda>(pattern, f) (name, es). name = pattern \<and> certifies f es) (STEPS P) certified"
  by (simp add: STEPS_def certified_def steps_certify)

lemma run_step_cases:
  assumes "keeps_tally f"
  shows "\<exists>b. sm_steps (run_step pattern f s) = sm_steps s @ [(pattern, b)] \<and>
    sm_failed (run_step pattern f s) = sm_failed s + (if b then 0 else 1) \<and>
    sm_passed (run_step pattern f s) = sm_passed s + (if b then 1 else 0) \<and>
    (b \<and> certifies f es \<longrightarrow> (\<exists>t. sm_trace (run_step pattern f s) = sm_trace s @ t \<and> begins es t))"
proof -
  have "tally (snd (f s)) = tally s" using assms by (simp add: keeps_tally_def)
  then show ?thesis
    by (cases "f s" rule: prod.exhaust; cases "fst (f s)") (auto simp: run_step_def tally_def certifies_def)
qed

lemma run_steps_spec:
  assumes "list_all2 (\<lambda>(pattern, f) (name, es). name = pattern \<and> certifies f es) fs cs" "list_all (\<lambda>(pattern, f). keeps_tally f) fs"
  shows "\<exists>bs. length bs = length fs \<and> sm_steps (run_steps fs s) = sm_steps s @ zip (map fst cs) bs \<and>
    sm_passed (run_steps fs s) + sm_failed (run_steps fs s) = sm_passed s + sm_failed s + length fs \<and>
    sm_failed (run_steps fs s) = sm_failed s + length (filter (\<lambda>b. \<not> b) bs) \<and>
    (False \<notin> set bs \<longrightarrow> (\<exists>ts. sm_trace (run_steps fs s) = sm_trace s @ concat ts \<and> list_all2 begins (map snd cs) ts))"
  using assms
proof (induction fs cs arbitrary: s rule: list_all2_induct)
  case Nil
  then show ?case by (simp add: run_steps_def)
next
  case (Cons pf fs ce cs)
  obtain pattern f es where x: "pf = (pattern, f)" "ce = (pattern, es)" "certifies f es"
    using Cons.hyps(1) by (cases pf; cases ce) auto
  have keep: "keeps_tally f" "list_all (\<lambda>(pattern, f). keeps_tally f) fs" using Cons.prems x(1) by auto
  let ?s = "run_step pattern f s"
  have run: "run_steps (pf # fs) s = run_steps fs ?s" by (simp add: run_steps_def x)
  obtain b where b: "sm_steps ?s = sm_steps s @ [(pattern, b)]" "sm_failed ?s = sm_failed s + (if b then 0 else 1)"
    "sm_passed ?s = sm_passed s + (if b then 1 else 0)" "b \<longrightarrow> (\<exists>t. sm_trace ?s = sm_trace s @ t \<and> begins es t)"
    using run_step_cases [OF keep(1), of pattern s es] x(3) by blast
  obtain bs where bs: "length bs = length fs" "sm_steps (run_steps fs ?s) = sm_steps ?s @ zip (map fst cs) bs"
    "sm_passed (run_steps fs ?s) + sm_failed (run_steps fs ?s) = sm_passed ?s + sm_failed ?s + length fs"
    "sm_failed (run_steps fs ?s) = sm_failed ?s + length (filter (\<lambda>b. \<not> b) bs)"
    "False \<notin> set bs \<longrightarrow> (\<exists>ts. sm_trace (run_steps fs ?s) = sm_trace ?s @ concat ts \<and> list_all2 begins (map snd cs) ts)"
    using Cons.IH [of ?s] keep by blast
  have "\<exists>ts. sm_trace (run_steps fs ?s) = sm_trace s @ concat ts \<and> list_all2 begins (map snd (ce # cs)) ts"
    if "b" "False \<notin> set bs"
  proof -
    from that b(4) bs(5) obtain t ts where "sm_trace ?s = sm_trace s @ t" "begins es t"
      "sm_trace (run_steps fs ?s) = sm_trace ?s @ concat ts" "list_all2 begins (map snd cs) ts" by blast
    then show ?thesis by (intro exI [of _ "t # ts"]) (simp add: x)
  qed
  then show ?case
    unfolding run using bs b by (intro exI [of _ "b # bs"]) (auto simp: x)
qed

text \<open>
  C40: What a green run of the smoke test is worth. It exits with 0 exactly if the system was ready and none of the
  22 steps failed, every one of which is counted once; and then the server has been asked, in this order, everything
  that \<open>certified\<close> lists and has answered each request as the list says: a transfer through all four layers, the
  block of the large one with 403, the undo once with 201 and then with 422, the second rate from the cache, and so
  on. If the system is not ready it exits with 1 before the first step.
\<close>
theorem green_run_certifies:
  assumes "smoke_main P w = (code, s')"
  shows "if \<exists>content w'. sp_fetch P ''GET'' (BASE P @ ''/health/ready'') None w = (Inr (200, content), w')
    then map fst (sm_steps s') = map fst certified \<and> sm_passed s' + sm_failed s' = 22 \<and>
      (code = 0 \<longleftrightarrow> False \<notin> snd ` set (sm_steps s')) \<and> code \<le> 1 \<and>
      (code = 0 \<longrightarrow> (\<exists>ts. tl (sm_trace s') = concat ts \<and> list_all2 begins (map snd certified) ts))
    else code = 1 \<and> sm_steps s' = []"
proof (cases "fst (sp_fetch P ''GET'' (BASE P @ ''/health/ready'') None w)")
  case (Inl m)
  then have "code = 1" "sm_steps s' = []"
    using assms by (auto simp: smoke_main_def call_def smoke_start_def Let_def split: prod.splits sum.splits)
  with Inl show ?thesis by auto
next
  case (Inr a)
  obtain st content w' where f: "sp_fetch P ''GET'' (BASE P @ ''/health/ready'') None w = (Inr (st, content), w')"
    using Inr by (metis prod.collapse)
  define data where "data = Some (case sp_parse P content of None \<Rightarrow> BStr content | Some v \<Rightarrow> v)"
  let ?s = "(smoke_start w)\<lparr>sm_world := w', sm_trace := [(''GET'', ''/health/ready'', st, data)]\<rparr>"
  have c: "call P ''GET'' ''/health/ready'' [] (\<lambda>st _ s. (Inr st, s)) (smoke_start w) = (Inr st, ?s)"
    by (simp add: call_def f smoke_start_def data_def)
  show ?thesis
  proof (cases "st = 200")
    case False
    then have "code = 1" "s' = ?s" using assms c by (auto simp: smoke_main_def)
    with False show ?thesis by (simp add: smoke_start_def f)
  next
    case True
    then have s': "s' = run_steps (STEPS P) ?s" "code = (if sm_failed s' \<noteq> 0 then 1 else 0)"
      using assms c by (auto simp: smoke_main_def smoke_exit_def Let_def)
    have start: "sm_steps ?s = []" "sm_passed ?s = 0" "sm_failed ?s = 0" by (simp_all add: smoke_start_def)
    obtain bs where bs: "length bs = length (STEPS P)" "sm_steps s' = zip (map fst certified) bs" "sm_passed s' + sm_failed s' = length (STEPS P)"
      "sm_failed s' = length (filter (\<lambda>b. \<not> b) bs)"
      "False \<notin> set bs \<longrightarrow> (\<exists>ts. sm_trace s' = sm_trace ?s @ concat ts \<and> list_all2 begins (map snd certified) ts)"
      using run_steps_spec [OF steps_certified [of P] steps_keep [of P], of ?s, folded s'(1)] unfolding start append_Nil add_0 by blast
    have n: "length (STEPS P) = 22" "length certified = 22" by (simp_all add: STEPS_def certified_def)
    have zero: "code = 0 \<longleftrightarrow> False \<notin> set bs" by (auto simp: s'(2) bs(4) filter_empty_conv)
    have "snd ` set (sm_steps s') = set bs" using bs(1) n by (simp add: bs(2) flip: set_map)
    then show ?thesis using bs n zero by (auto simp: f True s'(2))
  qed
qed

text \<open>A server that has its answers ready.\<close>

definition canned_object :: "string \<Rightarrow> bool \<Rightarrow> body_value" where
  "canned_object source valid = BObj
     [(''account'', BObj [(''id'', BStr ''a'')]), (''reference'', BStr ''DEP-20240101-1''), (''pipeline'', BArr
        [BStr ''audit'', BStr ''fraud-screening'', BStr ''fee'', BStr ''ledger'']), (''strategy'', BStr ''tiered''),
      (''accounts'', whole_value 2), (''formattedTotals'', BArr []), (''totalFeesMinor'', whole_value 0), (''source'', BStr source),
      (''valid'', BBool valid), (''errors'', BArr []), (''fields'', BObj [(''amountMinor'', whole_value 50000000)]),
      (''decisionLog'', BArr []), (''job'', BStr ''interest-posting''), (''observers'', BArr [BNull, BNull, BNull]),
      (''details'', BObj [(''matchedRules'', BArr [BStr ''r''])]), (''answer'', BStr ''yes''), (''sources'', BArr [])]"

definition canned_product :: "string \<Rightarrow> body_value list \<Rightarrow> body_value" where
  "canned_product code perks = BObj [(''code'', BStr code), (''features'', BObj [(''perks'', BArr perks)])]"

fun canned_parse :: "string \<Rightarrow> body_value option" where
  "canned_parse s =
     (if s = ''ok'' then Some (canned_object ''cache'' True) else if s = ''no'' then Some (canned_object ''cache'' False)
      else if s = ''products'' then Some (BArr [canned_product ''BASIC_SAVER'' [BStr ''p''], canned_product ''STUDENT_SAVER'' [BStr ''p'', BStr ''q'']])
      else None)"

definition canned_fetch :: "string \<Rightarrow> string \<Rightarrow> string option \<Rightarrow> (nat \<times> string) list \<Rightarrow> (string + nat \<times> string) \<times> (nat \<times> string) list" where
  "canned_fetch verb url body w = (case w of [] \<Rightarrow> (Inl ''down'', []) | x # w' \<Rightarrow> (Inr x, w'))"

definition canned_platform :: "(nat \<times> string) list smoke_platform" where
  "canned_platform = \<lparr>sp_fetch = canned_fetch, sp_parse = canned_parse, sp_stringify = (\<lambda>v. []), sp_unique = ''lx'', sp_BASE_URL = None\<rparr>"

definition canned_answers :: "(nat \<times> string) list" where
  "canned_answers =
     [(200, ''ok''), (201, ''ok''), (201, ''ok''), (422, ''ok''), (200, ''products''), (201, ''ok''), (201, ''ok''), (422, ''ok''),
      (201, ''ok''), (403, ''ok''), (201, ''ok''), (422, ''ok''), (200, ''ok''), (201, ''ok''), (409, ''ok''), (200, ''ok''),
      (200, ''ok''), (200, ''ok''), (200, ''ok''), (200, ''ok''), (200, ''DETAILED STATEMENT''), (200, ''date,reference,amount''),
      (200, ''rows''), (200, ''ok''), (200, ''ok''), (201, ''ok''), (201, ''no''), (201, ''ok''), (200, ''ok''), (201, ''ok''),
      (201, ''ok''), (201, ''ok''), (200, ''ok''), (503, ''ok'')]"

definition canned_data :: "string \<Rightarrow> jval" where
  "canned_data c = Some (case canned_parse c of None \<Rightarrow> BStr c | Some v \<Rightarrow> v)"

lemma canned_data_simps [simp]:
  "canned_data ''ok'' = Some (canned_object ''cache'' True)" "canned_data ''no'' = Some (canned_object ''cache'' False)"
  "canned_data ''products'' = Some (BArr [canned_product ''BASIC_SAVER'' [BStr ''p''], canned_product ''STUDENT_SAVER'' [BStr ''p'', BStr ''q'']])"
  "canned_data ''DETAILED STATEMENT'' = Some (BStr ''DETAILED STATEMENT'')"
  "canned_data ''date,reference,amount'' = Some (BStr ''date,reference,amount'')" "canned_data ''rows'' = Some (BStr ''rows'')"
  by (simp_all add: canned_data_def)

declare canned_parse.simps [simp del]

lemma canned_call [simp]:
  "sm_world s = (st, c) # w \<Longrightarrow> call canned_platform v p b k s =
     k st (canned_data c) (s\<lparr>sm_world := w, sm_trace := sm_trace s @ [(v, p, st, canned_data c)]\<rparr>)"
  by (simp add: call_def canned_platform_def canned_fetch_def canned_data_def Let_def)

lemma canned_object_fields [simp]:
  "field_of k (Some (canned_object source valid)) = Inr (map_of
     [(''account'', BObj [(''id'', BStr ''a'')]), (''reference'', BStr ''DEP-20240101-1''), (''pipeline'', BArr
        [BStr ''audit'', BStr ''fraud-screening'', BStr ''fee'', BStr ''ledger'']), (''strategy'', BStr ''tiered''),
      (''accounts'', whole_value 2), (''formattedTotals'', BArr []), (''totalFeesMinor'', whole_value 0), (''source'', BStr source),
      (''valid'', BBool valid), (''errors'', BArr []), (''fields'', BObj [(''amountMinor'', whole_value 50000000)]),
      (''decisionLog'', BArr []), (''job'', BStr ''interest-posting''), (''observers'', BArr [BNull, BNull, BNull]),
      (''details'', BObj [(''matchedRules'', BArr [BStr ''r''])]), (''answer'', BStr ''yes''), (''sources'', BArr [])] k)"
  by (simp add: canned_object_def)

lemma canned_product_fields [simp]:
  "field_of k (Some (canned_product code perks)) = Inr (map_of [(''code'', BStr code), (''features'', BObj [(''perks'', BArr perks)])] k)"
  by (simp add: canned_product_def)

text \<open>A step that passes on the answers \<open>w\<close> and leaves \<open>w'\<close>.\<close>

definition passes_on :: "((nat \<times> string) list, string) action \<Rightarrow> (nat \<times> string) list \<Rightarrow> bool" where
  "passes_on f w \<longleftrightarrow> (\<forall>rest s. sm_world s = w @ rest \<and> (\<exists>a. sm_savings s = Some (BObj a)) \<and> (\<exists>a. sm_current s = Some (BObj a)) \<longrightarrow>
     (\<exists>x s'. f s = (Inr x, s') \<and> sm_world s' = rest \<and> (\<exists>a. sm_savings s' = Some (BObj a)) \<and> (\<exists>a. sm_current s' = Some (BObj a))))"

lemma deposit_reference_sample [simp]: "deposit_reference (Some (BStr ''DEP-20240101-1''))"
  by code_simp

lemma at_least_three [simp]: "at_least 3 (Some (BNum (Finite 3)))"
  by (simp add: at_least_def num_le_def)

lemmas step_evaluation = reading_value_def expecting_def storing_def shows_line_def is_text_def is_amount_def is_numeric_def
  joined_def find_item_def first_item_def sliced_def optional_field_def text_with_def

lemma canned_passes:
  "passes_on (factory_step canned_platform) [(422, ''ok'')]"
  "passes_on (prototype_step canned_platform) [(200, ''products'')]"
  "passes_on (singleton_step canned_platform) [(201, ''ok'')]"
  "passes_on (command_step canned_platform) [(201, ''ok''), (422, ''ok'')]"
  "passes_on (decorator_step canned_platform) [(201, ''ok'')]"
  "passes_on (interpreter_step canned_platform) [(403, ''ok''), (201, ''ok'')]"
  "passes_on (chain_step canned_platform) [(422, ''ok'')]"
  "passes_on (state_step canned_platform) [(200, ''ok''), (201, ''ok''), (409, ''ok''), (200, ''ok'')]"
  "passes_on (strategy_step canned_platform) [(200, ''ok'')]"
  "passes_on (composite_step canned_platform) [(200, ''ok'')]"
  "passes_on (visitor_step canned_platform) [(200, ''ok'')]"
  "passes_on (flyweight_step canned_platform) [(200, ''ok'')]"
  "passes_on (bridge_step canned_platform) [(200, ''DETAILED STATEMENT''), (200, ''date,reference,amount'')]"
  "passes_on (iterator_step canned_platform) [(200, ''rows'')]"
  "passes_on (proxy_step canned_platform) [(200, ''ok''), (200, ''ok'')]"
  "passes_on (abstract_factory_step canned_platform) [(201, ''ok''), (201, ''no'')]"
  "passes_on (memento_step canned_platform) [(201, ''ok''), (200, ''ok''), (201, ''ok'')]"
  "passes_on (mediator_step canned_platform) [(201, ''ok'')]"
  "passes_on (template_step canned_platform) [(201, ''ok'')]"
  "passes_on (observer_step canned_platform) [(200, ''ok'')]"
  "passes_on (rag_step canned_platform) [(503, ''ok'')]"
  by (auto simp: passes_on_def factory_step_def prototype_step_def singleton_step_def command_step_def decorator_step_def
    interpreter_step_def chain_step_def state_step_def strategy_step_def composite_step_def visitor_step_def flyweight_step_def
    bridge_step_def iterator_step_def proxy_step_def abstract_factory_step_def memento_step_def mediator_step_def
    template_step_def observer_step_def rag_step_def step_evaluation shown_value_def starts_with_def)

lemma run_canned:
  assumes "list_all2 (\<lambda>(pattern, f) w. passes_on f w \<and> keeps_tally f) fs ws" "sm_world s = concat ws"
    "\<exists>a. sm_savings s = Some (BObj a)" "\<exists>a. sm_current s = Some (BObj a)"
  shows "sm_failed (run_steps fs s) = sm_failed s"
  using assms
proof (induction fs ws arbitrary: s rule: list_all2_induct)
  case Nil
  then show ?case by (simp add: run_steps_def)
next
  case (Cons pf fs w ws)
  obtain pattern f where pf: "pf = (pattern, f)" by (cases pf)
  with Cons.hyps(1) have f: "passes_on f w" "keeps_tally f" by simp_all
  have "sm_world s = w @ concat ws" using Cons.prems(1) by simp
  with f(1) Cons.prems(2,3) obtain x s' where s': "f s = (Inr x, s')" "sm_world s' = concat ws"
    "\<exists>a. sm_savings s' = Some (BObj a)" "\<exists>a. sm_current s' = Some (BObj a)"
    unfolding passes_on_def by meson
  from f(2) s'(1) have "sm_failed s' = sm_failed s" by (auto simp: keeps_tally_def tally_def dest: spec [of _ s])
  with s' Cons.IH [of "run_step pattern f s"] show ?case by (simp add: pf run_steps_def run_step_def)
qed

lemma canned_run: "fst (smoke_main canned_platform canned_answers) = 0"
proof -
  define ws where "ws =
     [[(422, ''ok'')], [(200, ''products'')], [(201, ''ok'')], [(201, ''ok''), (422, ''ok'')], [(201, ''ok'')],
      [(403, ''ok''), (201, ''ok'')], [(422, ''ok'')], [(200, ''ok''), (201, ''ok''), (409, ''ok''), (200, ''ok'')], [(200, ''ok'')],
      [(200, ''ok'')], [(200, ''ok'')], [(200, ''ok'')], [(200, ''DETAILED STATEMENT''), (200, ''date,reference,amount'')],
      [(200, ''rows'')], [(200, ''ok''), (200, ''ok'')], [(201, ''ok''), (201, ''no'')], [(201, ''ok''), (200, ''ok''), (201, ''ok'')],
      [(201, ''ok'')], [(201, ''ok'')], [(200, ''ok'')], [(503 :: nat, ''ok'')]]"
  have answers: "canned_answers = (200, ''ok'') # (201, ''ok'') # (201, ''ok'') # concat ws"
    by (simp add: canned_answers_def ws_def)
  obtain s where s: "call canned_platform ''GET'' ''/health/ready'' [] (\<lambda>st _ s. (Inr st, s)) (smoke_start canned_answers) = (Inr 200, s)"
    "sm_world s = (201, ''ok'') # (201, ''ok'') # concat ws" "sm_failed s = 0"
    by (simp add: answers smoke_start_def)
  obtain x s1 where s1: "onboarding_step canned_platform s = (Inr x, s1)" "sm_world s1 = concat ws" "sm_failed s1 = 0"
    "\<exists>a. sm_savings s1 = Some (BObj a)" "\<exists>a. sm_current s1 = Some (BObj a)"
    using s(2,3) by (simp add: onboarding_step_def step_evaluation)
  have passing: "list_all2 (\<lambda>(pattern, f) w. passes_on f w \<and> keeps_tally f) (tl (STEPS canned_platform)) ws"
    using steps_keep [of canned_platform] by (simp add: STEPS_def ws_def canned_passes)
  have "run_steps (STEPS canned_platform) s = run_steps (tl (STEPS canned_platform)) (run_step ''Facade'' (onboarding_step canned_platform) s)"
    by (simp add: run_steps_def STEPS_def)
  also have "sm_failed \<dots> = 0"
    using run_canned [OF passing] s1 by (simp add: run_step_def)
  finally show ?thesis using s(1) by (simp add: smoke_main_def smoke_exit_def Let_def)
qed

theorem green_run_certifies_witness:
  "\<exists>s' ts. smoke_main canned_platform canned_answers = (0, s') \<and> tl (sm_trace s') = concat ts \<and>
     list_all2 begins (map snd certified) ts"
proof -
  obtain s' where run: "smoke_main canned_platform canned_answers = (0, s')"
    using canned_run by (metis prod.collapse)
  have "sp_fetch canned_platform ''GET'' u None canned_answers = (Inr (200, ''ok''), tl canned_answers)" for u
    by (simp add: canned_platform_def canned_fetch_def canned_answers_def)
  with green_run_certifies [OF run] run show ?thesis by auto
qed

text \<open>Two steps ask for nothing: whatever the server answers to them, they pass.\<close>

lemma export_step_asks_nothing:
  assumes "sm_savings s = Some (BObj a)" "\<And>url. \<exists>st content w. sp_fetch P ''GET'' url None (sm_world s) = (Inr (st, content), w)"
  shows "\<exists>x s'. iterator_step P s = (Inr x, s')"
  using assms(2) [of "BASE P @ ''/transactions/accounts/'' @ shown_value (map_of a ''id'') @ ''/export.csv''"] assms(1)
  by (auto simp: iterator_step_def reading_value_def call_def shows_line_def Let_def)

end
