(* ===== verification/Ingest.thy ===== *)
theory Ingest
  imports Startup
begin

text \<open>
  The command that ingests the knowledge base from a shell (\<open>src/src/modules/ai/scripts/ingest-knowledge.ts\<close>).

  The order matters: the module of the application is imported before the script runs, and importing it reads and
  validates the environment once (\<open>ConfigModule.forRoot\<close> in \<open>src/src/config/config.module.ts\<close>); every
  access of the configuration takes the validated values. What the container does besides is left out; \<open>JSON.stringify\<close>
  is an argument.
\<close>

record process =
  pr_env :: env_vars
  pr_config :: "configuration option"

definition import_app_module :: "(env_schema \<Rightarrow> env_vars \<Rightarrow> string + configuration) \<Rightarrow> process \<Rightarrow> string + process" where
  "import_app_module validator p = (case validator envValidationSchema (pr_env p) of
     Inl m \<Rightarrow> Inl m | Inr c \<Rightarrow> Inr (p\<lparr>pr_config := Some c\<rparr>))"

definition set_env :: "string \<Rightarrow> string \<Rightarrow> process \<Rightarrow> process" where
  "set_env k v p = p\<lparr>pr_env := (k, v) # pr_env p\<rparr>"

definition ingest_overrides :: "process \<Rightarrow> process" where
  "ingest_overrides p = set_env ''KAFKA_ENABLED'' ''false'' (set_env ''AI_AUTO_INGEST'' ''false'' p)"

text \<open>How the script ends: the exit code, what it prints, and whether the context came up with Kafka and the automatic ingestion.\<close>

record ingest_end =
  ie_exitCode :: nat
  ie_output :: string
  ie_kafka :: bool
  ie_autoIngest :: bool

definition ingest_failed :: "string \<Rightarrow> ingest_end" where
  "ingest_failed m = \<lparr>ie_exitCode = 1, ie_output = m, ie_kafka = False, ie_autoIngest = False\<rparr>"

definition ingest_main ::
  "(ingestion_result \<Rightarrow> string) \<Rightarrow> ingestion_deps \<Rightarrow> (string \<times> string) list \<Rightarrow> process \<Rightarrow> knowledge \<Rightarrow> ingest_end \<times> knowledge" where
  "ingest_main stringify d dir p s = (let p' = ingest_overrides p in
     case pr_config p' of
       None \<Rightarrow> (ingest_failed ''no configuration'', s)
     | Some c \<Rightarrow>
         (case initial_bus c True of
            Inl x \<Rightarrow> (ingest_failed (err_message x), s)
          | Inr bus \<Rightarrow>
              (case config_ai c of
                 Inl x \<Rightarrow> (ingest_failed (err_message x), s)
               | Inr ai \<Rightarrow>
                   (case ingestDirectory d dir s of
                      (Inl x, s') \<Rightarrow> (\<lparr>ie_exitCode = 1, ie_output = err_message x, ie_kafka = kafkaEnabled bus, ie_autoIngest = ac_autoIngest ai\<rparr>, s')
                    | (Inr r, s') \<Rightarrow> (\<lparr>ie_exitCode = 0, ie_output = stringify r, ie_kafka = kafkaEnabled bus, ie_autoIngest = ac_autoIngest ai\<rparr>, s')))))"

definition ingest_script ::
  "(env_schema \<Rightarrow> env_vars \<Rightarrow> string + configuration) \<Rightarrow> (ingestion_result \<Rightarrow> string) \<Rightarrow> ingestion_deps \<Rightarrow> (string \<times> string) list \<Rightarrow>
     env_vars \<Rightarrow> knowledge \<Rightarrow> ingest_end \<times> knowledge" where
  "ingest_script validator stringify d dir env s =
     (case import_app_module validator \<lparr>pr_env = env, pr_config = None\<rparr> of
        Inl m \<Rightarrow> (ingest_failed m, s) | Inr p \<Rightarrow> ingest_main stringify d dir p s)"

text \<open>
  The overrides of the script come too late: with an environment that enables Kafka and the automatic ingestion its
  context starts with both, although an environment with the overrides in place would enable neither.
\<close>
theorem ingest_overrides_ignored:
  assumes "env_validator validator" "validator envValidationSchema env = Inr c" "get_bool c ''KAFKA_ENABLED''" "get_bool c ''AI_AUTO_INGEST''"
    and "ingest_script validator stringify d dir env s = (r, s')"
  shows "ie_kafka r \<and> ie_autoIngest r \<and> (ie_exitCode r = 0 \<longleftrightarrow> is_ok (fst (ingestDirectory d dir s)))"
proof -
  obtain k a where k: "config_kafka c = Inr k" and a: "config_ai c = Inr a"
    using configuration_complete [OF assms(1,2)] by blast
  have "kc_enabled k" "ac_autoIngest a"
    using k a assms(3,4) by (auto simp: config_kafka_def config_ai_def result_simps)
  then show ?thesis
    using assms(5) by (auto simp: ingest_script_def import_app_module_def assms(2) ingest_main_def ingest_overrides_def set_env_def
        initial_bus_def k a Let_def is_ok_def split: prod.splits sum.splits)
qed

theorem ingest_overrides_ignored_witness:
  "\<exists>c. simple_validate envValidationSchema [(''KAFKA_ENABLED'', ''true''), (''AI_AUTO_INGEST'', ''true'')] = Inr c \<and>
     ie_kafka (fst (ingest_script simple_validate (\<lambda>r. []) d [] [(''KAFKA_ENABLED'', ''true''), (''AI_AUTO_INGEST'', ''true'')] s)) \<and>
   (\<exists>c. simple_validate envValidationSchema (pr_env (ingest_overrides
       \<lparr>pr_env = [(''KAFKA_ENABLED'', ''true''), (''AI_AUTO_INGEST'', ''true'')], pr_config = None\<rparr>)) = Inr c \<and>
     \<not> get_bool c ''KAFKA_ENABLED'' \<and> \<not> get_bool c ''AI_AUTO_INGEST'')"
proof -
  let ?env = "[(''KAFKA_ENABLED'', ''true''), (''AI_AUTO_INGEST'', ''true'')]"
  have lower: "toLowerCase ''true'' = ''true''" "toLowerCase ''false'' = ''false''" by code_simp+
  obtain c where c: "simple_validate envValidationSchema ?env = Inr c" "get_bool c ''KAFKA_ENABLED''" "get_bool c ''AI_AUTO_INGEST''"
    by (simp add: envValidationSchema_def get_bool_def lower)
  obtain r s' where run: "ingest_script simple_validate (\<lambda>r. []) d [] ?env s = (r, s')"
    by (cases "ingest_script simple_validate (\<lambda>r. []) d [] ?env s")
  have "\<exists>c. simple_validate envValidationSchema (pr_env (ingest_overrides \<lparr>pr_env = ?env, pr_config = None\<rparr>)) = Inr c \<and>
      \<not> get_bool c ''KAFKA_ENABLED'' \<and> \<not> get_bool c ''AI_AUTO_INGEST''"
    by (simp add: envValidationSchema_def get_bool_def lower ingest_overrides_def set_env_def)
  with ingest_overrides_ignored [OF simple_env.env_validator_axioms c run] c(1) run show ?thesis by auto
qed

end
